theory Spec2Isabelle
  imports Main "HOL-Library.Word"
begin

section \<open>Weights, durations and sentinels\<close>

text \<open>
  Node, level and cell handles are dense unsigned integers; they are modelled as natural
  numbers (a handle of \<open>2^32\<close> or more is outside the model).
  \<open>EdgeWeight\<close> is the signed 32-bit integer of the source: a 32-bit word whose sum
  wraps around and whose order is the signed one (\<open><s\<close>, \<open>\<le>s\<close>).
\<close>

type_synonym NodeID = nat

type_synonym LevelID = nat

type_synonym CellID = nat

type_synonym EdgeWeight = "32 word"

text \<open>
  Modelled from the spec: the two sentinels \<open>INVALID_WEIGHT\<close> ("treated as
  +infinity") and \<open>MAX_DURATION\<close> are declared outside the given sources; both are
  the largest signed 32-bit value.
\<close>

definition INVALID_EDGE_WEIGHT :: EdgeWeight where
  "INVALID_EDGE_WEIGHT = 0x7FFFFFFF"

definition MAXIMAL_EDGE_DURATION :: EdgeWeight where
  "MAXIMAL_EDGE_DURATION = 0x7FFFFFFF"

text \<open>\<open>std::min(a, b)\<close> on signed values: \<open>b\<close> when \<open>b < a\<close>, else \<open>a\<close>.\<close>

definition std_min :: "EdgeWeight \<Rightarrow> EdgeWeight \<Rightarrow> EdgeWeight" where
  "std_min a b = (if b <s a then b else a)"

definition FORWARD_DIRECTION :: bool where
  "FORWARD_DIRECTION = True"

definition REVERSE_DIRECTION :: bool where
  "REVERSE_DIRECTION = False"

section \<open>The graph facade\<close>

text \<open>
  Modelled from the spec: the facade contract. An edge carries what
  \<open>GetTarget(edge)\<close> and \<open>GetEdgeData(edge)\<close> return; the graph is the list of
  the nodes' adjacent edge ranges. A node outside the graph has no adjacent edge.
\<close>

record Edge =
  edge_target :: NodeID
  edge_weight :: EdgeWeight
  edge_duration :: EdgeWeight
  forward :: bool
  backward :: bool

record Facade =
  adjacency :: "Edge list list"

definition GetNumberOfNodes :: "'a Facade_scheme \<Rightarrow> nat" where
  "GetNumberOfNodes facade = length (adjacency facade)"

definition GetAdjacentEdgeRange :: "'a Facade_scheme \<Rightarrow> NodeID \<Rightarrow> Edge list" where
  "GetAdjacentEdgeRange facade node =
     (if node < length (adjacency facade) then adjacency facade ! node else [])"

text \<open>
  Modelled from the spec: \<open>ch::getLoopWeight<UseDuration>(facade, node)\<close>, "min
  over self-loops at n of edge_weight in forward direction; INVALID_WEIGHT if none", and
  in duration mode the same minimum over the loops' durations, starting from
  \<open>MAX_DURATION\<close>.
\<close>

definition getLoopWeight :: "bool \<Rightarrow> 'a Facade_scheme \<Rightarrow> NodeID \<Rightarrow> EdgeWeight" where
  "getLoopWeight UseDuration facade node =
     foldl (\<lambda>loop_weight edge.
              if forward edge \<and> edge_target edge = node
              then std_min loop_weight
                     (if UseDuration then edge_duration edge else edge_weight edge)
              else loop_weight)
           (if UseDuration then MAXIMAL_EDGE_DURATION else INVALID_EDGE_WEIGHT)
           (GetAdjacentEdgeRange facade node)"



section \<open>The bucket index\<close>

text \<open>
  \<open>struct NodeBucket { target_id; weight; duration }\<close>. The two cost fields carry the
  names the routing steps give them (\<open>target_weight\<close>, \<open>target_duration\<close>).
  \<open>SearchSpaceWithBuckets\<close> is the \<open>unordered_map\<close> from a node to its vector.
\<close>

record NodeBucket =
  target_id :: nat
  target_weight :: EdgeWeight
  target_duration :: EdgeWeight

type_synonym SearchSpaceWithBuckets = "NodeID \<rightharpoonup> NodeBucket list"

section \<open>The bucket update of a forward step\<close>

text \<open>
  The body of the loop over \<open>bucket_list\<close> in \<open>ch::forwardRoutingStep\<close>, as a
  function of the cell \<open>(current_weight, current_duration)\<close> it reads and writes.
\<close>

definition ch_bucket_update ::
  "'a Facade_scheme \<Rightarrow> NodeID \<Rightarrow> EdgeWeight \<Rightarrow> EdgeWeight \<Rightarrow> NodeBucket \<Rightarrow>
   EdgeWeight \<times> EdgeWeight \<Rightarrow> EdgeWeight \<times> EdgeWeight" where
  "ch_bucket_update facade node source_weight source_duration current_bucket cell =
     (let current_weight = fst cell;
          current_duration = snd cell;
          new_weight = source_weight + target_weight current_bucket
      in if new_weight <s 0
         then (let loop_weight = getLoopWeight False facade node;
                   new_weight_with_loop = new_weight + loop_weight
               in if loop_weight \<noteq> INVALID_EDGE_WEIGHT \<and> 0 \<le>s new_weight_with_loop
                  then (std_min current_weight new_weight_with_loop,
                        std_min current_duration
                          (source_duration + target_duration current_bucket +
                           getLoopWeight True facade node))
                  else (current_weight, current_duration))
         else if new_weight <s current_weight
              then (new_weight, source_duration + target_duration current_bucket)
              else (current_weight, current_duration))"

text \<open>The same loop body in \<open>mld::forwardRoutingStep\<close>.\<close>

definition mld_bucket_update ::
  "EdgeWeight \<Rightarrow> EdgeWeight \<Rightarrow> NodeBucket \<Rightarrow>
   EdgeWeight \<times> EdgeWeight \<Rightarrow> EdgeWeight \<times> EdgeWeight" where
  "mld_bucket_update source_weight source_duration current_bucket cell =
     (let current_weight = fst cell;
          current_duration = snd cell;
          new_weight = source_weight + target_weight current_bucket
      in if 0 \<le>s new_weight \<and> new_weight <s current_weight
         then (new_weight, source_duration + target_duration current_bucket)
         else (current_weight, current_duration))"

section \<open>The query heap\<close>

text \<open>
  Modelled from the spec: the addressable min-heap is declared outside the given sources.
  It supports \<open>insert\<close>, \<open>was_inserted\<close>, \<open>get_key\<close>, \<open>get_data\<close>,
  \<open>decrease_key\<close>, \<open>delete_min\<close>, \<open>empty\<close> and \<open>clear\<close>;
  "\<open>was_inserted\<close> returns true for all nodes ever inserted since \<open>clear\<close>,
  including already-popped ones". The heap is the list of the nodes inserted since the last
  \<open>clear\<close>, in insertion order, each with its key, its data and whether it is still
  in the heap. \<open>GetKey\<close> of a node that was never inserted is \<open>None\<close>, so
  \<open>WasInserted\<close> followed by \<open>GetKey\<close> is one case distinction.
  \<open>DeleteMin\<close> returns the popped entry (node, key and data) with the new heap;
  among equal least keys the node inserted first is popped.
\<close>

record 'd HeapNode =
  h_node :: NodeID
  h_key :: EdgeWeight
  h_data :: 'd
  in_heap :: bool

type_synonym 'd QueryHeap = "'d HeapNode list"

definition Clear :: "'d QueryHeap \<Rightarrow> 'd QueryHeap" where
  "Clear heap = []"

definition Empty :: "'d QueryHeap \<Rightarrow> bool" where
  "Empty heap = (filter in_heap heap = [])"

definition Insert :: "'d QueryHeap \<Rightarrow> NodeID \<Rightarrow> EdgeWeight \<Rightarrow> 'd \<Rightarrow> 'd QueryHeap" where
  "Insert heap n k d = heap @ [\<lparr>h_node = n, h_key = k, h_data = d, in_heap = True\<rparr>]"

definition GetEntry :: "'d QueryHeap \<Rightarrow> NodeID \<Rightarrow> 'd HeapNode option" where
  "GetEntry heap n = find (\<lambda>e. h_node e = n) heap"

definition WasInserted :: "'d QueryHeap \<Rightarrow> NodeID \<Rightarrow> bool" where
  "WasInserted heap n = (GetEntry heap n \<noteq> None)"

definition GetKey :: "'d QueryHeap \<Rightarrow> NodeID \<Rightarrow> EdgeWeight option" where
  "GetKey heap n = map_option h_key (GetEntry heap n)"

definition SetData :: "'d QueryHeap \<Rightarrow> NodeID \<Rightarrow> 'd \<Rightarrow> 'd QueryHeap" where
  "SetData heap n d = map (\<lambda>e. if h_node e = n then e\<lparr>h_data := d\<rparr> else e) heap"

definition DecreaseKey :: "'d QueryHeap \<Rightarrow> NodeID \<Rightarrow> EdgeWeight \<Rightarrow> 'd QueryHeap" where
  "DecreaseKey heap n k = map (\<lambda>e. if h_node e = n then e\<lparr>h_key := k\<rparr> else e) heap"

fun find_min :: "'d QueryHeap \<Rightarrow> 'd HeapNode option" where
  "find_min [] = None"
| "find_min (e # es) =
     (if in_heap e
      then (case find_min es of
              None \<Rightarrow> Some e
            | Some m \<Rightarrow> if h_key m <s h_key e then Some m else Some e)
      else find_min es)"

fun mark_removed :: "'d HeapNode \<Rightarrow> 'd QueryHeap \<Rightarrow> 'd QueryHeap" where
  "mark_removed m [] = []"
| "mark_removed m (e # es) =
     (if e = m then e\<lparr>in_heap := False\<rparr> # es else e # mark_removed m es)"

definition DeleteMin :: "'d QueryHeap \<Rightarrow> ('d HeapNode \<times> 'd QueryHeap) option" where
  "DeleteMin heap =
     (case find_min heap of None \<Rightarrow> None | Some m \<Rightarrow> Some (m, mark_removed m heap))"

text \<open>
  The measure of the search loops: the nodes still in the heap, and the nodes of a finite
  set \<open>T\<close> that were never inserted. A pop lowers it; a relaxation, which inserts
  only nodes of \<open>T\<close> that were never inserted, keeps it.
\<close>

definition heap_measure :: "NodeID set \<Rightarrow> 'd QueryHeap \<Rightarrow> nat" where
  "heap_measure T heap = length (filter in_heap heap) + card (T - h_node ` set heap)"

lemma find_min_Some: "find_min heap = Some m \<Longrightarrow> m \<in> set heap \<and> in_heap m"
  by (induction heap arbitrary: m) (auto split: if_splits option.splits)

lemma find_min_None: "(find_min heap = None) = (filter in_heap heap = [])"
  by (induction heap) (auto split: option.splits if_splits)

lemma mark_removed_count:
  "m \<in> set heap \<Longrightarrow> in_heap m \<Longrightarrow>
   Suc (length (filter in_heap (mark_removed m heap))) = length (filter in_heap heap)"
  by (induction heap) auto

lemma mark_removed_nodes: "h_node ` set (mark_removed m heap) = h_node ` set heap"
  by (induction heap) auto

lemma mark_removed_nodes_list: "map h_node (mark_removed m heap) = map h_node heap"
  by (induction heap) auto

lemma DeleteMin_measure:
  "DeleteMin heap = Some (m, heap') \<Longrightarrow> Suc (heap_measure T heap') = heap_measure T heap"
  by (auto simp add: DeleteMin_def heap_measure_def mark_removed_nodes
      split: option.splits dest!: find_min_Some intro: mark_removed_count)

lemma DeleteMin_None: "(DeleteMin heap = None) = Empty heap"
  using find_min_None [of heap]
  by (cases "find_min heap") (simp_all add: DeleteMin_def Empty_def)

lemma GetKey_None: "(GetKey heap n = None) = (n \<notin> h_node ` set heap)"
  by (auto simp add: GetKey_def GetEntry_def find_None_iff)

lemma Insert_measure:
  "finite T \<Longrightarrow> n \<in> T \<Longrightarrow> GetKey heap n = None \<Longrightarrow>
   heap_measure T (Insert heap n k d) = heap_measure T heap"
proof -
  assume fin: "finite T" and nT: "n \<in> T" and new: "GetKey heap n = None"
  from new have "n \<notin> h_node ` set heap" by (simp add: GetKey_None)
  with nT have mem: "n \<in> T - h_node ` set heap" by simp
  have "T - h_node ` set (Insert heap n k d) = (T - h_node ` set heap) - {n}"
    by (auto simp add: Insert_def)
  moreover from fin have "finite (T - h_node ` set heap)" by simp
  ultimately have "Suc (card (T - h_node ` set (Insert heap n k d))) = card (T - h_node ` set heap)"
    using mem card_Suc_Diff1 [of "T - h_node ` set heap" n] by simp
  then show ?thesis
    by (simp add: heap_measure_def Insert_def)
qed

lemma SetData_measure: "heap_measure T (SetData heap n d) = heap_measure T heap"
proof -
  have a: "filter in_heap (SetData heap n d) = SetData (filter in_heap heap) n d"
    by (induction heap) (simp_all add: SetData_def)
  have b: "map h_node (SetData heap n d) = map h_node heap"
    by (induction heap) (simp_all add: SetData_def)
  have "h_node ` set (SetData heap n d) = set (map h_node (SetData heap n d))" by simp
  with b have c: "h_node ` set (SetData heap n d) = h_node ` set heap" by simp
  show ?thesis unfolding heap_measure_def a c by (simp add: SetData_def)
qed

lemma DecreaseKey_measure: "heap_measure T (DecreaseKey heap n k) = heap_measure T heap"
proof -
  have a: "filter in_heap (DecreaseKey heap n k) = DecreaseKey (filter in_heap heap) n k"
    by (induction heap) (simp_all add: DecreaseKey_def)
  have b: "map h_node (DecreaseKey heap n k) = map h_node heap"
    by (induction heap) (simp_all add: DecreaseKey_def)
  have "h_node ` set (DecreaseKey heap n k) = set (map h_node (DecreaseKey heap n k))" by simp
  with b have c: "h_node ` set (DecreaseKey heap n k) = h_node ` set heap" by simp
  show ?thesis unfolding heap_measure_def a c by (simp add: DecreaseKey_def)
qed

section \<open>Phantom nodes\<close>

text \<open>
  Modelled from the spec: a phantom node carries "forward and reverse
  \<open>SegmentId { id, enabled }\<close> plus small offset weights/durations injected into the
  heap at search start"; \<open>insertSourceInHeap\<close> and \<open>insertTargetInHeap\<close> are
  declared outside the given sources. Each enabled segment is inserted with its offset
  weight; \<open>init\<close> builds the heap data of a start node from its offset duration.
\<close>

record SegmentID =
  seg_id :: NodeID
  enabled :: bool

record PhantomNode =
  forward_segment_id :: SegmentID
  reverse_segment_id :: SegmentID
  forward_weight :: EdgeWeight
  forward_duration :: EdgeWeight
  reverse_weight :: EdgeWeight
  reverse_duration :: EdgeWeight

definition insertInHeap ::
  "(NodeID \<Rightarrow> EdgeWeight \<Rightarrow> 'd) \<Rightarrow> 'd QueryHeap \<Rightarrow> PhantomNode \<Rightarrow> 'd QueryHeap" where
  "insertInHeap init heap phantom_node =
     (let heap1 =
            (if enabled (forward_segment_id phantom_node)
             then Insert heap (seg_id (forward_segment_id phantom_node)) (forward_weight phantom_node)
                    (init (seg_id (forward_segment_id phantom_node)) (forward_duration phantom_node))
             else heap)
      in if enabled (reverse_segment_id phantom_node)
         then Insert heap1 (seg_id (reverse_segment_id phantom_node)) (reverse_weight phantom_node)
                (init (seg_id (reverse_segment_id phantom_node)) (reverse_duration phantom_node))
         else heap1)"

definition insertSourceInHeap ::
  "(NodeID \<Rightarrow> EdgeWeight \<Rightarrow> 'd) \<Rightarrow> 'd QueryHeap \<Rightarrow> PhantomNode \<Rightarrow> 'd QueryHeap" where
  "insertSourceInHeap init heap phantom_node = insertInHeap init heap phantom_node"

definition insertTargetInHeap ::
  "(NodeID \<Rightarrow> EdgeWeight \<Rightarrow> 'd) \<Rightarrow> 'd QueryHeap \<Rightarrow> PhantomNode \<Rightarrow> 'd QueryHeap" where
  "insertTargetInHeap init heap phantom_node = insertInHeap init heap phantom_node"

section \<open>The state of a many-to-many call\<close>

text \<open>
  The mutable objects of one \<open>manyToManySearch\<close> call, which its two lambdas
  capture by reference: the heap, the bucket index, the two tables and the two counters.
  The counters \<open>column_idx\<close> and \<open>row_idx\<close>, the \<open>target_id\<close> of a
  bucket entry and the parameters \<open>row_idx\<close> and \<open>number_of_targets\<close> of
  \<open>forwardRoutingStep\<close> are \<open>unsigned\<close>, 32 bits wide; the sizes of the
  vectors are \<open>std::size_t\<close>, 64 bits wide. They are natural numbers here, and every
  operation of the source that can wrap is followed by \<open>to_unsigned\<close> or
  \<open>to_size_t\<close>, the value of the number as a word of that width.
\<close>

record 'd SearchState =
  query_heap :: "'d QueryHeap"
  search_space_with_buckets :: SearchSpaceWithBuckets
  weights_table :: "EdgeWeight list"
  durations_table :: "EdgeWeight list"
  column_idx :: nat
  row_idx :: nat

definition to_unsigned :: "nat \<Rightarrow> nat" where
  "to_unsigned n = unat (of_nat n :: 32 word)"

definition to_size_t :: "nat \<Rightarrow> nat" where
  "to_size_t n = unat (of_nat n :: 64 word)"

text \<open>
  The index \<open>row_idx * number_of_targets + column_idx\<close> of a table cell, which the
  source computes in \<open>unsigned\<close>.
\<close>

definition table_index :: "nat \<Rightarrow> nat \<Rightarrow> nat \<Rightarrow> nat" where
  "table_index row number_of_targets column =
     unat ((of_nat row :: 32 word) * of_nat number_of_targets + of_nat column)"

text \<open>\<open>search_space_with_buckets[node].emplace_back(...)\<close>.\<close>

definition emplace_back ::
  "SearchSpaceWithBuckets \<Rightarrow> NodeID \<Rightarrow> NodeBucket \<Rightarrow> SearchSpaceWithBuckets" where
  "emplace_back buckets n b =
     buckets(n \<mapsto> (case buckets n of None \<Rightarrow> [] | Some bucket_list \<Rightarrow> bucket_list) @ [b])"

text \<open>
  \<open>phantom_nodes[index]\<close> with an index outside the vector, and
  \<open>weights_table[i]\<close> or \<open>durations_table[i]\<close> with an index outside the
  table, are undefined in the source (the spec: a programmer error); the model ends the call
  with an error value. The loops over the phantoms, \<open>for (phantom : phantom_nodes)\<close>
  and \<open>for (index : indices)\<close>, and the loop over a bucket list,
  \<open>for (current_bucket : bucket_list)\<close>, take the loop body as a parameter.
\<close>

datatype error = PhantomIndexOutOfRange | TableIndexOutOfRange

fun for_each_phantom ::
  "(PhantomNode \<Rightarrow> 's \<Rightarrow> error + 's) \<Rightarrow> PhantomNode list \<Rightarrow> 's \<Rightarrow> error + 's" where
  "for_each_phantom body [] s = Inr s"
| "for_each_phantom body (phantom_node # rest) s =
     (case body phantom_node s of Inl e \<Rightarrow> Inl e | Inr s' \<Rightarrow> for_each_phantom body rest s')"

fun for_each_index ::
  "(PhantomNode \<Rightarrow> 's \<Rightarrow> error + 's) \<Rightarrow> PhantomNode list \<Rightarrow> nat list \<Rightarrow> 's \<Rightarrow> error + 's" where
  "for_each_index body phantom_nodes [] s = Inr s"
| "for_each_index body phantom_nodes (index # rest) s =
     (if index < length phantom_nodes
      then (case body (phantom_nodes ! index) s of
              Inl e \<Rightarrow> Inl e
            | Inr s' \<Rightarrow> for_each_index body phantom_nodes rest s')
      else Inl PhantomIndexOutOfRange)"

fun for_each_bucket ::
  "('t \<Rightarrow> NodeBucket \<Rightarrow> error + 't) \<Rightarrow> 't \<Rightarrow> NodeBucket list \<Rightarrow> error + 't" where
  "for_each_bucket body tables [] = Inr tables"
| "for_each_bucket body tables (current_bucket # rest) =
     (case body tables current_bucket of
        Inl e \<Rightarrow> Inl e
      | Inr tables' \<Rightarrow> for_each_bucket body tables' rest)"

section \<open>Contraction hierarchies\<close>

text \<open>
  \<open>ManyToManyHeapData { parent, duration }\<close>. The weight and duration parameters of
  \<open>relaxOutgoingEdges\<close> are called \<open>node_weight\<close> and \<open>node_duration\<close>
  here. The stall test is a parameter of the routing steps: the search of the source is the
  instance at \<open>stallAtNode\<close>, the search with the stall checks removed the instance
  at \<open>no_stall\<close>.
\<close>

record ManyToManyHeapData =
  parent :: NodeID
  duration :: EdgeWeight

type_synonym CHHeap = "ManyToManyHeapData QueryHeap"

type_synonym CHState = "ManyToManyHeapData SearchState"

type_synonym StallTest = "bool \<Rightarrow> Facade \<Rightarrow> NodeID \<Rightarrow> EdgeWeight \<Rightarrow> CHHeap \<Rightarrow> bool"

text \<open>The body of the loop over the adjacent edges in \<open>ch::relaxOutgoingEdges\<close>.\<close>

definition ch_relax_edge ::
  "bool \<Rightarrow> NodeID \<Rightarrow> EdgeWeight \<Rightarrow> EdgeWeight \<Rightarrow> CHHeap \<Rightarrow> Edge \<Rightarrow> CHHeap" where
  "ch_relax_edge DIRECTION node node_weight node_duration heap edge =
     (if (if DIRECTION = FORWARD_DIRECTION then forward edge else backward edge)
      then (let to = edge_target edge;
                to_weight = node_weight + edge_weight edge;
                to_duration = node_duration + edge_duration edge
            in case GetKey heap to of
                 None \<Rightarrow> Insert heap to to_weight \<lparr>parent = node, duration = to_duration\<rparr>
               | Some k \<Rightarrow>
                   if to_weight <s k
                   then DecreaseKey
                          (SetData heap to \<lparr>parent = node, duration = to_duration\<rparr>)
                          to to_weight
                   else heap)
      else heap)"

definition ch_relaxOutgoingEdges ::
  "bool \<Rightarrow> Facade \<Rightarrow> NodeID \<Rightarrow> EdgeWeight \<Rightarrow> EdgeWeight \<Rightarrow> CHHeap \<Rightarrow> CHHeap" where
  "ch_relaxOutgoingEdges DIRECTION facade node node_weight node_duration heap =
     foldl (ch_relax_edge DIRECTION node node_weight node_duration) heap
       (GetAdjacentEdgeRange facade node)"

text \<open>
  Modelled from the spec: \<open>ch::stallAtNode<DIRECTION>\<close> is declared outside the given
  sources. "Traverse edges oriented opposite to D at n. If any such edge (m, n) exists with
  m heap-inserted and key(m) + edge_weight \<le> w, node n is provably dominated."
\<close>

definition stallAtNode :: StallTest where
  "stallAtNode DIRECTION facade node node_weight heap =
     list_ex (\<lambda>edge.
                (if DIRECTION = FORWARD_DIRECTION then backward edge else forward edge) \<and>
                (case GetKey heap (edge_target edge) of
                   None \<Rightarrow> False
                 | Some k \<Rightarrow> k + edge_weight edge \<le>s node_weight))
       (GetAdjacentEdgeRange facade node)"


text \<open>
  One iteration of the loop over \<open>bucket_list\<close>: the cell at
  \<open>row_idx * number_of_targets + column_idx\<close> of both tables is read, updated and
  written back.
\<close>

definition ch_bucket_step ::
  "Facade \<Rightarrow> NodeID \<Rightarrow> EdgeWeight \<Rightarrow> EdgeWeight \<Rightarrow> nat \<Rightarrow> nat \<Rightarrow>
   EdgeWeight list \<times> EdgeWeight list \<Rightarrow> NodeBucket \<Rightarrow>
   error + EdgeWeight list \<times> EdgeWeight list" where
  "ch_bucket_step facade node source_weight source_duration row number_of_targets tables
     current_bucket =
     (let i = table_index row number_of_targets (target_id current_bucket)
      in if i < length (fst tables) \<and> i < length (snd tables)
         then (let cell = ch_bucket_update facade node source_weight source_duration
                            current_bucket (fst tables ! i, snd tables ! i)
               in Inr ((fst tables)[i := fst cell], (snd tables)[i := snd cell]))
         else Inl TableIndexOutOfRange)"

definition ch_forwardRoutingStep ::
  "StallTest \<Rightarrow> Facade \<Rightarrow> nat \<Rightarrow> nat \<Rightarrow> CHState \<Rightarrow> error + CHState" where
  "ch_forwardRoutingStep stall facade row number_of_targets s =
     (case DeleteMin (query_heap s) of
        None \<Rightarrow> Inr s
      | Some (popped, heap) \<Rightarrow>
          (let node = h_node popped;
               source_weight = h_key popped;
               source_duration = duration (h_data popped)
           in case (case search_space_with_buckets s node of
                      None \<Rightarrow> Inr (weights_table s, durations_table s)
                    | Some bucket_list \<Rightarrow>
                        for_each_bucket
                          (ch_bucket_step facade node source_weight source_duration row
                             number_of_targets)
                          (weights_table s, durations_table s) bucket_list) of
                Inl e \<Rightarrow> Inl e
              | Inr tables \<Rightarrow>
                  Inr (s\<lparr>query_heap :=
                           (if stall FORWARD_DIRECTION facade node source_weight heap then heap
                            else ch_relaxOutgoingEdges FORWARD_DIRECTION facade node
                                   source_weight source_duration heap),
                         weights_table := fst tables,
                         durations_table := snd tables\<rparr>)))"

definition ch_backwardRoutingStep ::
  "StallTest \<Rightarrow> Facade \<Rightarrow> nat \<Rightarrow> CHState \<Rightarrow> CHState" where
  "ch_backwardRoutingStep stall facade column s =
     (case DeleteMin (query_heap s) of
        None \<Rightarrow> s
      | Some (popped, heap) \<Rightarrow>
          (let node = h_node popped;
               target_weight0 = h_key popped;
               target_duration0 = duration (h_data popped)
           in s\<lparr>query_heap :=
                   (if stall REVERSE_DIRECTION facade node target_weight0 heap then heap
                    else ch_relaxOutgoingEdges REVERSE_DIRECTION facade node target_weight0
                           target_duration0 heap),
                 search_space_with_buckets :=
                   emplace_back (search_space_with_buckets s) node
                     \<lparr>target_id = column, target_weight = target_weight0,
                      target_duration = target_duration0\<rparr>\<rparr>))"

text \<open>Termination of the two search loops.\<close>

definition all_targets :: "'a Facade_scheme \<Rightarrow> NodeID set" where
  "all_targets facade = set (map edge_target (concat (adjacency facade)))"

lemma finite_all_targets: "finite (all_targets facade)"
  by (simp add: all_targets_def)

lemma GetAdjacentEdgeRange_targets:
  "edge \<in> set (GetAdjacentEdgeRange facade n) \<Longrightarrow> edge_target edge \<in> all_targets facade"
proof -
  assume mem: "edge \<in> set (GetAdjacentEdgeRange facade n)"
  then have n: "n < length (adjacency facade)" and e: "edge \<in> set (adjacency facade ! n)"
    by (simp_all add: GetAdjacentEdgeRange_def split: if_splits)
  from n have "adjacency facade ! n \<in> set (adjacency facade)" by (rule nth_mem)
  with e have "edge \<in> set (concat (adjacency facade))" by auto
  then show ?thesis by (simp add: all_targets_def)
qed

lemma ch_relax_edge_measure:
  "finite T \<Longrightarrow> edge_target edge \<in> T \<Longrightarrow>
   heap_measure T (ch_relax_edge DIRECTION n w d heap edge) = heap_measure T heap"
  by (simp add: ch_relax_edge_def Let_def Insert_measure SetData_measure DecreaseKey_measure
      split: option.splits)

lemma ch_relax_edges_measure:
  "finite T \<Longrightarrow> \<forall>edge \<in> set edges. edge_target edge \<in> T \<Longrightarrow>
   heap_measure T (foldl (ch_relax_edge DIRECTION n w d) heap edges) = heap_measure T heap"
  by (induction edges arbitrary: heap) (simp_all add: ch_relax_edge_measure)

lemma ch_relaxOutgoingEdges_measure:
  "heap_measure (all_targets facade) (ch_relaxOutgoingEdges DIRECTION facade n w d heap) =
   heap_measure (all_targets facade) heap"
  unfolding ch_relaxOutgoingEdges_def
  by (rule ch_relax_edges_measure) (simp_all add: GetAdjacentEdgeRange_targets finite_all_targets)

lemma ch_forwardRoutingStep_measure:
  "ch_forwardRoutingStep stall facade row number_of_targets s = Inr t \<Longrightarrow>
   \<not> Empty (query_heap s) \<Longrightarrow>
   heap_measure (all_targets facade) (query_heap t) <
   heap_measure (all_targets facade) (query_heap s)"
  using DeleteMin_None [of "query_heap s"]
  by (auto simp add: ch_forwardRoutingStep_def Let_def ch_relaxOutgoingEdges_measure
      split: option.splits sum.splits dest!: DeleteMin_measure [where T = "all_targets facade"])

lemma ch_backwardRoutingStep_measure:
  "\<not> Empty (query_heap s) \<Longrightarrow>
   heap_measure (all_targets facade)
     (query_heap (ch_backwardRoutingStep stall facade column s)) <
   heap_measure (all_targets facade) (query_heap s)"
  using DeleteMin_None [of "query_heap s"]
  by (auto simp add: ch_backwardRoutingStep_def Let_def ch_relaxOutgoingEdges_measure
      split: option.splits dest!: DeleteMin_measure [where T = "all_targets facade"])

function ch_backward_loop :: "StallTest \<Rightarrow> Facade \<Rightarrow> CHState \<Rightarrow> CHState" where
  "ch_backward_loop stall facade s =
     (if Empty (query_heap s) then s
      else ch_backward_loop stall facade
             (ch_backwardRoutingStep stall facade (column_idx s) s))"
  by pat_completeness auto

termination
  by (relation "measure (\<lambda>(stall, facade, s). heap_measure (all_targets facade) (query_heap s))")
    (simp_all add: ch_backwardRoutingStep_measure)

function ch_forward_loop :: "StallTest \<Rightarrow> Facade \<Rightarrow> nat \<Rightarrow> CHState \<Rightarrow> error + CHState" where
  "ch_forward_loop stall facade number_of_targets s =
     (if Empty (query_heap s) then Inr s
      else case ch_forwardRoutingStep stall facade (row_idx s) number_of_targets s of
             Inl e \<Rightarrow> Inl e
           | Inr t \<Rightarrow> ch_forward_loop stall facade number_of_targets t)"
  by pat_completeness auto
termination
  by (relation "measure (\<lambda>(stall, facade, number_of_targets, s).
        heap_measure (all_targets facade) (query_heap s))")
    (simp_all add: ch_forwardRoutingStep_measure)

text \<open>
  The tables filled with the sentinels, the empty bucket index, the counters at 0, and the
  heap after \<open>InitializeOrClearManyToManyThreadLocalStorage\<close>.
\<close>

definition initial_state :: "nat \<Rightarrow> 'd SearchState" where
  "initial_state number_of_entries =
     \<lparr>query_heap = [],
      search_space_with_buckets = Map.empty,
      weights_table = replicate number_of_entries INVALID_EDGE_WEIGHT,
      durations_table = replicate number_of_entries MAXIMAL_EDGE_DURATION,
      column_idx = 0,
      row_idx = 0\<rparr>"

text \<open>Modelled from the spec: the heap data of a start node, its own parent.\<close>

definition ch_init :: "NodeID \<Rightarrow> EdgeWeight \<Rightarrow> ManyToManyHeapData" where
  "ch_init n d = \<lparr>parent = n, duration = d\<rparr>"

text \<open>
  The lambdas \<open>search_target_phantom\<close> and \<open>search_source_phantom\<close>. The
  second passes \<open>number_of_targets\<close>, a \<open>std::size_t\<close>, to the
  \<open>unsigned\<close> parameter of \<open>forwardRoutingStep\<close>.
\<close>

definition ch_search_target_phantom ::
  "StallTest \<Rightarrow> Facade \<Rightarrow> PhantomNode \<Rightarrow> CHState \<Rightarrow> CHState" where
  "ch_search_target_phantom stall facade phantom_node s =
     (let s1 = ch_backward_loop stall facade
                 (s\<lparr>query_heap :=
                      insertTargetInHeap ch_init (Clear (query_heap s)) phantom_node\<rparr>)
      in s1\<lparr>column_idx := to_unsigned (column_idx s1 + 1)\<rparr>)"

definition ch_search_source_phantom ::
  "StallTest \<Rightarrow> Facade \<Rightarrow> nat \<Rightarrow> PhantomNode \<Rightarrow> CHState \<Rightarrow> error + CHState" where
  "ch_search_source_phantom stall facade number_of_targets phantom_node s =
     (case ch_forward_loop stall facade (to_unsigned number_of_targets)
             (s\<lparr>query_heap :=
                  insertSourceInHeap ch_init (Clear (query_heap s)) phantom_node\<rparr>) of
        Inl e \<Rightarrow> Inl e
      | Inr s1 \<Rightarrow> Inr (s1\<lparr>row_idx := to_unsigned (row_idx s1 + 1)\<rparr>))"

text \<open>
  \<open>ch::manyToManySearch\<close>: \<open>ch_search\<close> is the state the call ends in, both
  tables included; the function returns the durations table.
\<close>

definition ch_search ::
  "StallTest \<Rightarrow> Facade \<Rightarrow> PhantomNode list \<Rightarrow> nat list \<Rightarrow> nat list \<Rightarrow> error + CHState" where
  "ch_search stall facade phantom_nodes source_indices target_indices =
     (let number_of_sources =
            (if source_indices = [] then length phantom_nodes else length source_indices);
          number_of_targets =
            (if target_indices = [] then length phantom_nodes else length target_indices);
          number_of_entries = to_size_t (number_of_sources * number_of_targets);
          search_target_phantom =
            (\<lambda>phantom_node s. Inr (ch_search_target_phantom stall facade phantom_node s));
          search_source_phantom =
            (\<lambda>phantom_node s.
               ch_search_source_phantom stall facade number_of_targets phantom_node s)
      in case (if target_indices = []
               then for_each_phantom search_target_phantom phantom_nodes
                      (initial_state number_of_entries)
               else for_each_index search_target_phantom phantom_nodes target_indices
                      (initial_state number_of_entries)) of
           Inl e \<Rightarrow> Inl e
         | Inr s \<Rightarrow>
             (if source_indices = []
              then for_each_phantom search_source_phantom phantom_nodes s
              else for_each_index search_source_phantom phantom_nodes source_indices s))"

definition ch_manyToManySearch ::
  "Facade \<Rightarrow> PhantomNode list \<Rightarrow> nat list \<Rightarrow> nat list \<Rightarrow> error + EdgeWeight list" where
  "ch_manyToManySearch facade phantom_nodes source_indices target_indices =
     (case ch_search stallAtNode facade phantom_nodes source_indices target_indices of
        Inl e \<Rightarrow> Inl e
      | Inr s \<Rightarrow> Inr (durations_table s))"

section \<open>Multi-level Dijkstra\<close>

text \<open>
  Modelled from the spec: the multi-level partition is a "mapping (level, NodeId) \<rightarrow>
  CellId", and \<open>highest_different_level a b\<close> is "the highest level where they
  differ; 0 if they share all levels". The levels of the partition are
  \<open>1 .. number_of_levels\<close>.
\<close>

record MultiLevelPartition =
  cell_of :: "LevelID \<Rightarrow> NodeID \<Rightarrow> CellID"
  number_of_levels :: nat

definition partition_GetCell :: "MultiLevelPartition \<Rightarrow> LevelID \<Rightarrow> NodeID \<Rightarrow> CellID" where
  "partition_GetCell mlp l n = cell_of mlp l n"

fun highest_different_from :: "MultiLevelPartition \<Rightarrow> nat \<Rightarrow> NodeID \<Rightarrow> NodeID \<Rightarrow> LevelID" where
  "highest_different_from mlp 0 a b = 0"
| "highest_different_from mlp (Suc l) a b =
     (if cell_of mlp (Suc l) a \<noteq> cell_of mlp (Suc l) b then Suc l
      else highest_different_from mlp l a b)"

definition GetHighestDifferentLevel :: "MultiLevelPartition \<Rightarrow> NodeID \<Rightarrow> NodeID \<Rightarrow> LevelID" where
  "GetHighestDifferentLevel mlp a b =
     highest_different_from mlp (number_of_levels mlp) a b"

text \<open>
  Modelled from the spec: the cell storage "for a (level, cell), yields source nodes,
  destination nodes, and parallel arrays of per-source-destination shortcut weights and
  durations". A cell that is not stored has no node and no arc.
\<close>

record Cell =
  source_nodes :: "NodeID list"
  destination_nodes :: "NodeID list"
  out_weight :: "NodeID \<Rightarrow> EdgeWeight list"
  out_duration :: "NodeID \<Rightarrow> EdgeWeight list"
  in_weight :: "NodeID \<Rightarrow> EdgeWeight list"
  in_duration :: "NodeID \<Rightarrow> EdgeWeight list"

type_synonym CellStorage = "((LevelID \<times> CellID) \<times> Cell) list"

definition empty_cell :: Cell where
  "empty_cell = \<lparr>source_nodes = [], destination_nodes = [],
     out_weight = (\<lambda>n. []), out_duration = (\<lambda>n. []),
     in_weight = (\<lambda>n. []), in_duration = (\<lambda>n. [])\<rparr>"

definition cells_GetCell :: "CellStorage \<Rightarrow> LevelID \<Rightarrow> CellID \<Rightarrow> Cell" where
  "cells_GetCell cells l c = (case map_of cells (l, c) of None \<Rightarrow> empty_cell | Some cell \<Rightarrow> cell)"

text \<open>
  Modelled from the spec: the border edges of a node at a level are its "edges leaving
  the current cell at that level"; at level 0, the base graph, they are all its edges.
\<close>

record MLDFacade = Facade +
  multi_level_partition :: MultiLevelPartition
  cell_storage :: CellStorage

definition GetBorderEdgeRange :: "MLDFacade \<Rightarrow> LevelID \<Rightarrow> NodeID \<Rightarrow> Edge list" where
  "GetBorderEdgeRange facade l n =
     (if l = 0 then GetAdjacentEdgeRange facade n
      else filter (\<lambda>edge. partition_GetCell (multi_level_partition facade) l n \<noteq>
                           partition_GetCell (multi_level_partition facade) l (edge_target edge))
             (GetAdjacentEdgeRange facade n))"

text \<open>
  The heap data \<open>{ parent, from_clique_arc, level, duration }\<close> of the MLD search.
\<close>

record MLDHeapData = ManyToManyHeapData +
  from_clique_arc :: bool
  level :: LevelID

type_synonym MLDHeap = "MLDHeapData QueryHeap"

type_synonym MLDState = "MLDHeapData SearchState"

text \<open>
  The relaxation of one arc to \<open>to\<close>, which \<open>mld::relaxOutgoingEdges\<close> writes
  out three times: insert a node that was never inserted, else decrease the key and
  overwrite the data when the new weight is strictly smaller.
\<close>

definition mld_relax_to ::
  "NodeID \<Rightarrow> bool \<Rightarrow> LevelID \<Rightarrow> MLDHeap \<Rightarrow> NodeID \<Rightarrow> EdgeWeight \<Rightarrow> EdgeWeight \<Rightarrow> MLDHeap" where
  "mld_relax_to node clique node_level heap to to_weight to_duration =
     (case GetKey heap to of
        None \<Rightarrow>
          Insert heap to to_weight
            \<lparr>parent = node, duration = to_duration, from_clique_arc = clique,
             level = node_level\<rparr>
      | Some k \<Rightarrow>
          if to_weight <s k
          then DecreaseKey
                 (SetData heap to
                    \<lparr>parent = node, duration = to_duration, from_clique_arc = clique,
                     level = node_level\<rparr>)
                 to to_weight
          else heap)"

text \<open>
  The loop over the shortcut weights of the cell, with the iterator over the destination
  (or source) nodes and the range of shortcut durations advanced in parallel. The source
  asserts that the three ranges end together; the model stops at the shortest.
\<close>

fun mld_relax_shortcuts ::
  "NodeID \<Rightarrow> EdgeWeight \<Rightarrow> EdgeWeight \<Rightarrow> LevelID \<Rightarrow>
   EdgeWeight list \<Rightarrow> NodeID list \<Rightarrow> EdgeWeight list \<Rightarrow> MLDHeap \<Rightarrow> MLDHeap" where
  "mld_relax_shortcuts node node_weight node_duration node_level
     (shortcut_weight # weights) (to # nodes) (shortcut_duration # shortcut_durations) heap =
     mld_relax_shortcuts node node_weight node_duration node_level weights nodes
       shortcut_durations
       (if shortcut_weight \<noteq> INVALID_EDGE_WEIGHT \<and> node \<noteq> to
        then mld_relax_to node True node_level heap to (node_weight + shortcut_weight)
               (node_duration + shortcut_duration)
        else heap)"
| "mld_relax_shortcuts node node_weight node_duration node_level weights nodes
     shortcut_durations heap = heap"

text \<open>The body of the loop over the border edges.\<close>

definition mld_relax_border_edge ::
  "bool \<Rightarrow> MultiLevelPartition \<Rightarrow> LevelID \<times> CellID \<Rightarrow> NodeID \<Rightarrow> EdgeWeight \<Rightarrow> EdgeWeight \<Rightarrow>
   LevelID \<Rightarrow> MLDHeap \<Rightarrow> Edge \<Rightarrow> MLDHeap" where
  "mld_relax_border_edge DIRECTION mlp parentCell node node_weight node_duration
     node_level heap edge =
     (if (if DIRECTION = FORWARD_DIRECTION then forward edge else backward edge)
      then (let to = edge_target edge
            in if partition_GetCell mlp (fst parentCell) to = snd parentCell
               then mld_relax_to node False node_level heap to
                      (node_weight + edge_weight edge) (node_duration + edge_duration edge)
               else heap)
      else heap)"

text \<open>
  \<open>mld::relaxOutgoingEdges\<close>. Its local \<open>level\<close> is \<open>node_level\<close> here;
  \<open>GetData(node)\<close> of a node that was never inserted leaves the heap as it is.
\<close>

definition mld_node_level :: "MultiLevelPartition \<Rightarrow> MLDHeapData \<Rightarrow> NodeID \<Rightarrow> LevelID" where
  "mld_node_level mlp node_data node =
     max (level node_data) (GetHighestDifferentLevel mlp (parent node_data) node)"

definition mld_expand_shortcuts ::
  "bool \<Rightarrow> MLDFacade \<Rightarrow> NodeID \<Rightarrow> EdgeWeight \<Rightarrow> EdgeWeight \<Rightarrow> LevelID \<Rightarrow> MLDHeap \<Rightarrow> MLDHeap" where
  "mld_expand_shortcuts DIRECTION facade node node_weight node_duration node_level heap =
     (let cell = cells_GetCell (cell_storage facade) node_level
                   (partition_GetCell (multi_level_partition facade) node_level node)
      in if DIRECTION = FORWARD_DIRECTION
         then mld_relax_shortcuts node node_weight node_duration node_level
                (out_weight cell node) (destination_nodes cell) (out_duration cell node) heap
         else mld_relax_shortcuts node node_weight node_duration node_level
                (in_weight cell node) (source_nodes cell) (in_duration cell node) heap)"

definition mld_relaxOutgoingEdges ::
  "bool \<Rightarrow> MLDFacade \<Rightarrow> NodeID \<Rightarrow> EdgeWeight \<Rightarrow> EdgeWeight \<Rightarrow> MLDHeap \<Rightarrow>
   LevelID \<times> CellID \<Rightarrow> MLDHeap" where
  "mld_relaxOutgoingEdges DIRECTION facade node node_weight node_duration heap parentCell =
     (case GetEntry heap node of
        None \<Rightarrow> heap
      | Some entry \<Rightarrow>
          (let node_data = h_data entry;
               node_level = mld_node_level (multi_level_partition facade) node_data node;
               heap1 =
                 (if 1 \<le> node_level \<and> \<not> from_clique_arc node_data
                  then mld_expand_shortcuts DIRECTION facade node node_weight node_duration
                         node_level heap
                  else heap)
           in foldl (mld_relax_border_edge DIRECTION (multi_level_partition facade) parentCell
                       node node_weight node_duration node_level)
                heap1 (GetBorderEdgeRange facade node_level node)))"

text \<open>The bucket loop and the routing steps of \<open>mld\<close>.\<close>

definition mld_bucket_step ::
  "EdgeWeight \<Rightarrow> EdgeWeight \<Rightarrow> nat \<Rightarrow> nat \<Rightarrow>
   EdgeWeight list \<times> EdgeWeight list \<Rightarrow> NodeBucket \<Rightarrow>
   error + EdgeWeight list \<times> EdgeWeight list" where
  "mld_bucket_step source_weight source_duration row number_of_targets tables current_bucket =
     (let i = table_index row number_of_targets (target_id current_bucket)
      in if i < length (fst tables) \<and> i < length (snd tables)
         then (let cell = mld_bucket_update source_weight source_duration current_bucket
                            (fst tables ! i, snd tables ! i)
               in Inr ((fst tables)[i := fst cell], (snd tables)[i := snd cell]))
         else Inl TableIndexOutOfRange)"

definition mld_forwardRoutingStep ::
  "MLDFacade \<Rightarrow> nat \<Rightarrow> nat \<Rightarrow> LevelID \<times> CellID \<Rightarrow> MLDState \<Rightarrow> error + MLDState" where
  "mld_forwardRoutingStep facade row number_of_targets parentCell s =
     (case DeleteMin (query_heap s) of
        None \<Rightarrow> Inr s
      | Some (popped, heap) \<Rightarrow>
          (let node = h_node popped;
               source_weight = h_key popped;
               source_duration = duration (h_data popped)
           in case (case search_space_with_buckets s node of
                      None \<Rightarrow> Inr (weights_table s, durations_table s)
                    | Some bucket_list \<Rightarrow>
                        for_each_bucket
                          (mld_bucket_step source_weight source_duration row number_of_targets)
                          (weights_table s, durations_table s) bucket_list) of
                Inl e \<Rightarrow> Inl e
              | Inr tables \<Rightarrow>
                  Inr (s\<lparr>query_heap :=
                           mld_relaxOutgoingEdges FORWARD_DIRECTION facade node source_weight
                             source_duration heap parentCell,
                         weights_table := fst tables,
                         durations_table := snd tables\<rparr>)))"

definition mld_backwardRoutingStep ::
  "MLDFacade \<Rightarrow> nat \<Rightarrow> LevelID \<times> CellID \<Rightarrow> MLDState \<Rightarrow> MLDState" where
  "mld_backwardRoutingStep facade column parentCell s =
     (case DeleteMin (query_heap s) of
        None \<Rightarrow> s
      | Some (popped, heap) \<Rightarrow>
          (let node = h_node popped;
               target_weight0 = h_key popped;
               target_duration0 = duration (h_data popped)
           in s\<lparr>query_heap :=
                   mld_relaxOutgoingEdges REVERSE_DIRECTION facade node target_weight0
                     target_duration0 heap parentCell,
                 search_space_with_buckets :=
                   emplace_back (search_space_with_buckets s) node
                     \<lparr>target_id = column, target_weight = target_weight0,
                      target_duration = target_duration0\<rparr>\<rparr>))"

text \<open>Termination of the two search loops.\<close>

definition cell_nodes :: "CellStorage \<Rightarrow> NodeID set" where
  "cell_nodes cells =
     set (concat (map (\<lambda>entry. source_nodes (snd entry) @ destination_nodes (snd entry)) cells))"

definition mld_targets :: "MLDFacade \<Rightarrow> NodeID set" where
  "mld_targets facade = all_targets facade \<union> cell_nodes (cell_storage facade)"

lemma finite_mld_targets: "finite (mld_targets facade)"
  by (simp add: mld_targets_def cell_nodes_def finite_all_targets)

lemma cells_GetCell_nodes:
  "set (source_nodes (cells_GetCell cells l c)) \<union>
   set (destination_nodes (cells_GetCell cells l c)) \<subseteq> cell_nodes cells"
proof (cases "map_of cells (l, c)")
  case None
  then show ?thesis by (simp add: cells_GetCell_def empty_cell_def)
next
  case (Some cell)
  then have "((l, c), cell) \<in> set cells" by (rule map_of_SomeD)
  then have "set (source_nodes cell) \<union> set (destination_nodes cell) \<subseteq> cell_nodes cells"
    by (force simp add: cell_nodes_def)
  with Some show ?thesis by (simp add: cells_GetCell_def)
qed

lemma mld_relax_to_measure:
  "finite T \<Longrightarrow> to \<in> T \<Longrightarrow>
   heap_measure T (mld_relax_to node clique node_level heap to w d) = heap_measure T heap"
  by (simp add: mld_relax_to_def Insert_measure SetData_measure DecreaseKey_measure
      split: option.splits)

lemma mld_relax_shortcuts_measure:
  "finite T \<Longrightarrow> set nodes \<subseteq> T \<Longrightarrow>
   heap_measure T (mld_relax_shortcuts node w d node_level weights nodes durations heap) =
   heap_measure T heap"
  by (induction node w d node_level weights nodes durations heap
      rule: mld_relax_shortcuts.induct) (simp_all add: mld_relax_to_measure)

lemma mld_expand_shortcuts_measure:
  "heap_measure (mld_targets facade)
     (mld_expand_shortcuts DIRECTION facade node w d node_level heap) =
   heap_measure (mld_targets facade) heap"
  using cells_GetCell_nodes [of "cell_storage facade" node_level
      "partition_GetCell (multi_level_partition facade) node_level node"]
  by (auto simp add: mld_expand_shortcuts_def Let_def mld_targets_def
      intro!: mld_relax_shortcuts_measure finite_mld_targets [unfolded mld_targets_def])

lemma mld_relax_border_edge_measure:
  "finite T \<Longrightarrow> edge_target edge \<in> T \<Longrightarrow>
   heap_measure T
     (mld_relax_border_edge DIRECTION mlp parentCell node w d node_level heap edge) =
   heap_measure T heap"
  by (simp add: mld_relax_border_edge_def Let_def mld_relax_to_measure)

lemma mld_relax_border_edges_measure:
  "finite T \<Longrightarrow> \<forall>edge \<in> set edges. edge_target edge \<in> T \<Longrightarrow>
   heap_measure T
     (foldl (mld_relax_border_edge DIRECTION mlp parentCell node w d node_level)
        heap edges) =
   heap_measure T heap"
  by (induction edges arbitrary: heap) (simp_all add: mld_relax_border_edge_measure)

lemma GetBorderEdgeRange_targets:
  "edge \<in> set (GetBorderEdgeRange facade l n) \<Longrightarrow> edge_target edge \<in> mld_targets facade"
  by (auto simp add: GetBorderEdgeRange_def mld_targets_def
      dest: GetAdjacentEdgeRange_targets split: if_splits)

lemma mld_relaxOutgoingEdges_measure:
  "heap_measure (mld_targets facade)
     (mld_relaxOutgoingEdges DIRECTION facade node w d heap parentCell) =
   heap_measure (mld_targets facade) heap"
  by (simp add: mld_relaxOutgoingEdges_def Let_def mld_relax_border_edges_measure
      finite_mld_targets GetBorderEdgeRange_targets mld_expand_shortcuts_measure
      split: option.splits)

lemma mld_forwardRoutingStep_measure:
  "mld_forwardRoutingStep facade row number_of_targets parentCell s = Inr t \<Longrightarrow>
   \<not> Empty (query_heap s) \<Longrightarrow>
   heap_measure (mld_targets facade) (query_heap t) <
   heap_measure (mld_targets facade) (query_heap s)"
  using DeleteMin_None [of "query_heap s"]
  by (auto simp add: mld_forwardRoutingStep_def Let_def mld_relaxOutgoingEdges_measure
      split: option.splits sum.splits dest!: DeleteMin_measure [where T = "mld_targets facade"])

lemma mld_backwardRoutingStep_measure:
  "\<not> Empty (query_heap s) \<Longrightarrow>
   heap_measure (mld_targets facade)
     (query_heap (mld_backwardRoutingStep facade column parentCell s)) <
   heap_measure (mld_targets facade) (query_heap s)"
  using DeleteMin_None [of "query_heap s"]
  by (auto simp add: mld_backwardRoutingStep_def Let_def mld_relaxOutgoingEdges_measure
      split: option.splits dest!: DeleteMin_measure [where T = "mld_targets facade"])

function mld_backward_loop :: "MLDFacade \<Rightarrow> LevelID \<times> CellID \<Rightarrow> MLDState \<Rightarrow> MLDState" where
  "mld_backward_loop facade parentCell s =
     (if Empty (query_heap s) then s
      else mld_backward_loop facade parentCell
             (mld_backwardRoutingStep facade (column_idx s) parentCell s))"
  by pat_completeness auto

termination
  by (relation "measure (\<lambda>(facade, parentCell, s).
        heap_measure (mld_targets facade) (query_heap s))")
    (simp_all add: mld_backwardRoutingStep_measure)

function mld_forward_loop ::
  "MLDFacade \<Rightarrow> nat \<Rightarrow> LevelID \<times> CellID \<Rightarrow> MLDState \<Rightarrow> error + MLDState" where
  "mld_forward_loop facade number_of_targets parentCell s =
     (if Empty (query_heap s) then Inr s
      else case mld_forwardRoutingStep facade (row_idx s) number_of_targets parentCell s of
             Inl e \<Rightarrow> Inl e
           | Inr t \<Rightarrow> mld_forward_loop facade number_of_targets parentCell t)"
  by pat_completeness auto
termination
  by (relation "measure (\<lambda>(facade, number_of_targets, parentCell, s).
        heap_measure (mld_targets facade) (query_heap s))")
    (simp_all add: mld_forwardRoutingStep_measure)

text \<open>
  \<open>mld::getParentCellID\<close>, with its lambdas \<open>level\<close> (here
  \<open>segment_level\<close>) and \<open>highest_level\<close>.
\<close>

definition segment_level :: "MultiLevelPartition \<Rightarrow> SegmentID \<Rightarrow> SegmentID \<Rightarrow> LevelID" where
  "segment_level mlp source target =
     (if enabled source \<and> enabled target
      then GetHighestDifferentLevel mlp (seg_id source) (seg_id target)
      else 0)"

definition highest_level :: "MultiLevelPartition \<Rightarrow> PhantomNode \<Rightarrow> PhantomNode \<Rightarrow> LevelID" where
  "highest_level mlp source target =
     max (max (segment_level mlp (forward_segment_id source) (forward_segment_id target))
              (segment_level mlp (forward_segment_id source) (reverse_segment_id target)))
         (max (segment_level mlp (reverse_segment_id source) (forward_segment_id target))
              (segment_level mlp (reverse_segment_id source) (reverse_segment_id target)))"

fun highest_level_of_indices ::
  "MultiLevelPartition \<Rightarrow> PhantomNode \<Rightarrow> PhantomNode list \<Rightarrow> nat list \<Rightarrow> LevelID \<Rightarrow>
   error + LevelID" where
  "highest_level_of_indices mlp source phantom_nodes [] highest_different_level =
     Inr highest_different_level"
| "highest_level_of_indices mlp source phantom_nodes (index # rest) highest_different_level =
     (if index < length phantom_nodes
      then highest_level_of_indices mlp source phantom_nodes rest
             (max highest_different_level (highest_level mlp source (phantom_nodes ! index)))
      else Inl PhantomIndexOutOfRange)"

definition getParentCellID ::
  "MultiLevelPartition \<Rightarrow> PhantomNode \<Rightarrow> PhantomNode list \<Rightarrow> nat list \<Rightarrow>
   error + LevelID \<times> CellID" where
  "getParentCellID mlp source phantom_nodes phantom_indices =
     (case (if phantom_indices = []
            then Inr (foldl (\<lambda>highest_different_level phantom_node.
                               max highest_different_level
                                 (highest_level mlp source phantom_node))
                        0 phantom_nodes)
            else highest_level_of_indices mlp source phantom_nodes phantom_indices 0) of
        Inl e \<Rightarrow> Inl e
      | Inr highest_different_level \<Rightarrow>
          Inr (highest_different_level + 1,
               partition_GetCell mlp (highest_different_level + 1)
                 (seg_id (forward_segment_id source))))"

text \<open>Modelled from the spec: the heap data of a start node, at level 0 and reached by no clique arc.\<close>

definition mld_init :: "NodeID \<Rightarrow> EdgeWeight \<Rightarrow> MLDHeapData" where
  "mld_init n d = \<lparr>parent = n, duration = d, from_clique_arc = False, level = 0\<rparr>"

definition mld_search_target_phantom ::
  "MLDFacade \<Rightarrow> PhantomNode \<Rightarrow> LevelID \<times> CellID \<Rightarrow> MLDState \<Rightarrow> MLDState" where
  "mld_search_target_phantom facade phantom_node parentCell s =
     (let s1 = mld_backward_loop facade parentCell
                 (s\<lparr>query_heap :=
                      insertTargetInHeap mld_init (Clear (query_heap s)) phantom_node\<rparr>)
      in s1\<lparr>column_idx := to_unsigned (column_idx s1 + 1)\<rparr>)"

definition mld_search_source_phantom ::
  "MLDFacade \<Rightarrow> nat \<Rightarrow> PhantomNode \<Rightarrow> LevelID \<times> CellID \<Rightarrow> MLDState \<Rightarrow> error + MLDState" where
  "mld_search_source_phantom facade number_of_targets phantom_node parentCell s =
     (case mld_forward_loop facade (to_unsigned number_of_targets) parentCell
             (s\<lparr>query_heap :=
                  insertSourceInHeap mld_init (Clear (query_heap s)) phantom_node\<rparr>) of
        Inl e \<Rightarrow> Inl e
      | Inr s1 \<Rightarrow> Inr (s1\<lparr>row_idx := to_unsigned (row_idx s1 + 1)\<rparr>))"

text \<open>
  \<open>mld::manyToManySearch\<close>: \<open>mld_search\<close> is the state the call ends in.
\<close>

definition mld_search ::
  "MLDFacade \<Rightarrow> PhantomNode list \<Rightarrow> nat list \<Rightarrow> nat list \<Rightarrow> error + MLDState" where
  "mld_search facade phantom_nodes source_indices target_indices =
     (let number_of_sources =
            (if source_indices = [] then length phantom_nodes else length source_indices);
          number_of_targets =
            (if target_indices = [] then length phantom_nodes else length target_indices);
          number_of_entries = to_size_t (number_of_sources * number_of_targets);
          search_target_phantom =
            (\<lambda>phantom_node s.
               case getParentCellID (multi_level_partition facade) phantom_node phantom_nodes
                      source_indices of
                 Inl e \<Rightarrow> Inl e
               | Inr parentCell \<Rightarrow>
                   Inr (mld_search_target_phantom facade phantom_node parentCell s));
          search_source_phantom =
            (\<lambda>phantom_node s.
               case getParentCellID (multi_level_partition facade) phantom_node phantom_nodes
                      target_indices of
                 Inl e \<Rightarrow> Inl e
               | Inr parentCell \<Rightarrow>
                   mld_search_source_phantom facade number_of_targets phantom_node
                     parentCell s)
      in case (if target_indices = []
               then for_each_phantom search_target_phantom phantom_nodes
                      (initial_state number_of_entries)
               else for_each_index search_target_phantom phantom_nodes target_indices
                      (initial_state number_of_entries)) of
           Inl e \<Rightarrow> Inl e
         | Inr s \<Rightarrow>
             (if source_indices = []
              then for_each_phantom search_source_phantom phantom_nodes s
              else for_each_index search_source_phantom phantom_nodes source_indices s))"

definition mld_manyToManySearch ::
  "MLDFacade \<Rightarrow> PhantomNode list \<Rightarrow> nat list \<Rightarrow> nat list \<Rightarrow> error + EdgeWeight list" where
  "mld_manyToManySearch facade phantom_nodes source_indices target_indices =
     (case mld_search facade phantom_nodes source_indices target_indices of
        Inl e \<Rightarrow> Inl e
      | Inr s \<Rightarrow> Inr (durations_table s))"

section \<open>The searches in exact arithmetic\<close>

text \<open>
  The forward search once more, as it runs when no counter wraps and no table access leaves
  the table: the index of a cell is \<open>row * number_of_targets + column\<close> in the natural
  numbers, the counters are incremented without wrap-around, and the tables are read and
  written as lists. These definitions, with the suffix \<open>_ideal\<close>, are not part of
  the program; the searches of the source are proved to compute them when the numbers of
  sources, of targets and of table cells fit \<open>unsigned\<close>, and the lemmas about the
  tables are proved for them.
\<close>

definition flat_index :: "nat \<Rightarrow> nat \<Rightarrow> nat \<Rightarrow> nat" where
  "flat_index row number_of_targets column = row * number_of_targets + column"

definition ch_bucket_step_ideal ::
  "Facade \<Rightarrow> NodeID \<Rightarrow> EdgeWeight \<Rightarrow> EdgeWeight \<Rightarrow> nat \<Rightarrow> nat \<Rightarrow>
   EdgeWeight list \<times> EdgeWeight list \<Rightarrow> NodeBucket \<Rightarrow> EdgeWeight list \<times> EdgeWeight list" where
  "ch_bucket_step_ideal facade node source_weight source_duration row number_of_targets tables
     current_bucket =
     (let i = flat_index row number_of_targets (target_id current_bucket);
          cell = ch_bucket_update facade node source_weight source_duration current_bucket
                   (fst tables ! i, snd tables ! i)
      in ((fst tables)[i := fst cell], (snd tables)[i := snd cell]))"

definition ch_forwardRoutingStep_ideal ::
  "StallTest \<Rightarrow> Facade \<Rightarrow> nat \<Rightarrow> nat \<Rightarrow> CHState \<Rightarrow> CHState" where
  "ch_forwardRoutingStep_ideal stall facade row number_of_targets s =
     (case DeleteMin (query_heap s) of
        None \<Rightarrow> s
      | Some (popped, heap) \<Rightarrow>
          (let node = h_node popped;
               source_weight = h_key popped;
               source_duration = duration (h_data popped);
               tables =
                 (case search_space_with_buckets s node of
                    None \<Rightarrow> (weights_table s, durations_table s)
                  | Some bucket_list \<Rightarrow>
                      foldl (ch_bucket_step_ideal facade node source_weight source_duration row
                               number_of_targets)
                        (weights_table s, durations_table s) bucket_list)
           in s\<lparr>query_heap :=
                   (if stall FORWARD_DIRECTION facade node source_weight heap then heap
                    else ch_relaxOutgoingEdges FORWARD_DIRECTION facade node source_weight
                           source_duration heap),
                 weights_table := fst tables,
                 durations_table := snd tables\<rparr>))"

lemma ch_forwardRoutingStep_ideal_measure:
  "\<not> Empty (query_heap s) \<Longrightarrow>
   heap_measure (all_targets facade)
     (query_heap (ch_forwardRoutingStep_ideal stall facade row number_of_targets s)) <
   heap_measure (all_targets facade) (query_heap s)"
  using DeleteMin_None [of "query_heap s"]
  by (auto simp add: ch_forwardRoutingStep_ideal_def Let_def ch_relaxOutgoingEdges_measure
      split: option.splits dest!: DeleteMin_measure [where T = "all_targets facade"])

function ch_forward_loop_ideal :: "StallTest \<Rightarrow> Facade \<Rightarrow> nat \<Rightarrow> CHState \<Rightarrow> CHState" where
  "ch_forward_loop_ideal stall facade number_of_targets s =
     (if Empty (query_heap s) then s
      else ch_forward_loop_ideal stall facade number_of_targets
             (ch_forwardRoutingStep_ideal stall facade (row_idx s) number_of_targets s))"
  by pat_completeness auto

termination
  by (relation "measure (\<lambda>(stall, facade, number_of_targets, s).
        heap_measure (all_targets facade) (query_heap s))")
    (simp_all add: ch_forwardRoutingStep_ideal_measure)

definition ch_search_target_phantom_ideal ::
  "StallTest \<Rightarrow> Facade \<Rightarrow> PhantomNode \<Rightarrow> CHState \<Rightarrow> CHState" where
  "ch_search_target_phantom_ideal stall facade phantom_node s =
     (let s1 = ch_backward_loop stall facade
                 (s\<lparr>query_heap :=
                      insertTargetInHeap ch_init (Clear (query_heap s)) phantom_node\<rparr>)
      in s1\<lparr>column_idx := column_idx s1 + 1\<rparr>)"

definition ch_search_source_phantom_ideal ::
  "StallTest \<Rightarrow> Facade \<Rightarrow> nat \<Rightarrow> PhantomNode \<Rightarrow> CHState \<Rightarrow> CHState" where
  "ch_search_source_phantom_ideal stall facade number_of_targets phantom_node s =
     (let s1 = ch_forward_loop_ideal stall facade number_of_targets
                 (s\<lparr>query_heap :=
                      insertSourceInHeap ch_init (Clear (query_heap s)) phantom_node\<rparr>)
      in s1\<lparr>row_idx := row_idx s1 + 1\<rparr>)"

definition mld_bucket_step_ideal ::
  "EdgeWeight \<Rightarrow> EdgeWeight \<Rightarrow> nat \<Rightarrow> nat \<Rightarrow>
   EdgeWeight list \<times> EdgeWeight list \<Rightarrow> NodeBucket \<Rightarrow> EdgeWeight list \<times> EdgeWeight list" where
  "mld_bucket_step_ideal source_weight source_duration row number_of_targets tables current_bucket =
     (let i = flat_index row number_of_targets (target_id current_bucket);
          cell = mld_bucket_update source_weight source_duration current_bucket
                   (fst tables ! i, snd tables ! i)
      in ((fst tables)[i := fst cell], (snd tables)[i := snd cell]))"

definition mld_forwardRoutingStep_ideal ::
  "MLDFacade \<Rightarrow> nat \<Rightarrow> nat \<Rightarrow> LevelID \<times> CellID \<Rightarrow> MLDState \<Rightarrow> MLDState" where
  "mld_forwardRoutingStep_ideal facade row number_of_targets parentCell s =
     (case DeleteMin (query_heap s) of
        None \<Rightarrow> s
      | Some (popped, heap) \<Rightarrow>
          (let node = h_node popped;
               source_weight = h_key popped;
               source_duration = duration (h_data popped);
               tables =
                 (case search_space_with_buckets s node of
                    None \<Rightarrow> (weights_table s, durations_table s)
                  | Some bucket_list \<Rightarrow>
                      foldl (mld_bucket_step_ideal source_weight source_duration row number_of_targets)
                        (weights_table s, durations_table s) bucket_list)
           in s\<lparr>query_heap :=
                   mld_relaxOutgoingEdges FORWARD_DIRECTION facade node source_weight
                     source_duration heap parentCell,
                 weights_table := fst tables,
                 durations_table := snd tables\<rparr>))"

lemma mld_forwardRoutingStep_ideal_measure:
  "\<not> Empty (query_heap s) \<Longrightarrow>
   heap_measure (mld_targets facade)
     (query_heap (mld_forwardRoutingStep_ideal facade row number_of_targets parentCell s)) <
   heap_measure (mld_targets facade) (query_heap s)"
  using DeleteMin_None [of "query_heap s"]
  by (auto simp add: mld_forwardRoutingStep_ideal_def Let_def mld_relaxOutgoingEdges_measure
      split: option.splits dest!: DeleteMin_measure [where T = "mld_targets facade"])

function mld_forward_loop_ideal ::
  "MLDFacade \<Rightarrow> nat \<Rightarrow> LevelID \<times> CellID \<Rightarrow> MLDState \<Rightarrow> MLDState" where
  "mld_forward_loop_ideal facade number_of_targets parentCell s =
     (if Empty (query_heap s) then s
      else mld_forward_loop_ideal facade number_of_targets parentCell
             (mld_forwardRoutingStep_ideal facade (row_idx s) number_of_targets parentCell s))"
  by pat_completeness auto

termination
  by (relation "measure (\<lambda>(facade, number_of_targets, parentCell, s).
        heap_measure (mld_targets facade) (query_heap s))")
    (simp_all add: mld_forwardRoutingStep_ideal_measure)

definition mld_search_target_phantom_ideal ::
  "MLDFacade \<Rightarrow> PhantomNode \<Rightarrow> LevelID \<times> CellID \<Rightarrow> MLDState \<Rightarrow> MLDState" where
  "mld_search_target_phantom_ideal facade phantom_node parentCell s =
     (let s1 = mld_backward_loop facade parentCell
                 (s\<lparr>query_heap :=
                      insertTargetInHeap mld_init (Clear (query_heap s)) phantom_node\<rparr>)
      in s1\<lparr>column_idx := column_idx s1 + 1\<rparr>)"

definition mld_search_source_phantom_ideal ::
  "MLDFacade \<Rightarrow> nat \<Rightarrow> PhantomNode \<Rightarrow> LevelID \<times> CellID \<Rightarrow> MLDState \<Rightarrow> MLDState" where
  "mld_search_source_phantom_ideal facade number_of_targets phantom_node parentCell s =
     (let s1 = mld_forward_loop_ideal facade number_of_targets parentCell
                 (s\<lparr>query_heap :=
                      insertSourceInHeap mld_init (Clear (query_heap s)) phantom_node\<rparr>)
      in s1\<lparr>row_idx := row_idx s1 + 1\<rparr>)"

section \<open>Example inputs\<close>

text \<open>
  A phantom with the given forward and reverse segments and no offset, and an edge with
  equal weight and duration that is stored at its tail as a forward edge and at its head as
  a backward edge.
\<close>

definition phantom_at :: "NodeID \<Rightarrow> bool \<Rightarrow> NodeID \<Rightarrow> bool \<Rightarrow> PhantomNode" where
  "phantom_at f fe r re =
     \<lparr>forward_segment_id = \<lparr>seg_id = f, enabled = fe\<rparr>,
      reverse_segment_id = \<lparr>seg_id = r, enabled = re\<rparr>,
      forward_weight = 0, forward_duration = 0, reverse_weight = 0, reverse_duration = 0\<rparr>"

definition edge_to :: "NodeID \<Rightarrow> EdgeWeight \<Rightarrow> bool \<Rightarrow> Edge" where
  "edge_to t w f =
     \<lparr>edge_target = t, edge_weight = w, edge_duration = w, forward = f, backward = \<not> f\<rparr>"

text \<open>
  A line \<open>0 \<rightarrow> 1 \<rightarrow> 2 \<rightarrow> 3\<close> with weights 1, 2, 3 and an isolated node 4. At level 1
  the cells are \<open>{0, 1}\<close>, \<open>{2, 3}\<close> and \<open>{4}\<close>; at level 2 they are
  \<open>{0, 1, 2, 3}\<close> and \<open>{4}\<close>; level 3 is one cell.
\<close>

definition line_partition :: MultiLevelPartition where
  "line_partition =
     \<lparr>cell_of = (\<lambda>l n. if l = 1 then (if n < 2 then 0 else if n < 4 then 1 else 2)
                        else if l = 2 then (if n < 4 then 0 else 1)
                        else 0),
      number_of_levels = 3\<rparr>"

definition line_facade :: MLDFacade where
  "line_facade =
     \<lparr>adjacency = [[edge_to 1 1 True],
                   [edge_to 0 1 False, edge_to 2 2 True],
                   [edge_to 1 2 False, edge_to 3 3 True],
                   [edge_to 2 3 False],
                   []],
      multi_level_partition = line_partition,
      cell_storage = []\<rparr>"

text \<open>
  The line with one stored cell, cell 0 of level 1. From node 1 it has a clique arc to
  node 1 itself, an arc of weight \<open>INVALID_WEIGHT\<close> to node 0 and an arc of weight 9
  to node 4; into node 1 it has an arc of weight 6 from node 0, an arc from node 1 itself and
  an arc of weight \<open>INVALID_WEIGHT\<close> from node 4. The entry is that of node 1 after it
  was popped, reached from node 2.
\<close>

definition clique_facade :: MLDFacade where
  "clique_facade =
     line_facade\<lparr>cell_storage :=
       [((1, 0), \<lparr>source_nodes = [0, 1, 4], destination_nodes = [1, 0, 4],
                  out_weight = (\<lambda>n. [3, INVALID_EDGE_WEIGHT, 9]),
                  out_duration = (\<lambda>n. [3, 0, 8]),
                  in_weight = (\<lambda>n. [6, 2, INVALID_EDGE_WEIGHT]),
                  in_duration = (\<lambda>n. [4, 2, 0])\<rparr>)]\<rparr>"

definition popped_entry :: "MLDHeapData HeapNode" where
  "popped_entry = \<lparr>h_node = 1, h_key = 5,
     h_data = \<lparr>parent = 2, duration = 5, from_clique_arc = False, level = 0\<rparr>,
     in_heap = False\<rparr>"

text \<open>
  An edge with its own duration, and a contraction hierarchy with two paths of equal
  weight. The graph has the edges \<open>0 \<rightarrow> 2\<close> (weight 1), \<open>2 \<rightarrow> 1\<close> (weight 1),
  \<open>0 \<rightarrow> 1\<close> (weight 2, duration 9), \<open>1 \<rightarrow> 4\<close> (weight 3),
  \<open>2 \<rightarrow> 3\<close> (weight 2) and \<open>3 \<rightarrow> 4\<close> (weight 2), every duration but one
  equal to the weight. The nodes are contracted in the order 0, 1, 2, 3, 4. Node 0 has no
  incoming edge, so its contraction adds no shortcut; node 1 lies on the path
  \<open>2 \<rightarrow> 1 \<rightarrow> 4\<close> of weight 4, for which the path \<open>2 \<rightarrow> 3 \<rightarrow> 4\<close> of weight
  4 is a witness, so no shortcut is added; nodes 2 and 3 have no incoming edge left. The
  hierarchy is the graph itself, every edge stored at its lower endpoint: as a forward edge
  when it leads upwards, and \<open>2 \<rightarrow> 1\<close> as a backward edge at node 1. From node 0 to
  node 4 there are three paths, all of weight 5, with the durations 5, 5 and 12.
\<close>

definition timed_edge_to :: "NodeID \<Rightarrow> EdgeWeight \<Rightarrow> EdgeWeight \<Rightarrow> bool \<Rightarrow> Edge" where
  "timed_edge_to t w d f =
     \<lparr>edge_target = t, edge_weight = w, edge_duration = d, forward = f, backward = \<not> f\<rparr>"

definition tie_facade :: Facade where
  "tie_facade =
     \<lparr>adjacency = [[timed_edge_to 2 1 1 True, timed_edge_to 1 2 9 True],
                   [timed_edge_to 2 1 1 False, timed_edge_to 4 3 3 True],
                   [timed_edge_to 3 2 2 True],
                   [timed_edge_to 4 2 2 True],
                   []]\<rparr>"



section \<open>The two phases of a call\<close>

text \<open>
  Notions the claims about a whole call are stated with. The index lists are valid when
  every index selects a phantom; the selected phantoms are all phantoms when the list is
  empty. The backward phase runs \<open>search_target_phantom\<close> over the targets in order,
  the forward phase \<open>search_source_phantom\<close> over the sources; \<open>parent_cell\<close> is
  the pair \<open>getParentCellID\<close> computes from the opposite side's selected phantoms. A
  bucket index is below \<open>c\<close> when every entry's \<open>target_id\<close> is less than
  \<open>c\<close>.
\<close>

definition indices_valid :: "'a list \<Rightarrow> nat list \<Rightarrow> bool" where
  "indices_valid phantom_nodes indices = (\<forall>index \<in> set indices. index < length phantom_nodes)"

definition selected :: "'a list \<Rightarrow> nat list \<Rightarrow> 'a list" where
  "selected phantom_nodes indices =
     (if indices = [] then phantom_nodes else map (\<lambda>index. phantom_nodes ! index) indices)"

definition parent_cell ::
  "MultiLevelPartition \<Rightarrow> PhantomNode \<Rightarrow> PhantomNode list \<Rightarrow> LevelID \<times> CellID" where
  "parent_cell mlp source others =
     (let highest_different_level =
            foldl (\<lambda>h phantom_node. max h (highest_level mlp source phantom_node)) 0 others
      in (highest_different_level + 1,
          partition_GetCell mlp (highest_different_level + 1)
            (seg_id (forward_segment_id source))))"

definition ch_backward_phase ::
  "StallTest \<Rightarrow> Facade \<Rightarrow> PhantomNode list \<Rightarrow> CHState \<Rightarrow> CHState" where
  "ch_backward_phase stall facade targets s =
     foldl (\<lambda>t phantom_node. ch_search_target_phantom stall facade phantom_node t) s targets"

definition ch_forward_phase ::
  "StallTest \<Rightarrow> Facade \<Rightarrow> nat \<Rightarrow> PhantomNode list \<Rightarrow> CHState \<Rightarrow> error + CHState" where
  "ch_forward_phase stall facade number_of_targets sources s =
     for_each_phantom
       (\<lambda>phantom_node t.
          ch_search_source_phantom stall facade number_of_targets phantom_node t)
       sources s"

definition mld_backward_phase ::
  "MLDFacade \<Rightarrow> PhantomNode list \<Rightarrow> PhantomNode list \<Rightarrow> MLDState \<Rightarrow> MLDState" where
  "mld_backward_phase facade sources targets s =
     foldl (\<lambda>t phantom_node.
              mld_search_target_phantom facade phantom_node
                (parent_cell (multi_level_partition facade) phantom_node sources) t)
       s targets"

definition mld_forward_phase ::
  "MLDFacade \<Rightarrow> nat \<Rightarrow> PhantomNode list \<Rightarrow> PhantomNode list \<Rightarrow> MLDState \<Rightarrow>
   error + MLDState" where
  "mld_forward_phase facade number_of_targets targets sources s =
     for_each_phantom
       (\<lambda>phantom_node t.
          mld_search_source_phantom facade number_of_targets phantom_node
            (parent_cell (multi_level_partition facade) phantom_node targets) t)
       sources s"

text \<open>The two phases in exact arithmetic.\<close>

definition ch_backward_phase_ideal ::
  "StallTest \<Rightarrow> Facade \<Rightarrow> PhantomNode list \<Rightarrow> CHState \<Rightarrow> CHState" where
  "ch_backward_phase_ideal stall facade targets s =
     foldl (\<lambda>t phantom_node. ch_search_target_phantom_ideal stall facade phantom_node t) s targets"

definition ch_forward_phase_ideal ::
  "StallTest \<Rightarrow> Facade \<Rightarrow> nat \<Rightarrow> PhantomNode list \<Rightarrow> CHState \<Rightarrow> CHState" where
  "ch_forward_phase_ideal stall facade number_of_targets sources s =
     foldl (\<lambda>t phantom_node.
              ch_search_source_phantom_ideal stall facade number_of_targets phantom_node t) s sources"

definition mld_backward_phase_ideal ::
  "MLDFacade \<Rightarrow> PhantomNode list \<Rightarrow> PhantomNode list \<Rightarrow> MLDState \<Rightarrow> MLDState" where
  "mld_backward_phase_ideal facade sources targets s =
     foldl (\<lambda>t phantom_node.
              mld_search_target_phantom_ideal facade phantom_node
                (parent_cell (multi_level_partition facade) phantom_node sources) t)
       s targets"

definition mld_forward_phase_ideal ::
  "MLDFacade \<Rightarrow> nat \<Rightarrow> PhantomNode list \<Rightarrow> PhantomNode list \<Rightarrow> MLDState \<Rightarrow> MLDState" where
  "mld_forward_phase_ideal facade number_of_targets targets sources s =
     foldl (\<lambda>t phantom_node.
              mld_search_source_phantom_ideal facade number_of_targets phantom_node
                (parent_cell (multi_level_partition facade) phantom_node targets) t)
       s sources"

definition buckets_below :: "nat \<Rightarrow> SearchSpaceWithBuckets \<Rightarrow> bool" where
  "buckets_below c buckets =
     (\<forall>n bucket_list. buckets n = Some bucket_list \<longrightarrow>
        (\<forall>b \<in> set bucket_list. target_id b < c))"

section \<open>Sentinels in the tables\<close>


definition cell_sentinels_agree :: "EdgeWeight \<times> EdgeWeight \<Rightarrow> bool" where
  "cell_sentinels_agree cell =
     ((fst cell = INVALID_EDGE_WEIGHT) = (snd cell = MAXIMAL_EDGE_DURATION))"




section \<open>The table of a call\<close>

text \<open>
  Notions the claim about the returned table is stated with. \<open>both_tables\<close> is
  the pair of tables of a state and \<open>cell_at\<close> the cell of such a pair at an
  index; \<open>costs\<close> is the weight and duration of a bucket entry, \<open>bucket_list_at\<close> the bucket list of a
  node (empty when the node has none) and \<open>column_costs\<close> the costs of the entries
  of one column in it, in order. \<open>apply_bucket\<close> is one iteration of the loop over
  \<open>bucket_list\<close> in exact arithmetic, with the update of the cell as a parameter.
\<close>

definition both_tables :: "'d SearchState \<Rightarrow> EdgeWeight list \<times> EdgeWeight list" where
  "both_tables s = (weights_table s, durations_table s)"

definition cell_at :: "nat \<Rightarrow> EdgeWeight list \<times> EdgeWeight list \<Rightarrow> EdgeWeight \<times> EdgeWeight" where
  "cell_at k tables = (fst tables ! k, snd tables ! k)"

definition costs :: "NodeBucket \<Rightarrow> EdgeWeight \<times> EdgeWeight" where
  "costs b = (target_weight b, target_duration b)"

definition bucket_list_at :: "SearchSpaceWithBuckets \<Rightarrow> NodeID \<Rightarrow> NodeBucket list" where
  "bucket_list_at buckets n = (case buckets n of None \<Rightarrow> [] | Some bucket_list \<Rightarrow> bucket_list)"

definition column_costs ::
  "nat \<Rightarrow> SearchSpaceWithBuckets \<Rightarrow> NodeID \<Rightarrow> (EdgeWeight \<times> EdgeWeight) list" where
  "column_costs j buckets n =
     map costs (filter (\<lambda>b. target_id b = j) (bucket_list_at buckets n))"

definition apply_bucket ::
  "(NodeBucket \<Rightarrow> EdgeWeight \<times> EdgeWeight \<Rightarrow> EdgeWeight \<times> EdgeWeight) \<Rightarrow> nat \<Rightarrow> nat \<Rightarrow>
   EdgeWeight list \<times> EdgeWeight list \<Rightarrow> NodeBucket \<Rightarrow> EdgeWeight list \<times> EdgeWeight list" where
  "apply_bucket upd row nt tables b =
     (let i = flat_index row nt (target_id b);
          cell = upd b (fst tables ! i, snd tables ! i)
      in ((fst tables)[i := fst cell], (snd tables)[i := snd cell]))"

text \<open>
  The row-major listing of one cell per pair of a source and a target: the rows follow the
  sources, the cells of a row follow the targets.
\<close>

definition row_major :: "('a \<Rightarrow> 'b \<Rightarrow> 'c) \<Rightarrow> 'a list \<Rightarrow> 'b list \<Rightarrow> 'c list" where
  "row_major cell sources targets =
     concat (map (\<lambda>source. map (\<lambda>target. cell source target) targets) sources)"

text \<open>
  The cell of one source and one target: the backward search of the target and then the
  forward search of the source, run with the lambdas of \<open>manyToManySearch\<close> on a
  table of one unset cell. In MLD each search takes its parent cell. \<open>ch_table\<close>
  and \<open>mld_table\<close> list the durations of these cells in row-major order, in MLD with
  the parent cells that \<open>getParentCellID\<close> computes from the opposite side's
  phantoms.
\<close>

definition ch_cell ::
  "StallTest \<Rightarrow> Facade \<Rightarrow> PhantomNode \<Rightarrow> PhantomNode \<Rightarrow> EdgeWeight \<times> EdgeWeight" where
  "ch_cell stall facade source target =
     (case ch_search_source_phantom stall facade 1 source
             (ch_search_target_phantom stall facade target (initial_state 1)) of
        Inl e \<Rightarrow> (INVALID_EDGE_WEIGHT, MAXIMAL_EDGE_DURATION)
      | Inr s \<Rightarrow> (weights_table s ! 0, durations_table s ! 0))"

definition mld_cell ::
  "MLDFacade \<Rightarrow> PhantomNode \<Rightarrow> LevelID \<times> CellID \<Rightarrow> PhantomNode \<Rightarrow> LevelID \<times> CellID \<Rightarrow>
   EdgeWeight \<times> EdgeWeight" where
  "mld_cell facade source source_cell target target_cell =
     (case mld_search_source_phantom facade 1 source source_cell
             (mld_search_target_phantom facade target target_cell (initial_state 1)) of
        Inl e \<Rightarrow> (INVALID_EDGE_WEIGHT, MAXIMAL_EDGE_DURATION)
      | Inr s \<Rightarrow> (weights_table s ! 0, durations_table s ! 0))"

definition ch_table :: "Facade \<Rightarrow> PhantomNode list \<Rightarrow> PhantomNode list \<Rightarrow> EdgeWeight list" where
  "ch_table facade sources targets =
     row_major (\<lambda>source target. snd (ch_cell stallAtNode facade source target))
       sources targets"

definition mld_table ::
  "MLDFacade \<Rightarrow> PhantomNode list \<Rightarrow> PhantomNode list \<Rightarrow> EdgeWeight list" where
  "mld_table facade sources targets =
     row_major (\<lambda>source target.
                  snd (mld_cell facade source
                         (parent_cell (multi_level_partition facade) source targets) target
                         (parent_cell (multi_level_partition facade) target sources)))
       sources targets"

text \<open>The same cells and tables in exact arithmetic.\<close>

definition ch_cell_ideal ::
  "StallTest \<Rightarrow> Facade \<Rightarrow> PhantomNode \<Rightarrow> PhantomNode \<Rightarrow> EdgeWeight \<times> EdgeWeight" where
  "ch_cell_ideal stall facade source target =
     (let s = ch_search_source_phantom_ideal stall facade 1 source
                (ch_search_target_phantom_ideal stall facade target (initial_state 1))
      in (weights_table s ! 0, durations_table s ! 0))"

definition mld_cell_ideal ::
  "MLDFacade \<Rightarrow> PhantomNode \<Rightarrow> LevelID \<times> CellID \<Rightarrow> PhantomNode \<Rightarrow> LevelID \<times> CellID \<Rightarrow>
   EdgeWeight \<times> EdgeWeight" where
  "mld_cell_ideal facade source source_cell target target_cell =
     (let s = mld_search_source_phantom_ideal facade 1 source source_cell
                (mld_search_target_phantom_ideal facade target target_cell (initial_state 1))
      in (weights_table s ! 0, durations_table s ! 0))"

definition ch_table_ideal :: "Facade \<Rightarrow> PhantomNode list \<Rightarrow> PhantomNode list \<Rightarrow> EdgeWeight list" where
  "ch_table_ideal facade sources targets =
     row_major (\<lambda>source target. snd (ch_cell_ideal stallAtNode facade source target)) sources targets"

definition mld_table_ideal ::
  "MLDFacade \<Rightarrow> PhantomNode list \<Rightarrow> PhantomNode list \<Rightarrow> EdgeWeight list" where
  "mld_table_ideal facade sources targets =
     row_major (\<lambda>source target.
                  snd (mld_cell_ideal facade source
                         (parent_cell (multi_level_partition facade) source targets) target
                         (parent_cell (multi_level_partition facade) target sources)))
       sources targets"

section \<open>Arithmetic of the signed order\<close>

lemma std_min_idem: "std_min a a = a"
  by (simp add: std_min_def)

lemma sless_not_max: "x <s y \<Longrightarrow> x \<noteq> (0x7FFFFFFF :: EdgeWeight)"
  using sint_lt [of y] by (auto simp add: word_sless_alt)

lemma not_sless_iff_sle: "(\<not> a <s b) = (b \<le>s (a :: EdgeWeight))"
  by (auto simp add: word_sless_alt word_sle_eq)

lemma std_min_select: "std_min a b = (if b <s a then b else a)"
  by (simp add: std_min_def)



section \<open>Claims about the bucket update\<close>



text \<open>
  C2, as the code has it. For a bucket hit with \<open>new_w \<ge> 0\<close> the table weight
  becomes \<open>min(current, new_w)\<close>; on strict improvement both the weight and the
  duration are replaced by the candidate's; otherwise, an exact weight tie included, the
  cell keeps its earlier weight and duration.
\<close>

theorem ch_bucket_update_nonnegative:
  assumes "0 \<le>s source_weight + target_weight current_bucket"
  shows "ch_bucket_update facade node source_weight source_duration current_bucket
           (current_weight, current_duration) =
         (if source_weight + target_weight current_bucket <s current_weight
          then (source_weight + target_weight current_bucket,
                source_duration + target_duration current_bucket)
          else (current_weight, current_duration)) \<and>
         fst (ch_bucket_update facade node source_weight source_duration current_bucket
           (current_weight, current_duration)) =
         std_min current_weight (source_weight + target_weight current_bucket)"
  using assms
  by (simp add: ch_bucket_update_def Let_def std_min_def word_sless_alt word_sle_eq)

theorem ch_bucket_update_nonnegative_witness:
  "ch_bucket_update \<lparr>adjacency = []\<rparr> 0 4 7
     \<lparr>target_id = 0, target_weight = 5, target_duration = 3\<rparr> (10, 20) = (9, 10)"
proof -
  have nonneg: "(0 :: EdgeWeight) \<le>s
      4 + target_weight \<lparr>target_id = 0, target_weight = 5, target_duration = 3\<rparr>"
    by (simp add: word_sle_eq)
  show ?thesis
    using ch_bucket_update_nonnegative [OF nonneg, of "\<lparr>adjacency = []\<rparr>" 0 7 10 20]
    by (simp add: word_sless_alt)
qed

text \<open>
  The claim as the spec states it fails on an exact tie: the cell holds weight 10 with
  duration 20, the candidate has weight \<open>5 + 5 = 10\<close> and the smaller duration
  \<open>7 + 3 = 10\<close>, and the stored duration stays 20.
\<close>

theorem ch_bucket_update_tie_counterexample:
  "(0 :: EdgeWeight) \<le>s 5 + 5 \<and>
   fst (ch_bucket_update \<lparr>adjacency = []\<rparr> 0 5 7
     \<lparr>target_id = 0, target_weight = 5, target_duration = 3\<rparr> (10, 20)) = 5 + 5 \<and>
   snd (ch_bucket_update \<lparr>adjacency = []\<rparr> 0 5 7
     \<lparr>target_id = 0, target_weight = 5, target_duration = 3\<rparr> (10, 20)) = 20 \<and>
   std_min 20 (7 + 3) \<noteq> 20"
  by (simp add: ch_bucket_update_def Let_def std_min_def word_sless_alt word_sle_eq)



section \<open>The entries an MLD relaxation writes\<close>

lemma mld_relax_shortcuts_filter:
  "mld_relax_shortcuts node w d node_level weights nodes durations heap =
   foldl (\<lambda>h (shortcut_weight, to, shortcut_duration).
            mld_relax_to node True node_level h to (w + shortcut_weight) (d + shortcut_duration))
     heap
     (filter (\<lambda>(shortcut_weight, to, shortcut_duration).
                shortcut_weight \<noteq> INVALID_EDGE_WEIGHT \<and> node \<noteq> to)
        (zip weights (zip nodes durations)))"
proof (induction node w d node_level weights nodes durations heap
      rule: mld_relax_shortcuts.induct)
  case (1 node node_weight node_duration node_level shortcut_weight weights to nodes
      shortcut_duration shortcut_durations heap)
  then show ?case by simp
qed simp_all

lemma in_SetData:
  "e \<in> set (SetData heap n d) \<Longrightarrow> e \<in> set heap \<or> (h_node e = n \<and> h_data e = d)"
  by (induction heap) (auto simp add: SetData_def split: if_splits)

lemma SetData_data:
  assumes "e \<in> set (SetData heap n d)" and "h_node e = n"
  shows "h_data e = d"
proof -
  from assms(1) have "e \<in> (\<lambda>e. if h_node e = n then e\<lparr>h_data := d\<rparr> else e) ` set heap"
    by (simp add: SetData_def)
  then obtain e0 where e: "e = (if h_node e0 = n then e0\<lparr>h_data := d\<rparr> else e0)"
    by (rule imageE)
  show ?thesis
  proof (cases "h_node e0 = n")
    case True
    with e show ?thesis by simp
  next
    case False
    with e assms(2) show ?thesis by simp
  qed
qed

lemma in_DecreaseKey:
  "e \<in> set (DecreaseKey heap n k) \<Longrightarrow>
   e \<in> set heap \<or>
   (\<exists>e0 \<in> set heap. h_node e0 = n \<and> h_node e = n \<and> h_data e = h_data e0)"
  by (induction heap) (auto simp add: DecreaseKey_def split: if_splits)

lemma in_Insert:
  "e \<in> set (Insert heap n k d) \<Longrightarrow> e \<in> set heap \<or> (h_node e = n \<and> h_data e = d)"
  by (auto simp add: Insert_def)

lemma mld_relax_to_written:
  assumes "e \<in> set (mld_relax_to node clique node_level heap to w d)"
  shows "e \<in> set heap \<or>
   (h_node e = to \<and> from_clique_arc (h_data e) = clique \<and> level (h_data e) = node_level \<and>
    parent (h_data e) = node)"
proof (cases "GetKey heap to")
  case None
  with assms show ?thesis
    by (auto simp add: mld_relax_to_def dest!: in_Insert)
next
  case (Some k)
  show ?thesis
  proof (cases "w <s k")
    case True
    define heap1 where "heap1 = SetData heap to
        \<lparr>parent = node, duration = d, from_clique_arc = clique, level = node_level\<rparr>"
    from True Some assms have "e \<in> set (DecreaseKey heap1 to w)"
      by (simp add: mld_relax_to_def heap1_def)
    then consider "e \<in> set heap1"
      | e0 where "e0 \<in> set heap1" "h_node e0 = to" "h_node e = to" "h_data e = h_data e0"
      by (auto dest!: in_DecreaseKey)
    then show ?thesis
    proof cases
      case 1
      then show ?thesis unfolding heap1_def by (auto dest!: in_SetData)
    next
      case 2
      from 2(1,2) have "h_data e0 =
          \<lparr>parent = node, duration = d, from_clique_arc = clique, level = node_level\<rparr>"
        unfolding heap1_def by (rule SetData_data)
      with 2 show ?thesis by simp
    qed
  next
    case False
    with Some assms show ?thesis by (simp add: mld_relax_to_def)
  qed
qed

lemma mld_relax_shortcuts_written:
  "e \<in> set (mld_relax_shortcuts node w d node_level weights nodes durations heap) \<Longrightarrow>
   e \<in> set heap \<or>
   (h_node e \<noteq> node \<and> from_clique_arc (h_data e) \<and> level (h_data e) = node_level \<and>
    parent (h_data e) = node)"
proof (induction node w d node_level weights nodes durations heap
      rule: mld_relax_shortcuts.induct)
  case (1 node node_weight node_duration node_level shortcut_weight weights to nodes
      shortcut_duration shortcut_durations heap)
  define heap1 where "heap1 =
    (if shortcut_weight \<noteq> INVALID_EDGE_WEIGHT \<and> node \<noteq> to
     then mld_relax_to node True node_level heap to (node_weight + shortcut_weight)
            (node_duration + shortcut_duration)
     else heap)"
  from "1.prems" have "e \<in> set (mld_relax_shortcuts node node_weight node_duration node_level
      weights nodes shortcut_durations heap1)"
    by (simp add: heap1_def)
  then have "e \<in> set heap1 \<or>
   (h_node e \<noteq> node \<and> from_clique_arc (h_data e) \<and> level (h_data e) = node_level \<and>
    parent (h_data e) = node)"
    unfolding heap1_def by (rule "1.IH")
  moreover have "e \<in> set heap1 \<Longrightarrow> e \<in> set heap \<or>
   (h_node e \<noteq> node \<and> from_clique_arc (h_data e) \<and> level (h_data e) = node_level \<and>
    parent (h_data e) = node)"
  proof (cases "shortcut_weight \<noteq> INVALID_EDGE_WEIGHT \<and> node \<noteq> to")
    case True
    assume "e \<in> set heap1"
    with True have "e \<in> set (mld_relax_to node True node_level heap to
        (node_weight + shortcut_weight) (node_duration + shortcut_duration))"
      by (simp add: heap1_def)
    from mld_relax_to_written [OF this] True show ?thesis by blast
  next
    case False
    assume "e \<in> set heap1"
    with False show ?thesis by (auto simp add: heap1_def)
  qed
  ultimately show ?case by blast
qed simp_all

section \<open>Claims about the MLD relaxation and the parent cell\<close>

text \<open>
  C9. In the MLD relaxation at a popped node \<open>n\<close> with heap entry \<open>entry\<close>,
  in either direction, the clique arcs are expanded if and only if
  \<open>node_level = max(entry.level, highest_different_level(entry.parent, n))\<close> is at
  least 1 and the entry's \<open>from_clique_arc\<close> flag is false; the border edges at
  \<open>node_level\<close> are relaxed afterwards in either case. The expansion takes the cell of
  \<open>n\<close> at \<open>node_level\<close> and goes, in the forward direction, through the out-weights
  of \<open>n\<close> with the destination nodes and the out-durations of \<open>n\<close>, in the
  reverse direction through the in-weights of \<open>n\<close> with the source nodes and the
  in-durations of \<open>n\<close>; it skips the arcs whose stored weight is
  \<open>INVALID_WEIGHT\<close> and the arcs from \<open>n\<close> to itself, and relaxes every other
  arc, in order, with the weight and the duration of \<open>n\<close> plus those of the arc.
  Relaxing an arc inserts its far node when it was never inserted, lowers its key when the
  new weight is smaller, and leaves the heap as it is otherwise; the entry it writes has
  \<open>from_clique_arc = true\<close>, \<open>level = node_level\<close> and the parent \<open>n\<close>.
\<close>

theorem mld_shortcut_expansion:
  assumes "GetEntry heap node = Some entry"
  shows
    "(let mlp = multi_level_partition facade;
          node_level = max (level (h_data entry))
                         (GetHighestDifferentLevel mlp (parent (h_data entry)) node);
          cell = cells_GetCell (cell_storage facade) node_level
                   (partition_GetCell mlp node_level node);
          expanded = (1 \<le> node_level \<and> \<not> from_clique_arc (h_data entry));
          relaxed = (\<lambda>(shortcut_weight, to, shortcut_duration).
                       shortcut_weight \<noteq> INVALID_EDGE_WEIGHT \<and> node \<noteq> to);
          relax = (\<lambda>h (shortcut_weight, to, shortcut_duration).
                     mld_relax_to node True node_level h to (node_weight + shortcut_weight)
                       (node_duration + shortcut_duration))
      in mld_relaxOutgoingEdges FORWARD_DIRECTION facade node node_weight node_duration heap
           parentCell =
           foldl (mld_relax_border_edge FORWARD_DIRECTION mlp parentCell node node_weight
                    node_duration node_level)
             (if expanded
              then foldl relax heap
                     (filter relaxed
                        (zip (out_weight cell node)
                           (zip (destination_nodes cell) (out_duration cell node))))
              else heap)
             (GetBorderEdgeRange facade node_level node) \<and>
         mld_relaxOutgoingEdges REVERSE_DIRECTION facade node node_weight node_duration heap
           parentCell =
           foldl (mld_relax_border_edge REVERSE_DIRECTION mlp parentCell node node_weight
                    node_duration node_level)
             (if expanded
              then foldl relax heap
                     (filter relaxed
                        (zip (in_weight cell node)
                           (zip (source_nodes cell) (in_duration cell node))))
              else heap)
             (GetBorderEdgeRange facade node_level node)) \<and>
     (\<forall>node_level h to to_weight to_duration.
        mld_relax_to node True node_level h to to_weight to_duration =
          (case GetKey h to of
             None \<Rightarrow>
               Insert h to to_weight
                 \<lparr>parent = node, duration = to_duration, from_clique_arc = True,
                  level = node_level\<rparr>
           | Some k \<Rightarrow>
               if to_weight <s k
               then DecreaseKey
                      (SetData h to
                         \<lparr>parent = node, duration = to_duration, from_clique_arc = True,
                          level = node_level\<rparr>)
                      to to_weight
               else h) \<and>
        (\<forall>e \<in> set (mld_relax_to node True node_level h to to_weight to_duration).
           e \<in> set h \<or>
           (h_node e = to \<and> from_clique_arc (h_data e) \<and> level (h_data e) = node_level \<and>
            parent (h_data e) = node)))"
proof (intro conjI allI ballI)
  show "let mlp = multi_level_partition facade;
          node_level = max (level (h_data entry))
                         (GetHighestDifferentLevel mlp (parent (h_data entry)) node);
          cell = cells_GetCell (cell_storage facade) node_level
                   (partition_GetCell mlp node_level node);
          expanded = (1 \<le> node_level \<and> \<not> from_clique_arc (h_data entry));
          relaxed = (\<lambda>(shortcut_weight, to, shortcut_duration).
                       shortcut_weight \<noteq> INVALID_EDGE_WEIGHT \<and> node \<noteq> to);
          relax = (\<lambda>h (shortcut_weight, to, shortcut_duration).
                     mld_relax_to node True node_level h to (node_weight + shortcut_weight)
                       (node_duration + shortcut_duration))
      in mld_relaxOutgoingEdges FORWARD_DIRECTION facade node node_weight node_duration heap
           parentCell =
           foldl (mld_relax_border_edge FORWARD_DIRECTION mlp parentCell node node_weight
                    node_duration node_level)
             (if expanded
              then foldl relax heap
                     (filter relaxed
                        (zip (out_weight cell node)
                           (zip (destination_nodes cell) (out_duration cell node))))
              else heap)
             (GetBorderEdgeRange facade node_level node) \<and>
         mld_relaxOutgoingEdges REVERSE_DIRECTION facade node node_weight node_duration heap
           parentCell =
           foldl (mld_relax_border_edge REVERSE_DIRECTION mlp parentCell node node_weight
                    node_duration node_level)
             (if expanded
              then foldl relax heap
                     (filter relaxed
                        (zip (in_weight cell node)
                           (zip (source_nodes cell) (in_duration cell node))))
              else heap)
             (GetBorderEdgeRange facade node_level node)"
    using assms
    by (simp add: mld_relaxOutgoingEdges_def Let_def mld_node_level_def
        mld_expand_shortcuts_def mld_relax_shortcuts_filter FORWARD_DIRECTION_def
        REVERSE_DIRECTION_def)
next
  fix node_level h to to_weight to_duration
  show "mld_relax_to node True node_level h to to_weight to_duration =
          (case GetKey h to of
             None \<Rightarrow>
               Insert h to to_weight
                 \<lparr>parent = node, duration = to_duration, from_clique_arc = True,
                  level = node_level\<rparr>
           | Some k \<Rightarrow>
               if to_weight <s k
               then DecreaseKey
                      (SetData h to
                         \<lparr>parent = node, duration = to_duration, from_clique_arc = True,
                          level = node_level\<rparr>)
                      to to_weight
               else h)"
    by (simp add: mld_relax_to_def)
next
  fix node_level h to to_weight to_duration e
  assume "e \<in> set (mld_relax_to node True node_level h to to_weight to_duration)"
  from mld_relax_to_written [OF this]
  show "e \<in> set h \<or>
           (h_node e = to \<and> from_clique_arc (h_data e) \<and> level (h_data e) = node_level \<and>
            parent (h_data e) = node)"
    by simp
qed


theorem mld_shortcut_expansion_witness:
  "GetEntry [popped_entry] 1 = Some popped_entry \<and>
   mld_relaxOutgoingEdges FORWARD_DIRECTION clique_facade 1 5 5 [popped_entry] (3, 0) =
     [popped_entry,
      \<lparr>h_node = 4, h_key = 14,
       h_data = \<lparr>parent = 1, duration = 13, from_clique_arc = True, level = 1\<rparr>,
       in_heap = True\<rparr>,
      \<lparr>h_node = 2, h_key = 7,
       h_data = \<lparr>parent = 1, duration = 7, from_clique_arc = False, level = 1\<rparr>,
       in_heap = True\<rparr>] \<and>
   mld_relaxOutgoingEdges REVERSE_DIRECTION clique_facade 1 5 5 [popped_entry] (3, 0) =
     [popped_entry,
      \<lparr>h_node = 0, h_key = 11,
       h_data = \<lparr>parent = 1, duration = 9, from_clique_arc = True, level = 1\<rparr>,
       in_heap = True\<rparr>]"
proof -
  have pre: "GetEntry [popped_entry] 1 = Some popped_entry"
    by code_simp
  note t = mld_shortcut_expansion [OF pre, where facade = clique_facade and node_weight = 5
      and node_duration = 5 and parentCell = "(3, 0)", unfolded Let_def, THEN conjunct1]
  have fwd: "mld_relaxOutgoingEdges FORWARD_DIRECTION clique_facade 1 5 5 [popped_entry]
      (3, 0) =
     [popped_entry,
      \<lparr>h_node = 4, h_key = 14,
       h_data = \<lparr>parent = 1, duration = 13, from_clique_arc = True, level = 1\<rparr>,
       in_heap = True\<rparr>,
      \<lparr>h_node = 2, h_key = 7,
       h_data = \<lparr>parent = 1, duration = 7, from_clique_arc = False, level = 1\<rparr>,
       in_heap = True\<rparr>]"
    by (rule trans [OF t [THEN conjunct1]]) code_simp
  have rev: "mld_relaxOutgoingEdges REVERSE_DIRECTION clique_facade 1 5 5 [popped_entry]
      (3, 0) =
     [popped_entry,
      \<lparr>h_node = 0, h_key = 11,
       h_data = \<lparr>parent = 1, duration = 9, from_clique_arc = True, level = 1\<rparr>,
       in_heap = True\<rparr>]"
    by (rule trans [OF t [THEN conjunct2]]) code_simp
  from pre fwd rev show ?thesis by (intro conjI)
qed

text \<open>
  C4 on the input of a one-way segment. The source phantom has its forward segment
  disabled (node 4) and its reverse segment enabled (node 0); the target phantom is node 3.
  \<open>getParentCellID\<close> answers level 2 and the level-2 cell of node 4, the disabled
  segment; the enabled segment and the target lie in the other level-2 cell. The forward
  search then relaxes no edge and the pair is reported unreachable, although the path
  \<open>0 \<rightarrow> 1 \<rightarrow> 2 \<rightarrow> 3\<close> has duration 6, which the same call returns once the disabled
  segment's node is node 0.
\<close>

theorem getParentCellID_disabled_forward_segment:
  "getParentCellID line_partition (phantom_at 4 False 0 True)
     [phantom_at 4 False 0 True, phantom_at 3 True 3 False] [1] = Inr (2, 1) \<and>
   partition_GetCell line_partition 2 (seg_id (reverse_segment_id (phantom_at 4 False 0 True))) = 0 \<and>
   partition_GetCell line_partition 2 (seg_id (forward_segment_id (phantom_at 3 True 3 False))) = 0 \<and>
   mld_manyToManySearch line_facade [phantom_at 4 False 0 True, phantom_at 3 True 3 False]
     [0] [1] = Inr [MAXIMAL_EDGE_DURATION] \<and>
   mld_manyToManySearch line_facade [phantom_at 0 False 0 True, phantom_at 3 True 3 False]
     [0] [1] = Inr [6]"
  by code_simp

section \<open>Invariants of the search loops\<close>

lemma ch_backward_loop_rule:
  "P s \<Longrightarrow>
   (\<And>t. P t \<Longrightarrow> \<not> Empty (query_heap t) \<Longrightarrow>
          P (ch_backwardRoutingStep stall facade (column_idx t) t)) \<Longrightarrow>
   P (ch_backward_loop stall facade s) \<and> Empty (query_heap (ch_backward_loop stall facade s))"
proof (induction stall facade s rule: ch_backward_loop.induct)
  case (1 stall facade s)
  show ?case
  proof (cases "Empty (query_heap s)")
    case True
    with "1.prems"(1) show ?thesis by (subst (1 2) ch_backward_loop.simps) simp
  next
    case False
    with "1.prems" have "P (ch_backwardRoutingStep stall facade (column_idx s) s)"
      by simp
    with False "1.IH" "1.prems"(2) show ?thesis
      by (subst (1 2) ch_backward_loop.simps) simp
  qed
qed

lemma ch_forward_loop_ideal_rule:
  "P s \<Longrightarrow>
   (\<And>t. P t \<Longrightarrow> \<not> Empty (query_heap t) \<Longrightarrow>
          P (ch_forwardRoutingStep_ideal stall facade (row_idx t) number_of_targets t)) \<Longrightarrow>
   P (ch_forward_loop_ideal stall facade number_of_targets s) \<and>
   Empty (query_heap (ch_forward_loop_ideal stall facade number_of_targets s))"
proof (induction stall facade number_of_targets s rule: ch_forward_loop_ideal.induct)
  case (1 stall facade number_of_targets s)
  show ?case
  proof (cases "Empty (query_heap s)")
    case True
    with "1.prems"(1) show ?thesis by (subst (1 2) ch_forward_loop_ideal.simps) simp
  next
    case False
    with "1.prems" have "P (ch_forwardRoutingStep_ideal stall facade (row_idx s) number_of_targets s)"
      by simp
    with False "1.IH" "1.prems"(2) show ?thesis
      by (subst (1 2) ch_forward_loop_ideal.simps) simp
  qed
qed

lemma mld_backward_loop_rule:
  "P s \<Longrightarrow>
   (\<And>t. P t \<Longrightarrow> \<not> Empty (query_heap t) \<Longrightarrow>
          P (mld_backwardRoutingStep facade (column_idx t) parentCell t)) \<Longrightarrow>
   P (mld_backward_loop facade parentCell s) \<and>
   Empty (query_heap (mld_backward_loop facade parentCell s))"
proof (induction facade parentCell s rule: mld_backward_loop.induct)
  case (1 facade parentCell s)
  show ?case
  proof (cases "Empty (query_heap s)")
    case True
    with "1.prems"(1) show ?thesis by (subst (1 2) mld_backward_loop.simps) simp
  next
    case False
    with "1.prems" have "P (mld_backwardRoutingStep facade (column_idx s) parentCell s)"
      by simp
    with False "1.IH" "1.prems"(2) show ?thesis
      by (subst (1 2) mld_backward_loop.simps) simp
  qed
qed

lemma mld_forward_loop_ideal_rule:
  "P s \<Longrightarrow>
   (\<And>t. P t \<Longrightarrow> \<not> Empty (query_heap t) \<Longrightarrow>
          P (mld_forwardRoutingStep_ideal facade (row_idx t) number_of_targets parentCell t)) \<Longrightarrow>
   P (mld_forward_loop_ideal facade number_of_targets parentCell s) \<and>
   Empty (query_heap (mld_forward_loop_ideal facade number_of_targets parentCell s))"
proof (induction facade number_of_targets parentCell s rule: mld_forward_loop_ideal.induct)
  case (1 facade number_of_targets parentCell s)
  show ?case
  proof (cases "Empty (query_heap s)")
    case True
    with "1.prems"(1) show ?thesis by (subst (1 2) mld_forward_loop_ideal.simps) simp
  next
    case False
    with "1.prems" have
      "P (mld_forwardRoutingStep_ideal facade (row_idx s) number_of_targets parentCell s)"
      by simp
    with False "1.IH" "1.prems"(2) show ?thesis
      by (subst (1 2) mld_forward_loop_ideal.simps) simp
  qed
qed

section \<open>The loops over the phantoms\<close>

lemma for_each_phantom_total:
  "for_each_phantom (\<lambda>phantom_node s. Inr (f phantom_node s)) phantom_nodes s =
   Inr (foldl (\<lambda>t phantom_node. f phantom_node t) s phantom_nodes)"
  by (induction phantom_nodes arbitrary: s) simp_all

lemma for_each_index_valid:
  "indices_valid phantom_nodes indices \<Longrightarrow>
   for_each_index body phantom_nodes indices s =
   for_each_phantom body (map (\<lambda>index. phantom_nodes ! index) indices) s"
  by (induction indices arbitrary: s) (simp_all add: indices_valid_def split: sum.splits)

lemma for_each_selected:
  "indices_valid phantom_nodes indices \<Longrightarrow>
   (if indices = [] then for_each_phantom body phantom_nodes s
    else for_each_index body phantom_nodes indices s) =
   for_each_phantom body (selected phantom_nodes indices) s"
  by (simp add: selected_def for_each_index_valid)

lemma length_selected:
  "length (selected phantom_nodes indices) =
   (if indices = [] then length phantom_nodes else length indices)"
  by (simp add: selected_def)

lemma highest_level_of_indices_valid:
  "indices_valid phantom_nodes indices \<Longrightarrow>
   highest_level_of_indices mlp source phantom_nodes indices h =
   Inr (foldl (\<lambda>h phantom_node. max h (highest_level mlp source phantom_node)) h
          (map (\<lambda>index. phantom_nodes ! index) indices))"
  by (induction indices arbitrary: h) (simp_all add: indices_valid_def)

lemma getParentCellID_valid:
  "indices_valid phantom_nodes indices \<Longrightarrow>
   getParentCellID mlp source phantom_nodes indices =
   Inr (parent_cell mlp source (selected phantom_nodes indices))"
  by (simp add: getParentCellID_def parent_cell_def selected_def Let_def
      highest_level_of_indices_valid)

section \<open>What the routing steps leave unchanged\<close>

lemma ch_bucket_steps_ideal_length:
  "length (fst (foldl (ch_bucket_step_ideal facade node sw sd row nt) tables bucket_list)) =
     length (fst tables) \<and>
   length (snd (foldl (ch_bucket_step_ideal facade node sw sd row nt) tables bucket_list)) =
     length (snd tables)"
  by (induction bucket_list arbitrary: tables) (simp_all add: ch_bucket_step_ideal_def Let_def)

lemma mld_bucket_steps_ideal_length:
  "length (fst (foldl (mld_bucket_step_ideal sw sd row nt) tables bucket_list)) =
     length (fst tables) \<and>
   length (snd (foldl (mld_bucket_step_ideal sw sd row nt) tables bucket_list)) =
     length (snd tables)"
  by (induction bucket_list arbitrary: tables) (simp_all add: mld_bucket_step_ideal_def Let_def)

lemma ch_forwardRoutingStep_ideal_keeps:
  "search_space_with_buckets (ch_forwardRoutingStep_ideal stall facade row nt s) =
     search_space_with_buckets s \<and>
   column_idx (ch_forwardRoutingStep_ideal stall facade row nt s) = column_idx s \<and>
   row_idx (ch_forwardRoutingStep_ideal stall facade row nt s) = row_idx s \<and>
   length (weights_table (ch_forwardRoutingStep_ideal stall facade row nt s)) =
     length (weights_table s) \<and>
   length (durations_table (ch_forwardRoutingStep_ideal stall facade row nt s)) =
     length (durations_table s)"
  by (simp add: ch_forwardRoutingStep_ideal_def Let_def ch_bucket_steps_ideal_length
      split: option.splits prod.splits)

lemma mld_forwardRoutingStep_ideal_keeps:
  "search_space_with_buckets (mld_forwardRoutingStep_ideal facade row nt parentCell s) =
     search_space_with_buckets s \<and>
   column_idx (mld_forwardRoutingStep_ideal facade row nt parentCell s) = column_idx s \<and>
   row_idx (mld_forwardRoutingStep_ideal facade row nt parentCell s) = row_idx s \<and>
   length (weights_table (mld_forwardRoutingStep_ideal facade row nt parentCell s)) =
     length (weights_table s) \<and>
   length (durations_table (mld_forwardRoutingStep_ideal facade row nt parentCell s)) =
     length (durations_table s)"
  by (simp add: mld_forwardRoutingStep_ideal_def Let_def mld_bucket_steps_ideal_length
      split: option.splits prod.splits)

lemma ch_backwardRoutingStep_keeps:
  "weights_table (ch_backwardRoutingStep stall facade column s) = weights_table s \<and>
   durations_table (ch_backwardRoutingStep stall facade column s) = durations_table s \<and>
   column_idx (ch_backwardRoutingStep stall facade column s) = column_idx s \<and>
   row_idx (ch_backwardRoutingStep stall facade column s) = row_idx s"
  by (simp add: ch_backwardRoutingStep_def Let_def split: option.splits prod.splits)

lemma mld_backwardRoutingStep_keeps:
  "weights_table (mld_backwardRoutingStep facade column parentCell s) = weights_table s \<and>
   durations_table (mld_backwardRoutingStep facade column parentCell s) = durations_table s \<and>
   column_idx (mld_backwardRoutingStep facade column parentCell s) = column_idx s \<and>
   row_idx (mld_backwardRoutingStep facade column parentCell s) = row_idx s"
  by (simp add: mld_backwardRoutingStep_def Let_def split: option.splits prod.splits)

lemma buckets_below_emplace_back:
  "buckets_below c buckets \<Longrightarrow> target_id b < c \<Longrightarrow>
   buckets_below c (emplace_back buckets n b)"
proof -
  assume below: "buckets_below c buckets" and b: "target_id b < c"
  have "target_id x < c"
    if "emplace_back buckets n b m = Some bucket_list" and "x \<in> set bucket_list"
    for m bucket_list x
  proof (cases "m = n")
    case True
    show ?thesis
    proof (cases "buckets n")
      case None
      with True that b show ?thesis by (auto simp add: emplace_back_def)
    next
      case (Some old)
      with below have "\<forall>y \<in> set old. target_id y < c" by (simp add: buckets_below_def)
      with Some True that b show ?thesis by (auto simp add: emplace_back_def)
    qed
  next
    case False
    with that have "buckets m = Some bucket_list" by (simp add: emplace_back_def)
    with below that(2) show ?thesis by (simp add: buckets_below_def)
  qed
  then show ?thesis unfolding buckets_below_def by blast
qed

lemma buckets_below_mono: "buckets_below c buckets \<Longrightarrow> c \<le> c' \<Longrightarrow> buckets_below c' buckets"
  by (fastforce simp add: buckets_below_def)

lemma ch_backwardRoutingStep_below:
  "buckets_below c (search_space_with_buckets s) \<Longrightarrow> column < c \<Longrightarrow>
   buckets_below c (search_space_with_buckets (ch_backwardRoutingStep stall facade column s))"
  by (simp add: ch_backwardRoutingStep_def Let_def buckets_below_emplace_back
      split: option.splits prod.splits)

lemma mld_backwardRoutingStep_below:
  "buckets_below c (search_space_with_buckets s) \<Longrightarrow> column < c \<Longrightarrow>
   buckets_below c
     (search_space_with_buckets (mld_backwardRoutingStep facade column parentCell s))"
  by (simp add: mld_backwardRoutingStep_def Let_def buckets_below_emplace_back
      split: option.splits prod.splits)

section \<open>The search from one phantom, and the two phases\<close>

lemma ch_search_target_phantom_ideal_props:
  "column_idx (ch_search_target_phantom_ideal stall facade p s) = column_idx s + 1 \<and>
   row_idx (ch_search_target_phantom_ideal stall facade p s) = row_idx s \<and>
   weights_table (ch_search_target_phantom_ideal stall facade p s) = weights_table s \<and>
   durations_table (ch_search_target_phantom_ideal stall facade p s) = durations_table s \<and>
   Empty (query_heap (ch_search_target_phantom_ideal stall facade p s)) \<and>
   (buckets_below (column_idx s) (search_space_with_buckets s) \<longrightarrow>
    buckets_below (column_idx s + 1)
      (search_space_with_buckets (ch_search_target_phantom_ideal stall facade p s)))"
proof -
  define s0 where "s0 = s\<lparr>query_heap := insertTargetInHeap ch_init (Clear (query_heap s)) p\<rparr>"
  define P where "P = (\<lambda>t :: CHState.
    column_idx t = column_idx s \<and> row_idx t = row_idx s \<and>
    weights_table t = weights_table s \<and> durations_table t = durations_table s \<and>
    (buckets_below (column_idx s) (search_space_with_buckets s) \<longrightarrow>
     buckets_below (column_idx s + 1) (search_space_with_buckets t)))"
  have start: "P s0"
    by (auto simp add: P_def s0_def intro: buckets_below_mono)
  have step: "P (ch_backwardRoutingStep stall facade (column_idx t) t)" if "P t" for t
    using that ch_backwardRoutingStep_keeps [of stall facade "column_idx t" t]
    by (auto simp add: P_def intro: ch_backwardRoutingStep_below)
  from ch_backward_loop_rule [of P s0 stall facade, OF start] step
  have "P (ch_backward_loop stall facade s0) \<and>
        Empty (query_heap (ch_backward_loop stall facade s0))"
    by blast
  then show ?thesis
    by (simp add: ch_search_target_phantom_ideal_def Let_def s0_def [symmetric] P_def)
qed

lemma mld_search_target_phantom_ideal_props:
  "column_idx (mld_search_target_phantom_ideal facade p parentCell s) = column_idx s + 1 \<and>
   row_idx (mld_search_target_phantom_ideal facade p parentCell s) = row_idx s \<and>
   weights_table (mld_search_target_phantom_ideal facade p parentCell s) = weights_table s \<and>
   durations_table (mld_search_target_phantom_ideal facade p parentCell s) = durations_table s \<and>
   Empty (query_heap (mld_search_target_phantom_ideal facade p parentCell s)) \<and>
   (buckets_below (column_idx s) (search_space_with_buckets s) \<longrightarrow>
    buckets_below (column_idx s + 1)
      (search_space_with_buckets (mld_search_target_phantom_ideal facade p parentCell s)))"
proof -
  define s0 where "s0 = s\<lparr>query_heap := insertTargetInHeap mld_init (Clear (query_heap s)) p\<rparr>"
  define P where "P = (\<lambda>t :: MLDState.
    column_idx t = column_idx s \<and> row_idx t = row_idx s \<and>
    weights_table t = weights_table s \<and> durations_table t = durations_table s \<and>
    (buckets_below (column_idx s) (search_space_with_buckets s) \<longrightarrow>
     buckets_below (column_idx s + 1) (search_space_with_buckets t)))"
  have start: "P s0"
    by (auto simp add: P_def s0_def intro: buckets_below_mono)
  have step: "P (mld_backwardRoutingStep facade (column_idx t) parentCell t)" if "P t" for t
    using that mld_backwardRoutingStep_keeps [of facade "column_idx t" parentCell t]
    by (auto simp add: P_def intro: mld_backwardRoutingStep_below)
  from mld_backward_loop_rule [of P s0 facade parentCell, OF start] step
  have "P (mld_backward_loop facade parentCell s0) \<and>
        Empty (query_heap (mld_backward_loop facade parentCell s0))"
    by blast
  then show ?thesis
    by (simp add: mld_search_target_phantom_ideal_def Let_def s0_def [symmetric] P_def)
qed

lemma ch_search_source_phantom_ideal_props:
  "search_space_with_buckets (ch_search_source_phantom_ideal stall facade nt p s) =
     search_space_with_buckets s \<and>
   column_idx (ch_search_source_phantom_ideal stall facade nt p s) = column_idx s \<and>
   row_idx (ch_search_source_phantom_ideal stall facade nt p s) = row_idx s + 1 \<and>
   length (weights_table (ch_search_source_phantom_ideal stall facade nt p s)) =
     length (weights_table s) \<and>
   length (durations_table (ch_search_source_phantom_ideal stall facade nt p s)) =
     length (durations_table s) \<and>
   Empty (query_heap (ch_search_source_phantom_ideal stall facade nt p s))"
proof -
  define s0 where "s0 = s\<lparr>query_heap := insertSourceInHeap ch_init (Clear (query_heap s)) p\<rparr>"
  define P where "P = (\<lambda>t :: CHState.
    search_space_with_buckets t = search_space_with_buckets s \<and>
    column_idx t = column_idx s \<and> row_idx t = row_idx s \<and>
    length (weights_table t) = length (weights_table s) \<and>
    length (durations_table t) = length (durations_table s))"
  have start: "P s0"
    by (simp add: P_def s0_def)
  have step: "P (ch_forwardRoutingStep_ideal stall facade (row_idx t) nt t)" if "P t" for t
    using that ch_forwardRoutingStep_ideal_keeps [of stall facade "row_idx t" nt t]
    by (simp add: P_def)
  from ch_forward_loop_ideal_rule [of P s0 stall facade nt, OF start] step
  have "P (ch_forward_loop_ideal stall facade nt s0) \<and>
        Empty (query_heap (ch_forward_loop_ideal stall facade nt s0))"
    by blast
  then show ?thesis
    by (simp add: ch_search_source_phantom_ideal_def Let_def s0_def [symmetric] P_def)
qed

lemma mld_search_source_phantom_ideal_props:
  "search_space_with_buckets (mld_search_source_phantom_ideal facade nt p parentCell s) =
     search_space_with_buckets s \<and>
   column_idx (mld_search_source_phantom_ideal facade nt p parentCell s) = column_idx s \<and>
   row_idx (mld_search_source_phantom_ideal facade nt p parentCell s) = row_idx s + 1 \<and>
   length (weights_table (mld_search_source_phantom_ideal facade nt p parentCell s)) =
     length (weights_table s) \<and>
   length (durations_table (mld_search_source_phantom_ideal facade nt p parentCell s)) =
     length (durations_table s) \<and>
   Empty (query_heap (mld_search_source_phantom_ideal facade nt p parentCell s))"
proof -
  define s0 where "s0 = s\<lparr>query_heap := insertSourceInHeap mld_init (Clear (query_heap s)) p\<rparr>"
  define P where "P = (\<lambda>t :: MLDState.
    search_space_with_buckets t = search_space_with_buckets s \<and>
    column_idx t = column_idx s \<and> row_idx t = row_idx s \<and>
    length (weights_table t) = length (weights_table s) \<and>
    length (durations_table t) = length (durations_table s))"
  have start: "P s0"
    by (simp add: P_def s0_def)
  have step: "P (mld_forwardRoutingStep_ideal facade (row_idx t) nt parentCell t)" if "P t" for t
    using that mld_forwardRoutingStep_ideal_keeps [of facade "row_idx t" nt parentCell t]
    by (simp add: P_def)
  from mld_forward_loop_ideal_rule [of P s0 facade nt parentCell, OF start] step
  have "P (mld_forward_loop_ideal facade nt parentCell s0) \<and>
        Empty (query_heap (mld_forward_loop_ideal facade nt parentCell s0))"
    by blast
  then show ?thesis
    by (simp add: mld_search_source_phantom_ideal_def Let_def s0_def [symmetric] P_def)
qed

lemma ch_backward_phase_ideal_props:
  "column_idx (ch_backward_phase_ideal stall facade targets s) = column_idx s + length targets \<and>
   row_idx (ch_backward_phase_ideal stall facade targets s) = row_idx s \<and>
   weights_table (ch_backward_phase_ideal stall facade targets s) = weights_table s \<and>
   durations_table (ch_backward_phase_ideal stall facade targets s) = durations_table s \<and>
   (buckets_below (column_idx s) (search_space_with_buckets s) \<longrightarrow>
    buckets_below (column_idx s + length targets)
      (search_space_with_buckets (ch_backward_phase_ideal stall facade targets s)))"
proof (induction targets arbitrary: s)
  case Nil
  show ?case by (simp add: ch_backward_phase_ideal_def)
next
  case (Cons p targets)
  from Cons [of "ch_search_target_phantom_ideal stall facade p s"]
    ch_search_target_phantom_ideal_props [of stall facade p s]
  show ?case by (simp add: ch_backward_phase_ideal_def)
qed

lemma mld_backward_phase_ideal_props:
  "column_idx (mld_backward_phase_ideal facade sources targets s) = column_idx s + length targets \<and>
   row_idx (mld_backward_phase_ideal facade sources targets s) = row_idx s \<and>
   weights_table (mld_backward_phase_ideal facade sources targets s) = weights_table s \<and>
   durations_table (mld_backward_phase_ideal facade sources targets s) = durations_table s \<and>
   (buckets_below (column_idx s) (search_space_with_buckets s) \<longrightarrow>
    buckets_below (column_idx s + length targets)
      (search_space_with_buckets (mld_backward_phase_ideal facade sources targets s)))"
proof (induction targets arbitrary: s)
  case Nil
  show ?case by (simp add: mld_backward_phase_ideal_def)
next
  case (Cons p targets)
  from Cons [of "mld_search_target_phantom_ideal facade p
      (parent_cell (multi_level_partition facade) p sources) s"]
    mld_search_target_phantom_ideal_props [of facade p
      "parent_cell (multi_level_partition facade) p sources" s]
  show ?case by (simp add: mld_backward_phase_ideal_def)
qed

lemma ch_forward_phase_ideal_props:
  "search_space_with_buckets (ch_forward_phase_ideal stall facade nt sources s) =
     search_space_with_buckets s \<and>
   column_idx (ch_forward_phase_ideal stall facade nt sources s) = column_idx s \<and>
   row_idx (ch_forward_phase_ideal stall facade nt sources s) = row_idx s + length sources \<and>
   length (weights_table (ch_forward_phase_ideal stall facade nt sources s)) =
     length (weights_table s) \<and>
   length (durations_table (ch_forward_phase_ideal stall facade nt sources s)) =
     length (durations_table s)"
proof (induction sources arbitrary: s)
  case Nil
  show ?case by (simp add: ch_forward_phase_ideal_def)
next
  case (Cons p sources)
  from Cons [of "ch_search_source_phantom_ideal stall facade nt p s"]
    ch_search_source_phantom_ideal_props [of stall facade nt p s]
  show ?case by (simp add: ch_forward_phase_ideal_def)
qed

lemma mld_forward_phase_ideal_props:
  "search_space_with_buckets (mld_forward_phase_ideal facade nt targets sources s) =
     search_space_with_buckets s \<and>
   column_idx (mld_forward_phase_ideal facade nt targets sources s) = column_idx s \<and>
   row_idx (mld_forward_phase_ideal facade nt targets sources s) = row_idx s + length sources \<and>
   length (weights_table (mld_forward_phase_ideal facade nt targets sources s)) =
     length (weights_table s) \<and>
   length (durations_table (mld_forward_phase_ideal facade nt targets sources s)) =
     length (durations_table s)"
proof (induction sources arbitrary: s)
  case Nil
  show ?case by (simp add: mld_forward_phase_ideal_def)
next
  case (Cons p sources)
  from Cons [of "mld_search_source_phantom_ideal facade nt p
      (parent_cell (multi_level_partition facade) p targets) s"]
    mld_search_source_phantom_ideal_props [of facade nt p
      "parent_cell (multi_level_partition facade) p targets" s]
  show ?case by (simp add: mld_forward_phase_ideal_def)
qed

lemma initial_state_props:
  "column_idx (initial_state n :: 'd SearchState) = 0 \<and>
   row_idx (initial_state n :: 'd SearchState) = 0 \<and>
   length (weights_table (initial_state n :: 'd SearchState)) = n \<and>
   length (durations_table (initial_state n :: 'd SearchState)) = n \<and>
   buckets_below 0 (search_space_with_buckets (initial_state n :: 'd SearchState))"
  by (simp add: initial_state_def buckets_below_def)

lemma flat_index_bound:
  "row < number_of_sources \<Longrightarrow> column < number_of_targets \<Longrightarrow>
   flat_index row number_of_targets column < number_of_sources * number_of_targets"
proof -
  assume row: "row < number_of_sources" and column: "column < number_of_targets"
  from column have "row * number_of_targets + column < Suc row * number_of_targets"
    by simp
  also from row have "Suc row * number_of_targets \<le> number_of_sources * number_of_targets"
    by (intro mult_le_mono1) simp
  finally show ?thesis by (simp add: flat_index_def)
qed

section \<open>The sentinel invariant\<close>

lemma sless_not_INVALID: "x <s y \<Longrightarrow> x \<noteq> INVALID_EDGE_WEIGHT"
  unfolding INVALID_EDGE_WEIGHT_def by (rule sless_not_max)

lemma sle_max: "x \<le>s (0x7FFFFFFF :: EdgeWeight)"
  using sint_lt [of x] by (simp add: word_sle_eq)

lemma std_min_eq_max:
  "(std_min a b = (0x7FFFFFFF :: EdgeWeight)) = (a = 0x7FFFFFFF \<and> b = 0x7FFFFFFF)"
proof -
  have sa: "sint a \<le> 2147483647" using sint_lt [of a] by simp
  have sb: "sint b \<le> 2147483647" using sint_lt [of b] by simp
  have inj: "\<And>x :: EdgeWeight. (x = 0x7FFFFFFF) = (sint x = 2147483647)"
  proof -
    fix x :: EdgeWeight
    have "sint (0x7FFFFFFF :: EdgeWeight) = 2147483647" by simp
    then show "(x = 0x7FFFFFFF) = (sint x = 2147483647)"
      by (metis signed_word_eqI)
  qed
  show ?thesis
    using sa sb by (auto simp add: std_min_def word_sless_alt inj)
qed

lemma loop_repair_not_INVALID:
  assumes "new_weight <s 0" and "0 \<le>s loop_weight" and "loop_weight \<noteq> INVALID_EDGE_WEIGHT"
  shows "new_weight + loop_weight \<noteq> INVALID_EDGE_WEIGHT"
proof -
  have inj: "(loop_weight = 0x7FFFFFFF) = (sint loop_weight = 2147483647)"
  proof -
    have "sint (0x7FFFFFFF :: EdgeWeight) = 2147483647" by simp
    then show ?thesis by (metis signed_word_eqI)
  qed
  from assms(1) have n1: "sint new_weight < 0" by (simp add: word_sless_alt)
  have n2: "- 2147483648 \<le> sint new_weight" using sint_ge [of new_weight] by simp
  from assms(2) have l1: "0 \<le> sint loop_weight" by (simp add: word_sle_eq)
  have "sint loop_weight \<le> 2147483647" using sint_lt [of loop_weight] by simp
  with assms(3) inj have l2: "sint loop_weight < 2147483647"
    by (simp add: INVALID_EDGE_WEIGHT_def)
  have "sint (new_weight + loop_weight) =
      signed_take_bit 31 (sint new_weight + sint loop_weight)"
    by (simp add: sint_word_ariths)
  also from n1 n2 l1 l2 have "\<dots> = sint new_weight + sint loop_weight"
    by (intro signed_take_bit_int_eq_self) simp_all
  finally have "sint (new_weight + loop_weight) < 2147483647"
    using n1 l2 by simp
  then show ?thesis
    by (auto simp add: INVALID_EDGE_WEIGHT_def)
qed




lemma ch_bucket_update_agree:
  assumes "0 \<le>s getLoopWeight False facade node"
    and "sd + target_duration b \<noteq> MAXIMAL_EDGE_DURATION"
    and "sd + target_duration b + getLoopWeight True facade node \<noteq> MAXIMAL_EDGE_DURATION"
    and "cell_sentinels_agree cell"
  shows "cell_sentinels_agree (ch_bucket_update facade node sw sd b cell)"
proof (cases "sw + target_weight b <s 0")
  case True
  show ?thesis
  proof (cases "getLoopWeight False facade node \<noteq> INVALID_EDGE_WEIGHT \<and>
      0 \<le>s sw + target_weight b + getLoopWeight False facade node")
    case repaired: True
    with True assms(1) have "sw + target_weight b + getLoopWeight False facade node \<noteq>
        INVALID_EDGE_WEIGHT"
      by (intro loop_repair_not_INVALID) simp_all
    then have w: "std_min (fst cell)
        (sw + target_weight b + getLoopWeight False facade node) \<noteq> INVALID_EDGE_WEIGHT"
      by (simp add: INVALID_EDGE_WEIGHT_def std_min_eq_max)
    from assms(3) have d: "std_min (snd cell)
        (sd + target_duration b + getLoopWeight True facade node) \<noteq> MAXIMAL_EDGE_DURATION"
      by (simp add: MAXIMAL_EDGE_DURATION_def std_min_eq_max)
    from True repaired w d show ?thesis
      by (simp add: ch_bucket_update_def Let_def cell_sentinels_agree_def)
  next
    case False
    with True assms(4) show ?thesis
      by (auto simp add: ch_bucket_update_def Let_def cell_sentinels_agree_def)
  qed
next
  case False
  with assms(2,4) show ?thesis
    by (auto simp add: ch_bucket_update_def Let_def cell_sentinels_agree_def
        dest: sless_not_INVALID)
qed

lemma mld_bucket_update_agree:
  assumes "sd + target_duration b \<noteq> MAXIMAL_EDGE_DURATION"
    and "cell_sentinels_agree cell"
  shows "cell_sentinels_agree (mld_bucket_update sw sd b cell)"
  using assms
  by (auto simp add: mld_bucket_update_def Let_def cell_sentinels_agree_def
      dest: sless_not_INVALID)












section \<open>One cell under the loop over a bucket list\<close>

lemma ch_bucket_step_ideal_apply:
  "ch_bucket_step_ideal facade node sw sd row nt =
   apply_bucket (ch_bucket_update facade node sw sd) row nt"
  by (intro ext) (simp add: ch_bucket_step_ideal_def apply_bucket_def)

lemma mld_bucket_step_ideal_apply:
  "mld_bucket_step_ideal sw sd row nt = apply_bucket (mld_bucket_update sw sd) row nt"
  by (intro ext) (simp add: mld_bucket_step_ideal_def apply_bucket_def)

lemma flat_index_inject:
  "j < nt \<Longrightarrow> c < nt \<Longrightarrow> (flat_index i nt j = flat_index i' nt c) = (i = i' \<and> j = c)"
proof -
  assume j: "j < nt" and c: "c < nt"
  have "i = i' \<and> j = c" if eq: "i * nt + j = i' * nt + c"
  proof -
    from j have "(i * nt + j) div nt = i" by simp
    moreover from c have "(i' * nt + c) div nt = i'" by simp
    ultimately have "i = i'" using eq by simp
    with eq show ?thesis by simp
  qed
  then show ?thesis by (auto simp add: flat_index_def)
qed

lemma apply_bucket_length:
  "length (fst (apply_bucket upd row nt tables b)) = length (fst tables) \<and>
   length (snd (apply_bucket upd row nt tables b)) = length (snd tables)"
  by (simp add: apply_bucket_def Let_def)

lemma apply_bucket_cell:
  assumes "length (fst tables) = length (snd tables)"
    and "flat_index i nt j < length (fst tables)"
    and "j < nt" and "target_id b < nt"
  shows "cell_at (flat_index i nt j) (apply_bucket upd i' nt tables b) =
     (if i' = i \<and> target_id b = j then upd b (cell_at (flat_index i nt j) tables)
      else cell_at (flat_index i nt j) tables)"
proof (cases "i' = i \<and> target_id b = j")
  case True
  with assms(1,2) show ?thesis
    by (simp add: apply_bucket_def Let_def cell_at_def)
next
  case False
  with assms(3,4) have "flat_index i' nt (target_id b) \<noteq> flat_index i nt j"
    by (auto simp add: flat_index_inject)
  with False show ?thesis
    by (auto simp add: apply_bucket_def Let_def cell_at_def)
qed

lemma apply_buckets_cell:
  assumes "\<And>b cell. upd b cell = updc (costs b) cell"
    and "j < nt"
  shows "length (fst tables) = length (snd tables) \<Longrightarrow>
     flat_index i nt j < length (fst tables) \<Longrightarrow>
     \<forall>b \<in> set bucket_list. target_id b < nt \<Longrightarrow>
     cell_at (flat_index i nt j) (foldl (apply_bucket upd i' nt) tables bucket_list) =
     (if i' = i
      then foldl (\<lambda>cell x. updc x cell) (cell_at (flat_index i nt j) tables)
             (map costs (filter (\<lambda>b. target_id b = j) bucket_list))
      else cell_at (flat_index i nt j) tables)"
proof (induction bucket_list arbitrary: tables)
  case Nil
  then show ?case by simp
next
  case (Cons b bucket_list)
  let ?t = "apply_bucket upd i' nt tables b"
  from Cons.prems(1) have len: "length (fst ?t) = length (snd ?t)"
    by (simp add: apply_bucket_length)
  from Cons.prems(2) have k: "flat_index i nt j < length (fst ?t)"
    by (simp add: apply_bucket_length)
  from Cons.prems(3) have rest: "\<forall>b \<in> set bucket_list. target_id b < nt" and b: "target_id b < nt"
    by simp_all
  have cell: "cell_at (flat_index i nt j) ?t =
     (if i' = i \<and> target_id b = j then upd b (cell_at (flat_index i nt j) tables)
      else cell_at (flat_index i nt j) tables)"
    using Cons.prems(1,2) assms(2) b by (rule apply_bucket_cell)
  note IH = Cons.IH [OF len k rest]
  show ?case
  proof (cases "i' = i")
    case False
    with IH cell show ?thesis by simp
  next
    case True
    show ?thesis
    proof (cases "target_id b = j")
      case hit: True
      with True cell have "cell_at (flat_index i nt j) ?t =
          updc (costs b) (cell_at (flat_index i nt j) tables)"
        by (simp add: assms(1))
      with IH True hit show ?thesis by simp
    next
      case miss: False
      with True cell have "cell_at (flat_index i nt j) ?t = cell_at (flat_index i nt j) tables"
        by simp
      with IH True miss show ?thesis by simp
    qed
  qed
qed

lemma ch_bucket_update_costs:
  "ch_bucket_update facade node sw sd b cell =
   ch_bucket_update facade node sw sd
     \<lparr>target_id = 0, target_weight = fst (costs b), target_duration = snd (costs b)\<rparr> cell"
  by (simp add: ch_bucket_update_def costs_def Let_def)

lemma mld_bucket_update_costs:
  "mld_bucket_update sw sd b cell =
   mld_bucket_update sw sd
     \<lparr>target_id = 0, target_weight = fst (costs b), target_duration = snd (costs b)\<rparr> cell"
  by (simp add: mld_bucket_update_def costs_def Let_def)

lemma bucket_list_at_emplace_back:
  "bucket_list_at (emplace_back buckets n b) m =
   (if m = n then bucket_list_at buckets n @ [b] else bucket_list_at buckets m)"
  by (simp add: bucket_list_at_def emplace_back_def)

lemma column_costs_emplace_back:
  "column_costs j (emplace_back buckets n b) m =
   (if m = n \<and> target_id b = j then column_costs j buckets n @ [costs b]
    else column_costs j buckets m)"
  by (simp add: column_costs_def bucket_list_at_emplace_back)

lemma buckets_below_list:
  "buckets_below c buckets = (\<forall>n. \<forall>b \<in> set (bucket_list_at buckets n). target_id b < c)"
proof
  assume below: "buckets_below c buckets"
  show "\<forall>n. \<forall>b \<in> set (bucket_list_at buckets n). target_id b < c"
  proof (intro allI ballI)
    fix n b assume "b \<in> set (bucket_list_at buckets n)"
    with below show "target_id b < c"
      by (cases "buckets n") (auto simp add: bucket_list_at_def buckets_below_def)
  qed
next
  assume all: "\<forall>n. \<forall>b \<in> set (bucket_list_at buckets n). target_id b < c"
  show "buckets_below c buckets"
    unfolding buckets_below_def
  proof (intro allI impI ballI)
    fix n bucket_list b
    assume "buckets n = Some bucket_list" and "b \<in> set bucket_list"
    then have "b \<in> set (bucket_list_at buckets n)" by (simp add: bucket_list_at_def)
    with all show "target_id b < c" by blast
  qed
qed

lemma column_costs_below:
  assumes "buckets_below c buckets" and "c \<le> j"
  shows "column_costs j buckets n = []"
proof -
  from assms(1) have "\<forall>b \<in> set (bucket_list_at buckets n). target_id b < c"
    by (simp add: buckets_below_list)
  with assms(2) have "\<forall>b \<in> set (bucket_list_at buckets n). target_id b \<noteq> j"
    by auto
  then have "filter (\<lambda>b. target_id b = j) (bucket_list_at buckets n) = []"
    by (simp add: filter_empty_conv)
  then show ?thesis by (simp add: column_costs_def)
qed

lemma bucket_fold_cell:
  assumes "\<And>b cell. upd b cell = updc (costs b) cell" and "j < nt"
    and "length (fst T) = length (snd T)" and "flat_index i nt j < length (fst T)"
    and "buckets_below nt B"
  shows "cell_at (flat_index i nt j)
       (case B node of None \<Rightarrow> T | Some bucket_list \<Rightarrow> foldl (apply_bucket upd row nt) T bucket_list) =
     (if row = i
      then foldl (\<lambda>cell x. updc x cell) (cell_at (flat_index i nt j) T) (column_costs j B node)
      else cell_at (flat_index i nt j) T)"
proof (cases "B node")
  case None
  then show ?thesis by (simp add: column_costs_def bucket_list_at_def)
next
  case (Some bucket_list)
  with assms(5) have "\<forall>b \<in> set bucket_list. target_id b < nt"
    by (simp add: buckets_below_def)
  from apply_buckets_cell [of upd updc j nt T i bucket_list row, OF assms(1,2,3,4) this] Some
  show ?thesis by (simp add: column_costs_def bucket_list_at_def)
qed

lemma ch_forwardRoutingStep_ideal_cell:
  assumes "DeleteMin (query_heap s) = Some (popped, heap)" and "j < nt"
    and "length (weights_table s) = length (durations_table s)"
    and "flat_index i nt j < length (weights_table s)"
    and "buckets_below nt (search_space_with_buckets s)"
  shows "cell_at (flat_index i nt j) (both_tables (ch_forwardRoutingStep_ideal stall facade row nt s)) =
     (if row = i
      then foldl (\<lambda>cell x. ch_bucket_update facade (h_node popped) (h_key popped)
                    (duration (h_data popped))
                    \<lparr>target_id = 0, target_weight = fst x, target_duration = snd x\<rparr> cell)
             (cell_at (flat_index i nt j) (both_tables s))
             (column_costs j (search_space_with_buckets s) (h_node popped))
      else cell_at (flat_index i nt j) (both_tables s))"
proof -
  let ?upd = "ch_bucket_update facade (h_node popped) (h_key popped) (duration (h_data popped))"
  let ?updc = "\<lambda>x cell. ?upd \<lparr>target_id = 0, target_weight = fst x, target_duration = snd x\<rparr> cell"
  have eq: "both_tables (ch_forwardRoutingStep_ideal stall facade row nt s) =
      (case search_space_with_buckets s (h_node popped) of
         None \<Rightarrow> both_tables s
       | Some bucket_list \<Rightarrow> foldl (apply_bucket ?upd row nt) (both_tables s) bucket_list)"
    using assms(1)
    by (simp add: ch_forwardRoutingStep_ideal_def Let_def both_tables_def ch_bucket_step_ideal_apply
        split: option.splits)
  have c: "\<And>b cell. ?upd b cell = ?updc (costs b) cell"
    by (rule ch_bucket_update_costs)
  from assms(3) have len: "length (fst (both_tables s)) = length (snd (both_tables s))"
    by (simp add: both_tables_def)
  from assms(4) have k: "flat_index i nt j < length (fst (both_tables s))"
    by (simp add: both_tables_def)
  show ?thesis
    unfolding eq
    by (rule bucket_fold_cell [of ?upd ?updc, OF c assms(2) len k assms(5)])
qed

lemma ch_forwardRoutingStep_ideal_heap:
  "query_heap s = query_heap s' \<Longrightarrow>
   query_heap (ch_forwardRoutingStep_ideal stall facade row nt s) =
   query_heap (ch_forwardRoutingStep_ideal stall facade row' nt' s')"
  by (simp add: ch_forwardRoutingStep_ideal_def Let_def split: option.splits)

lemma ch_forward_loop_ideal_unfold:
  "\<not> Empty (query_heap s) \<Longrightarrow>
   ch_forward_loop_ideal stall facade nt s =
   ch_forward_loop_ideal stall facade nt (ch_forwardRoutingStep_ideal stall facade (row_idx s) nt s)"
  by (subst ch_forward_loop_ideal.simps) simp

lemma ch_forward_loop_ideal_done:
  "Empty (query_heap s) \<Longrightarrow> ch_forward_loop_ideal stall facade nt s = s"
  by (subst ch_forward_loop_ideal.simps) simp

lemma ch_forward_loop_ideal_related:
  "query_heap s = query_heap s' \<Longrightarrow>
   j < nt \<Longrightarrow> j' < nt' \<Longrightarrow>
   buckets_below nt (search_space_with_buckets s) \<Longrightarrow>
   buckets_below nt' (search_space_with_buckets s') \<Longrightarrow>
   (\<forall>n. column_costs j (search_space_with_buckets s) n =
        column_costs j' (search_space_with_buckets s') n) \<Longrightarrow>
   length (weights_table s) = length (durations_table s) \<Longrightarrow>
   length (weights_table s') = length (durations_table s') \<Longrightarrow>
   flat_index (row_idx s) nt j < length (weights_table s) \<Longrightarrow>
   flat_index (row_idx s') nt' j' < length (weights_table s') \<Longrightarrow>
   cell_at (flat_index (row_idx s) nt j) (both_tables s) =
   cell_at (flat_index (row_idx s') nt' j') (both_tables s') \<Longrightarrow>
   cell_at (flat_index (row_idx s) nt j) (both_tables (ch_forward_loop_ideal stall facade nt s)) =
   cell_at (flat_index (row_idx s') nt' j') (both_tables (ch_forward_loop_ideal stall facade nt' s'))"
proof (induction stall facade nt s arbitrary: s' rule: ch_forward_loop_ideal.induct)
  case (1 stall facade nt s)
  note heaps = "1.prems"(1) and j = "1.prems"(2) and j' = "1.prems"(3)
    and below = "1.prems"(4) and below' = "1.prems"(5) and costs = "1.prems"(6)
    and len = "1.prems"(7) and len' = "1.prems"(8) and k = "1.prems"(9) and k' = "1.prems"(10)
    and cell = "1.prems"(11)
  show ?case
  proof (cases "Empty (query_heap s)")
    case True
    with heaps have "Empty (query_heap s')" by simp
    with True cell show ?thesis by (simp add: ch_forward_loop_ideal_done)
  next
    case False
    with heaps have False': "\<not> Empty (query_heap s')" by simp
    let ?t = "ch_forwardRoutingStep_ideal stall facade (row_idx s) nt s"
    let ?t' = "ch_forwardRoutingStep_ideal stall facade (row_idx s') nt' s'"
    from False obtain popped heap where dm: "DeleteMin (query_heap s) = Some (popped, heap)"
      using DeleteMin_None [of "query_heap s"] by (cases "DeleteMin (query_heap s)") auto
    with heaps have dm': "DeleteMin (query_heap s') = Some (popped, heap)" by simp
    note keeps = ch_forwardRoutingStep_ideal_keeps [of stall facade "row_idx s" nt s]
    note keeps' = ch_forwardRoutingStep_ideal_keeps [of stall facade "row_idx s'" nt' s']
    from heaps have heaps1: "query_heap ?t = query_heap ?t'"
      by (rule ch_forwardRoutingStep_ideal_heap)
    from below keeps have below1: "buckets_below nt (search_space_with_buckets ?t)" by simp
    from below' keeps' have below1': "buckets_below nt' (search_space_with_buckets ?t')" by simp
    from costs keeps keeps' have costs1:
      "\<forall>n. column_costs j (search_space_with_buckets ?t) n =
           column_costs j' (search_space_with_buckets ?t') n" by simp
    from len keeps have len1: "length (weights_table ?t) = length (durations_table ?t)" by simp
    from len' keeps' have len1': "length (weights_table ?t') = length (durations_table ?t')"
      by simp
    from k keeps have k1: "flat_index (row_idx ?t) nt j < length (weights_table ?t)" by simp
    from k' keeps' have k1': "flat_index (row_idx ?t') nt' j' < length (weights_table ?t')"
      by simp
    from ch_forwardRoutingStep_ideal_cell [OF dm j len k below, of stall facade "row_idx s"]
      ch_forwardRoutingStep_ideal_cell [OF dm' j' len' k' below', of stall facade "row_idx s'"]
      costs cell
    have "cell_at (flat_index (row_idx s) nt j) (both_tables ?t) =
          cell_at (flat_index (row_idx s') nt' j') (both_tables ?t')"
      by simp
    with keeps keeps' have cell1: "cell_at (flat_index (row_idx ?t) nt j) (both_tables ?t) =
          cell_at (flat_index (row_idx ?t') nt' j') (both_tables ?t')"
      by simp
    from "1.IH" [OF False heaps1 j j' below1 below1' costs1 len1 len1' k1 k1' cell1] keeps keeps'
    have "cell_at (flat_index (row_idx s) nt j) (both_tables (ch_forward_loop_ideal stall facade nt ?t)) =
          cell_at (flat_index (row_idx s') nt' j')
            (both_tables (ch_forward_loop_ideal stall facade nt' ?t'))"
      by simp
    with False False' show ?thesis
      by (simp add: ch_forward_loop_ideal_unfold [of s] ch_forward_loop_ideal_unfold [of s'])
  qed
qed

lemma length_row_major:
  "length (row_major cell sources targets) = length sources * length targets"
  by (induction sources) (simp_all add: row_major_def)

lemma nth_row_major:
  "i < length sources \<Longrightarrow> j < length targets \<Longrightarrow>
   row_major cell sources targets ! flat_index i (length targets) j =
   cell (sources ! i) (targets ! j)"
proof (induction sources arbitrary: i)
  case Nil
  then show ?case by simp
next
  case (Cons p sources)
  show ?case
  proof (cases i)
    case 0
    with Cons.prems(2) show ?thesis
      by (simp add: row_major_def flat_index_def nth_append)
  next
    case (Suc i')
    with Cons.prems(1) have "i' < length sources" by simp
    from Cons.IH [OF this Cons.prems(2)] Suc show ?thesis
      by (simp add: row_major_def flat_index_def nth_append)
  qed
qed

lemma both_tables_simps:
  "both_tables (s\<lparr>query_heap := h\<rparr>) = both_tables s"
  "both_tables (s\<lparr>row_idx := r\<rparr>) = both_tables s"
  "both_tables (s\<lparr>column_idx := c\<rparr>) = both_tables s"
  by (simp_all add: both_tables_def)

section \<open>The forward searches of a CH call\<close>

lemma ch_search_source_phantom_ideal_other:
  assumes "row_idx s \<noteq> i" and "j < nt"
    and "length (weights_table s) = length (durations_table s)"
    and "flat_index i nt j < length (weights_table s)"
    and "buckets_below nt (search_space_with_buckets s)"
  shows "cell_at (flat_index i nt j) (both_tables (ch_search_source_phantom_ideal stall facade nt p s)) =
     cell_at (flat_index i nt j) (both_tables s)"
proof -
  define s0 where "s0 = s\<lparr>query_heap := insertSourceInHeap ch_init (Clear (query_heap s)) p\<rparr>"
  define P where "P = (\<lambda>t :: CHState.
    search_space_with_buckets t = search_space_with_buckets s \<and> row_idx t = row_idx s \<and>
    length (weights_table t) = length (weights_table s) \<and>
    length (durations_table t) = length (durations_table s) \<and>
    cell_at (flat_index i nt j) (both_tables t) = cell_at (flat_index i nt j) (both_tables s))"
  have start: "P s0"
    by (simp add: P_def s0_def both_tables_simps)
  have step: "P (ch_forwardRoutingStep_ideal stall facade (row_idx t) nt t)"
    if Pt: "P t" and ne: "\<not> Empty (query_heap t)" for t
  proof -
    from ne obtain popped heap where dm: "DeleteMin (query_heap t) = Some (popped, heap)"
      using DeleteMin_None [of "query_heap t"] by (cases "DeleteMin (query_heap t)") auto
    from Pt assms(3) have len: "length (weights_table t) = length (durations_table t)"
      by (simp add: P_def)
    from Pt assms(4) have k: "flat_index i nt j < length (weights_table t)"
      by (simp add: P_def)
    from Pt assms(5) have below: "buckets_below nt (search_space_with_buckets t)"
      by (simp add: P_def)
    from Pt assms(1) have row: "row_idx t \<noteq> i" by (simp add: P_def)
    from ch_forwardRoutingStep_ideal_cell [OF dm assms(2) len k below, of stall facade "row_idx t"] row
    have "cell_at (flat_index i nt j)
            (both_tables (ch_forwardRoutingStep_ideal stall facade (row_idx t) nt t)) =
          cell_at (flat_index i nt j) (both_tables t)"
      by simp
    with Pt ch_forwardRoutingStep_ideal_keeps [of stall facade "row_idx t" nt t]
    show ?thesis by (simp add: P_def)
  qed
  from ch_forward_loop_ideal_rule [of P s0 stall facade nt, OF start] step
  have "P (ch_forward_loop_ideal stall facade nt s0)"
    by blast
  then show ?thesis
    by (simp add: ch_search_source_phantom_ideal_def Let_def s0_def [symmetric] P_def both_tables_simps)
qed

lemma ch_search_source_phantom_ideal_related:
  assumes "j < nt" and "j' < nt'"
    and "buckets_below nt (search_space_with_buckets s)"
    and "buckets_below nt' (search_space_with_buckets s')"
    and "\<forall>n. column_costs j (search_space_with_buckets s) n =
             column_costs j' (search_space_with_buckets s') n"
    and "length (weights_table s) = length (durations_table s)"
    and "length (weights_table s') = length (durations_table s')"
    and "flat_index (row_idx s) nt j < length (weights_table s)"
    and "flat_index (row_idx s') nt' j' < length (weights_table s')"
    and "cell_at (flat_index (row_idx s) nt j) (both_tables s) =
         cell_at (flat_index (row_idx s') nt' j') (both_tables s')"
  shows "cell_at (flat_index (row_idx s) nt j)
       (both_tables (ch_search_source_phantom_ideal stall facade nt p s)) =
     cell_at (flat_index (row_idx s') nt' j')
       (both_tables (ch_search_source_phantom_ideal stall facade nt' p s'))"
proof -
  let ?s0 = "s\<lparr>query_heap := insertSourceInHeap ch_init (Clear (query_heap s)) p\<rparr>"
  let ?s0' = "s'\<lparr>query_heap := insertSourceInHeap ch_init (Clear (query_heap s')) p\<rparr>"
  have heaps: "query_heap ?s0 = query_heap ?s0'" by (simp add: Clear_def)
  from assms have
    "cell_at (flat_index (row_idx ?s0) nt j) (both_tables (ch_forward_loop_ideal stall facade nt ?s0)) =
     cell_at (flat_index (row_idx ?s0') nt' j') (both_tables (ch_forward_loop_ideal stall facade nt' ?s0'))"
    by (intro ch_forward_loop_ideal_related [OF heaps]) (simp_all add: both_tables_simps)
  then show ?thesis
    by (simp add: ch_search_source_phantom_ideal_def Let_def both_tables_simps)
qed

lemma ch_forward_phase_ideal_other:
  "i < row_idx s \<Longrightarrow> j < nt \<Longrightarrow>
   length (weights_table s) = length (durations_table s) \<Longrightarrow>
   flat_index i nt j < length (weights_table s) \<Longrightarrow>
   buckets_below nt (search_space_with_buckets s) \<Longrightarrow>
   cell_at (flat_index i nt j) (both_tables (ch_forward_phase_ideal stall facade nt sources s)) =
   cell_at (flat_index i nt j) (both_tables s)"
proof (induction sources arbitrary: s)
  case Nil
  show ?case by (simp add: ch_forward_phase_ideal_def)
next
  case (Cons p sources)
  let ?s1 = "ch_search_source_phantom_ideal stall facade nt p s"
  note props = ch_search_source_phantom_ideal_props [of stall facade nt p s]
  from Cons.prems(1) have ne: "row_idx s \<noteq> i" by simp
  have one: "cell_at (flat_index i nt j) (both_tables ?s1) = cell_at (flat_index i nt j) (both_tables s)"
    using ne Cons.prems(2,3,4,5) by (rule ch_search_source_phantom_ideal_other)
  from Cons.prems(1) props have a: "i < row_idx ?s1" by simp
  from Cons.prems(3) props have b: "length (weights_table ?s1) = length (durations_table ?s1)"
    by simp
  from Cons.prems(4) props have c: "flat_index i nt j < length (weights_table ?s1)" by simp
  from Cons.prems(5) props have d: "buckets_below nt (search_space_with_buckets ?s1)" by simp
  from Cons.IH [OF a Cons.prems(2) b c d] one show ?case
    by (simp add: ch_forward_phase_ideal_def)
qed

lemma ch_forward_phase_ideal_cell:
  "i < length sources \<Longrightarrow> j < nt \<Longrightarrow> j' < nt' \<Longrightarrow>
   buckets_below nt (search_space_with_buckets s) \<Longrightarrow>
   buckets_below nt' (search_space_with_buckets s') \<Longrightarrow>
   (\<forall>n. column_costs j (search_space_with_buckets s) n =
        column_costs j' (search_space_with_buckets s') n) \<Longrightarrow>
   length (weights_table s) = length (durations_table s) \<Longrightarrow>
   length (weights_table s') = length (durations_table s') \<Longrightarrow>
   flat_index (row_idx s + i) nt j < length (weights_table s) \<Longrightarrow>
   flat_index (row_idx s') nt' j' < length (weights_table s') \<Longrightarrow>
   cell_at (flat_index (row_idx s + i) nt j) (both_tables s) =
   cell_at (flat_index (row_idx s') nt' j') (both_tables s') \<Longrightarrow>
   cell_at (flat_index (row_idx s + i) nt j)
     (both_tables (ch_forward_phase_ideal stall facade nt sources s)) =
   cell_at (flat_index (row_idx s') nt' j')
     (both_tables (ch_search_source_phantom_ideal stall facade nt' (sources ! i) s'))"
proof (induction sources arbitrary: s i)
  case Nil
  then show ?case by simp
next
  case (Cons p sources)
  let ?s1 = "ch_search_source_phantom_ideal stall facade nt p s"
  note props = ch_search_source_phantom_ideal_props [of stall facade nt p s]
  note j = Cons.prems(2) and j' = Cons.prems(3) and below = Cons.prems(4)
    and below' = Cons.prems(5) and costs = Cons.prems(6) and len = Cons.prems(7)
    and len' = Cons.prems(8) and k = Cons.prems(9) and k' = Cons.prems(10)
    and cell = Cons.prems(11)
  from len props have len1: "length (weights_table ?s1) = length (durations_table ?s1)"
    by simp
  from below props have below1: "buckets_below nt (search_space_with_buckets ?s1)" by simp
  have phase: "ch_forward_phase_ideal stall facade nt (p # sources) s =
      ch_forward_phase_ideal stall facade nt sources ?s1"
    by (simp add: ch_forward_phase_ideal_def)
  show ?case
  proof (cases i)
    case 0
    from 0 k have k0: "flat_index (row_idx s) nt j < length (weights_table s)" by simp
    from 0 cell have cell0: "cell_at (flat_index (row_idx s) nt j) (both_tables s) =
        cell_at (flat_index (row_idx s') nt' j') (both_tables s')" by simp
    have one: "cell_at (flat_index (row_idx s) nt j) (both_tables ?s1) =
        cell_at (flat_index (row_idx s') nt' j')
          (both_tables (ch_search_source_phantom_ideal stall facade nt' p s'))"
      using j j' below below' costs len len' k0 k' cell0
      by (rule ch_search_source_phantom_ideal_related)
    from props have a: "row_idx s < row_idx ?s1" by simp
    from k0 props have c: "flat_index (row_idx s) nt j < length (weights_table ?s1)" by simp
    from ch_forward_phase_ideal_other [OF a j len1 c below1, of stall facade sources] one 0
    show ?thesis by (simp add: phase)
  next
    case (Suc i')
    from Suc Cons.prems(1) have i': "i' < length sources" by simp
    from props Suc have row: "row_idx ?s1 + i' = row_idx s + i" by simp
    have ne: "row_idx s \<noteq> row_idx s + i" using Suc by simp
    have one: "cell_at (flat_index (row_idx s + i) nt j) (both_tables ?s1) =
        cell_at (flat_index (row_idx s + i) nt j) (both_tables s)"
      using ne j len k below by (rule ch_search_source_phantom_ideal_other)
    from costs props have costs1:
      "\<forall>n. column_costs j (search_space_with_buckets ?s1) n =
           column_costs j' (search_space_with_buckets s') n" by simp
    have k1: "flat_index (row_idx ?s1 + i') nt j < length (weights_table ?s1)"
      unfolding row using k props by simp
    have cell1: "cell_at (flat_index (row_idx ?s1 + i') nt j) (both_tables ?s1) =
        cell_at (flat_index (row_idx s') nt' j') (both_tables s')"
      unfolding row using one cell by simp
    note ih = Cons.IH [OF i' j j' below1 below' costs1 len1 len' k1 k' cell1, unfolded row]
    from ih show ?thesis by (simp add: phase Suc)
  qed
qed

section \<open>The backward searches of a CH call\<close>

lemma ch_backwardRoutingStep_costs:
  "column_costs j (search_space_with_buckets (ch_backwardRoutingStep stall facade column s)) n =
   (case DeleteMin (query_heap s) of
      None \<Rightarrow> column_costs j (search_space_with_buckets s) n
    | Some (popped, heap) \<Rightarrow>
        if n = h_node popped \<and> column = j
        then column_costs j (search_space_with_buckets s) n @
               [(h_key popped, duration (h_data popped))]
        else column_costs j (search_space_with_buckets s) n)"
  by (simp add: ch_backwardRoutingStep_def Let_def column_costs_emplace_back costs_def
      split: option.splits)

lemma ch_backwardRoutingStep_heap:
  "query_heap s = query_heap s' \<Longrightarrow>
   query_heap (ch_backwardRoutingStep stall facade column s) =
   query_heap (ch_backwardRoutingStep stall facade column' s')"
  by (simp add: ch_backwardRoutingStep_def Let_def split: option.splits)

lemma ch_backward_loop_unfold:
  "\<not> Empty (query_heap s) \<Longrightarrow>
   ch_backward_loop stall facade s =
   ch_backward_loop stall facade (ch_backwardRoutingStep stall facade (column_idx s) s)"
  by (subst ch_backward_loop.simps) simp

lemma ch_backward_loop_done:
  "Empty (query_heap s) \<Longrightarrow> ch_backward_loop stall facade s = s"
  by (subst ch_backward_loop.simps) simp

lemma ch_backward_loop_related:
  "query_heap s = query_heap s' \<Longrightarrow>
   (\<forall>n. column_costs (column_idx s) (search_space_with_buckets s) n =
        column_costs (column_idx s') (search_space_with_buckets s') n) \<Longrightarrow>
   (\<forall>n. column_costs (column_idx s)
          (search_space_with_buckets (ch_backward_loop stall facade s)) n =
        column_costs (column_idx s')
          (search_space_with_buckets (ch_backward_loop stall facade s')) n)"
proof (induction stall facade s arbitrary: s' rule: ch_backward_loop.induct)
  case (1 stall facade s)
  note heaps = "1.prems"(1) and costs = "1.prems"(2)
  show ?case
  proof (cases "Empty (query_heap s)")
    case True
    with heaps have "Empty (query_heap s')" by simp
    with True costs show ?thesis by (simp add: ch_backward_loop_done)
  next
    case False
    with heaps have False': "\<not> Empty (query_heap s')" by simp
    let ?t = "ch_backwardRoutingStep stall facade (column_idx s) s"
    let ?t' = "ch_backwardRoutingStep stall facade (column_idx s') s'"
    note keeps = ch_backwardRoutingStep_keeps [of stall facade "column_idx s" s]
    note keeps' = ch_backwardRoutingStep_keeps [of stall facade "column_idx s'" s']
    from heaps have heaps1: "query_heap ?t = query_heap ?t'"
      by (rule ch_backwardRoutingStep_heap)
    from costs heaps have
      "\<forall>n. column_costs (column_idx s) (search_space_with_buckets ?t) n =
           column_costs (column_idx s') (search_space_with_buckets ?t') n"
      by (simp add: ch_backwardRoutingStep_costs split: option.splits)
    with keeps keeps' have costs1:
      "\<forall>n. column_costs (column_idx ?t) (search_space_with_buckets ?t) n =
           column_costs (column_idx ?t') (search_space_with_buckets ?t') n"
      by simp
    from "1.IH" [OF False heaps1 costs1] keeps keeps'
    have "\<forall>n. column_costs (column_idx s)
          (search_space_with_buckets (ch_backward_loop stall facade ?t)) n =
        column_costs (column_idx s')
          (search_space_with_buckets (ch_backward_loop stall facade ?t')) n"
      by simp
    with False False' show ?thesis
      by (simp add: ch_backward_loop_unfold [of s] ch_backward_loop_unfold [of s'])
  qed
qed

lemma ch_search_target_phantom_ideal_related:
  assumes "\<forall>n. column_costs (column_idx s) (search_space_with_buckets s) n =
        column_costs (column_idx s') (search_space_with_buckets s') n"
  shows "column_costs (column_idx s)
          (search_space_with_buckets (ch_search_target_phantom_ideal stall facade q s)) n =
        column_costs (column_idx s')
          (search_space_with_buckets (ch_search_target_phantom_ideal stall facade q s')) n"
proof -
  let ?s0 = "s\<lparr>query_heap := insertTargetInHeap ch_init (Clear (query_heap s)) q\<rparr>"
  let ?s0' = "s'\<lparr>query_heap := insertTargetInHeap ch_init (Clear (query_heap s')) q\<rparr>"
  have heaps: "query_heap ?s0 = query_heap ?s0'" by (simp add: Clear_def)
  from assms have costs:
    "\<forall>n. column_costs (column_idx ?s0) (search_space_with_buckets ?s0) n =
         column_costs (column_idx ?s0') (search_space_with_buckets ?s0') n"
    by simp
  from ch_backward_loop_related [OF heaps costs, of stall facade]
  show ?thesis
    by (simp add: ch_search_target_phantom_ideal_def Let_def)
qed

lemma ch_search_target_phantom_ideal_other:
  assumes "j \<noteq> column_idx s"
  shows "column_costs j
          (search_space_with_buckets (ch_search_target_phantom_ideal stall facade q s)) n =
        column_costs j (search_space_with_buckets s) n"
proof -
  define s0 where "s0 = s\<lparr>query_heap := insertTargetInHeap ch_init (Clear (query_heap s)) q\<rparr>"
  define P where "P = (\<lambda>t :: CHState.
    column_idx t = column_idx s \<and>
    column_costs j (search_space_with_buckets t) n =
    column_costs j (search_space_with_buckets s) n)"
  have start: "P s0"
    by (simp add: P_def s0_def)
  have step: "P (ch_backwardRoutingStep stall facade (column_idx t) t)" if "P t" for t
    using that assms ch_backwardRoutingStep_keeps [of stall facade "column_idx t" t]
    by (simp add: P_def ch_backwardRoutingStep_costs split: option.splits)
  from ch_backward_loop_rule [of P s0 stall facade, OF start] step
  have "P (ch_backward_loop stall facade s0)"
    by blast
  then show ?thesis
    by (simp add: ch_search_target_phantom_ideal_def Let_def s0_def [symmetric] P_def)
qed

lemma ch_backward_phase_ideal_other:
  "j < column_idx s \<Longrightarrow>
   column_costs j (search_space_with_buckets (ch_backward_phase_ideal stall facade targets s)) n =
   column_costs j (search_space_with_buckets s) n"
proof (induction targets arbitrary: s)
  case Nil
  show ?case by (simp add: ch_backward_phase_ideal_def)
next
  case (Cons q targets)
  let ?s1 = "ch_search_target_phantom_ideal stall facade q s"
  note props = ch_search_target_phantom_ideal_props [of stall facade q s]
  from Cons.prems have ne: "j \<noteq> column_idx s" by simp
  from Cons.prems props have a: "j < column_idx ?s1" by simp
  from Cons.IH [OF a] ch_search_target_phantom_ideal_other [OF ne, of stall facade q n]
  show ?case by (simp add: ch_backward_phase_ideal_def)
qed

lemma ch_backward_phase_ideal_costs:
  "j < length targets \<Longrightarrow>
   buckets_below (column_idx s) (search_space_with_buckets s) \<Longrightarrow>
   (\<forall>n. column_costs (column_idx s') (search_space_with_buckets s') n = []) \<Longrightarrow>
   column_costs (column_idx s + j)
     (search_space_with_buckets (ch_backward_phase_ideal stall facade targets s)) n =
   column_costs (column_idx s')
     (search_space_with_buckets (ch_search_target_phantom_ideal stall facade (targets ! j) s')) n"
proof (induction targets arbitrary: s j)
  case Nil
  then show ?case by simp
next
  case (Cons q targets)
  let ?s1 = "ch_search_target_phantom_ideal stall facade q s"
  note props = ch_search_target_phantom_ideal_props [of stall facade q s]
  have phase: "ch_backward_phase_ideal stall facade (q # targets) s =
      ch_backward_phase_ideal stall facade targets ?s1"
    by (simp add: ch_backward_phase_ideal_def)
  from Cons.prems(2) props have below1:
    "buckets_below (column_idx ?s1) (search_space_with_buckets ?s1)" by simp
  show ?case
  proof (cases j)
    case 0
    from Cons.prems(2) have "\<forall>n. column_costs (column_idx s) (search_space_with_buckets s) n = []"
      by (simp add: column_costs_below)
    with Cons.prems(3) have rel:
      "\<forall>n. column_costs (column_idx s) (search_space_with_buckets s) n =
           column_costs (column_idx s') (search_space_with_buckets s') n" by simp
    from props have a: "column_idx s < column_idx ?s1" by simp
    from ch_backward_phase_ideal_other [OF a, of stall facade targets n]
      ch_search_target_phantom_ideal_related [OF rel, of stall facade q n] 0
    show ?thesis by (simp add: phase)
  next
    case (Suc j')
    from Suc Cons.prems(1) have j': "j' < length targets" by simp
    from props Suc have col: "column_idx ?s1 + j' = column_idx s + j" by simp
    from Cons.IH [OF j' below1 Cons.prems(3)] col Suc
    show ?thesis by (simp add: phase)
  qed
qed

section \<open>The cells of a CH call\<close>

lemma ch_search_cell:
  assumes i: "i < length sources" and j: "j < length targets"
  shows "cell_at (flat_index i (length targets) j)
       (both_tables (ch_forward_phase_ideal stall facade (length targets) sources
                  (ch_backward_phase_ideal stall facade targets
                     (initial_state (length sources * length targets))))) =
     ch_cell_ideal stall facade (sources ! i) (targets ! j)"
proof -
  let ?n = "length sources * length targets"
  let ?init = "initial_state ?n :: CHState"
  let ?one = "initial_state 1 :: CHState"
  let ?sb = "ch_backward_phase_ideal stall facade targets ?init"
  let ?s' = "ch_search_target_phantom_ideal stall facade (targets ! j) ?one"
  note init = initial_state_props [of "length sources * length targets",
      where 'd = ManyToManyHeapData]
  note one = initial_state_props [of 1, where 'd = ManyToManyHeapData]
  note bprops = ch_backward_phase_ideal_props [of stall facade targets "?init"]
  note tp = ch_search_target_phantom_ideal_props [of stall facade "targets ! j" "?one"]
  from i j have k: "flat_index i (length targets) j < ?n" by (rule flat_index_bound)
  have empty: "\<forall>n. column_costs (column_idx ?one) (search_space_with_buckets ?one) n = []"
    by (simp add: initial_state_def column_costs_def bucket_list_at_def)
  from init have below0: "buckets_below (column_idx ?init) (search_space_with_buckets ?init)"
    by simp
  from ch_backward_phase_ideal_costs [OF j below0 empty, of stall facade] init one
  have costs: "\<forall>n. column_costs j (search_space_with_buckets ?sb) n =
      column_costs 0 (search_space_with_buckets ?s') n"
    by simp
  from bprops init have below: "buckets_below (length targets) (search_space_with_buckets ?sb)"
    by simp
  from tp one have below': "buckets_below 1 (search_space_with_buckets ?s')" by simp
  from bprops init have len: "length (weights_table ?sb) = length (durations_table ?sb)" by simp
  from tp one have len': "length (weights_table ?s') = length (durations_table ?s')" by simp
  from bprops init have row: "row_idx ?sb = 0" by simp
  from tp one have row': "row_idx ?s' = 0" by simp
  from bprops init k row have kb:
    "flat_index (row_idx ?sb + i) (length targets) j < length (weights_table ?sb)" by simp
  from tp one row' have kb': "flat_index (row_idx ?s') 1 0 < length (weights_table ?s')"
    by (simp add: flat_index_def)
  from bprops k have "cell_at (flat_index i (length targets) j) (both_tables ?sb) =
      (INVALID_EDGE_WEIGHT, MAXIMAL_EDGE_DURATION)"
    by (simp add: cell_at_def both_tables_def initial_state_def)
  moreover from tp have "cell_at 0 (both_tables ?s') = (INVALID_EDGE_WEIGHT, MAXIMAL_EDGE_DURATION)"
    by (simp add: cell_at_def both_tables_def initial_state_def)
  ultimately have cell: "cell_at (flat_index (row_idx ?sb + i) (length targets) j) (both_tables ?sb) =
      cell_at (flat_index (row_idx ?s') 1 0) (both_tables ?s')"
    using row row' by (simp add: flat_index_def)
  have "(0::nat) < 1" by simp
  from ch_forward_phase_ideal_cell [OF i j this below below' costs len len' kb kb' cell,
      of stall facade] row row'
  show ?thesis
    by (simp add: ch_cell_ideal_def Let_def cell_at_def both_tables_def flat_index_def)
qed

lemma ch_search_table:
  "durations_table (ch_forward_phase_ideal stall facade (length targets) sources
                  (ch_backward_phase_ideal stall facade targets
                     (initial_state (length sources * length targets)))) =
   row_major (\<lambda>source target. snd (ch_cell_ideal stall facade source target)) sources targets"
proof (rule nth_equalityI)
  let ?s = "ch_forward_phase_ideal stall facade (length targets) sources
                  (ch_backward_phase_ideal stall facade targets
                     (initial_state (length sources * length targets)))"
  let ?sb = "ch_backward_phase_ideal stall facade targets
                     (initial_state (length sources * length targets)) :: CHState"
  have len: "length (durations_table ?s) = length sources * length targets"
    using ch_forward_phase_ideal_props [of stall facade "length targets" sources ?sb]
      ch_backward_phase_ideal_props [of stall facade targets
        "initial_state (length sources * length targets)"]
      initial_state_props [of "length sources * length targets", where 'd = ManyToManyHeapData]
    by simp
  then show "length (durations_table ?s) =
      length (row_major (\<lambda>source target. snd (ch_cell_ideal stall facade source target))
                sources targets)"
    by (simp add: length_row_major)
  fix k assume "k < length (durations_table ?s)"
  with len have k: "k < length sources * length targets" by simp
  then have nt: "0 < length targets" by (cases "length targets") simp_all
  define i where "i = k div length targets"
  define j where "j = k mod length targets"
  from nt have j: "j < length targets" by (simp add: j_def)
  from k have i: "i < length sources"
    by (simp add: i_def less_mult_imp_div_less)
  have kij: "k = flat_index i (length targets) j"
    by (simp add: i_def j_def flat_index_def)
  have "snd (cell_at (flat_index i (length targets) j) (both_tables ?s)) =
      snd (ch_cell_ideal stall facade (sources ! i) (targets ! j))"
    by (simp only: ch_search_cell [OF i j])
  then have "durations_table ?s ! k = snd (ch_cell_ideal stall facade (sources ! i) (targets ! j))"
    by (simp add: kij cell_at_def both_tables_def)
  with nth_row_major [OF i j, of "\<lambda>source target. snd (ch_cell_ideal stall facade source target)"]
  show "durations_table ?s ! k =
      row_major (\<lambda>source target. snd (ch_cell_ideal stall facade source target)) sources targets ! k"
    by (simp add: kij)
qed

section \<open>The forward searches of an MLD call\<close>

lemma mld_forwardRoutingStep_ideal_cell:
  assumes "DeleteMin (query_heap s) = Some (popped, heap)" and "j < nt"
    and "length (weights_table s) = length (durations_table s)"
    and "flat_index i nt j < length (weights_table s)"
    and "buckets_below nt (search_space_with_buckets s)"
  shows "cell_at (flat_index i nt j) (both_tables (mld_forwardRoutingStep_ideal facade row nt parentCell s)) =
     (if row = i
      then foldl (\<lambda>cell x. mld_bucket_update (h_key popped)
                    (duration (h_data popped))
                    \<lparr>target_id = 0, target_weight = fst x, target_duration = snd x\<rparr> cell)
             (cell_at (flat_index i nt j) (both_tables s))
             (column_costs j (search_space_with_buckets s) (h_node popped))
      else cell_at (flat_index i nt j) (both_tables s))"
proof -
  let ?upd = "mld_bucket_update (h_key popped) (duration (h_data popped))"
  let ?updc = "\<lambda>x cell. ?upd \<lparr>target_id = 0, target_weight = fst x, target_duration = snd x\<rparr> cell"
  have eq: "both_tables (mld_forwardRoutingStep_ideal facade row nt parentCell s) =
      (case search_space_with_buckets s (h_node popped) of
         None \<Rightarrow> both_tables s
       | Some bucket_list \<Rightarrow> foldl (apply_bucket ?upd row nt) (both_tables s) bucket_list)"
    using assms(1)
    by (simp add: mld_forwardRoutingStep_ideal_def Let_def both_tables_def mld_bucket_step_ideal_apply
        split: option.splits)
  have c: "\<And>b cell. ?upd b cell = ?updc (costs b) cell"
    by (rule mld_bucket_update_costs)
  from assms(3) have len: "length (fst (both_tables s)) = length (snd (both_tables s))"
    by (simp add: both_tables_def)
  from assms(4) have k: "flat_index i nt j < length (fst (both_tables s))"
    by (simp add: both_tables_def)
  show ?thesis
    unfolding eq
    by (rule bucket_fold_cell [of ?upd ?updc, OF c assms(2) len k assms(5)])
qed

lemma mld_forwardRoutingStep_ideal_heap:
  "query_heap s = query_heap s' \<Longrightarrow>
   query_heap (mld_forwardRoutingStep_ideal facade row nt parentCell s) =
   query_heap (mld_forwardRoutingStep_ideal facade row' nt' parentCell s')"
  by (simp add: mld_forwardRoutingStep_ideal_def Let_def split: option.splits)

lemma mld_forward_loop_ideal_unfold:
  "\<not> Empty (query_heap s) \<Longrightarrow>
   mld_forward_loop_ideal facade nt parentCell s =
   mld_forward_loop_ideal facade nt parentCell (mld_forwardRoutingStep_ideal facade (row_idx s) nt parentCell s)"
  by (subst mld_forward_loop_ideal.simps) simp

lemma mld_forward_loop_ideal_done:
  "Empty (query_heap s) \<Longrightarrow> mld_forward_loop_ideal facade nt parentCell s = s"
  by (subst mld_forward_loop_ideal.simps) simp

lemma mld_forward_loop_ideal_related:
  "query_heap s = query_heap s' \<Longrightarrow>
   j < nt \<Longrightarrow> j' < nt' \<Longrightarrow>
   buckets_below nt (search_space_with_buckets s) \<Longrightarrow>
   buckets_below nt' (search_space_with_buckets s') \<Longrightarrow>
   (\<forall>n. column_costs j (search_space_with_buckets s) n =
        column_costs j' (search_space_with_buckets s') n) \<Longrightarrow>
   length (weights_table s) = length (durations_table s) \<Longrightarrow>
   length (weights_table s') = length (durations_table s') \<Longrightarrow>
   flat_index (row_idx s) nt j < length (weights_table s) \<Longrightarrow>
   flat_index (row_idx s') nt' j' < length (weights_table s') \<Longrightarrow>
   cell_at (flat_index (row_idx s) nt j) (both_tables s) =
   cell_at (flat_index (row_idx s') nt' j') (both_tables s') \<Longrightarrow>
   cell_at (flat_index (row_idx s) nt j) (both_tables (mld_forward_loop_ideal facade nt parentCell s)) =
   cell_at (flat_index (row_idx s') nt' j') (both_tables (mld_forward_loop_ideal facade nt' parentCell s'))"
proof (induction facade nt parentCell s arbitrary: s' rule: mld_forward_loop_ideal.induct)
  case (1 facade nt parentCell s)
  note heaps = "1.prems"(1) and j = "1.prems"(2) and j' = "1.prems"(3)
    and below = "1.prems"(4) and below' = "1.prems"(5) and costs = "1.prems"(6)
    and len = "1.prems"(7) and len' = "1.prems"(8) and k = "1.prems"(9) and k' = "1.prems"(10)
    and cell = "1.prems"(11)
  show ?case
  proof (cases "Empty (query_heap s)")
    case True
    with heaps have "Empty (query_heap s')" by simp
    with True cell show ?thesis by (simp add: mld_forward_loop_ideal_done)
  next
    case False
    with heaps have False': "\<not> Empty (query_heap s')" by simp
    let ?t = "mld_forwardRoutingStep_ideal facade (row_idx s) nt parentCell s"
    let ?t' = "mld_forwardRoutingStep_ideal facade (row_idx s') nt' parentCell s'"
    from False obtain popped heap where dm: "DeleteMin (query_heap s) = Some (popped, heap)"
      using DeleteMin_None [of "query_heap s"] by (cases "DeleteMin (query_heap s)") auto
    with heaps have dm': "DeleteMin (query_heap s') = Some (popped, heap)" by simp
    note keeps = mld_forwardRoutingStep_ideal_keeps [of facade "row_idx s" nt parentCell s]
    note keeps' = mld_forwardRoutingStep_ideal_keeps [of facade "row_idx s'" nt' parentCell s']
    from heaps have heaps1: "query_heap ?t = query_heap ?t'"
      by (rule mld_forwardRoutingStep_ideal_heap)
    from below keeps have below1: "buckets_below nt (search_space_with_buckets ?t)" by simp
    from below' keeps' have below1': "buckets_below nt' (search_space_with_buckets ?t')" by simp
    from costs keeps keeps' have costs1:
      "\<forall>n. column_costs j (search_space_with_buckets ?t) n =
           column_costs j' (search_space_with_buckets ?t') n" by simp
    from len keeps have len1: "length (weights_table ?t) = length (durations_table ?t)" by simp
    from len' keeps' have len1': "length (weights_table ?t') = length (durations_table ?t')"
      by simp
    from k keeps have k1: "flat_index (row_idx ?t) nt j < length (weights_table ?t)" by simp
    from k' keeps' have k1': "flat_index (row_idx ?t') nt' j' < length (weights_table ?t')"
      by simp
    from mld_forwardRoutingStep_ideal_cell [OF dm j len k below, of facade "row_idx s" parentCell]
      mld_forwardRoutingStep_ideal_cell [OF dm' j' len' k' below', of facade "row_idx s'" parentCell]
      costs cell
    have "cell_at (flat_index (row_idx s) nt j) (both_tables ?t) =
          cell_at (flat_index (row_idx s') nt' j') (both_tables ?t')"
      by simp
    with keeps keeps' have cell1: "cell_at (flat_index (row_idx ?t) nt j) (both_tables ?t) =
          cell_at (flat_index (row_idx ?t') nt' j') (both_tables ?t')"
      by simp
    from "1.IH" [OF False heaps1 j j' below1 below1' costs1 len1 len1' k1 k1' cell1] keeps keeps'
    have "cell_at (flat_index (row_idx s) nt j) (both_tables (mld_forward_loop_ideal facade nt parentCell ?t)) =
          cell_at (flat_index (row_idx s') nt' j')
            (both_tables (mld_forward_loop_ideal facade nt' parentCell ?t'))"
      by simp
    with False False' show ?thesis
      by (simp add: mld_forward_loop_ideal_unfold [of s] mld_forward_loop_ideal_unfold [of s'])
  qed
qed

lemma mld_search_source_phantom_ideal_other:
  assumes "row_idx s \<noteq> i" and "j < nt"
    and "length (weights_table s) = length (durations_table s)"
    and "flat_index i nt j < length (weights_table s)"
    and "buckets_below nt (search_space_with_buckets s)"
  shows "cell_at (flat_index i nt j) (both_tables (mld_search_source_phantom_ideal facade nt p parentCell s)) =
     cell_at (flat_index i nt j) (both_tables s)"
proof -
  define s0 where "s0 = s\<lparr>query_heap := insertSourceInHeap mld_init (Clear (query_heap s)) p\<rparr>"
  define P where "P = (\<lambda>t :: MLDState.
    search_space_with_buckets t = search_space_with_buckets s \<and> row_idx t = row_idx s \<and>
    length (weights_table t) = length (weights_table s) \<and>
    length (durations_table t) = length (durations_table s) \<and>
    cell_at (flat_index i nt j) (both_tables t) = cell_at (flat_index i nt j) (both_tables s))"
  have start: "P s0"
    by (simp add: P_def s0_def both_tables_simps)
  have step: "P (mld_forwardRoutingStep_ideal facade (row_idx t) nt parentCell t)"
    if Pt: "P t" and ne: "\<not> Empty (query_heap t)" for t
  proof -
    from ne obtain popped heap where dm: "DeleteMin (query_heap t) = Some (popped, heap)"
      using DeleteMin_None [of "query_heap t"] by (cases "DeleteMin (query_heap t)") auto
    from Pt assms(3) have len: "length (weights_table t) = length (durations_table t)"
      by (simp add: P_def)
    from Pt assms(4) have k: "flat_index i nt j < length (weights_table t)"
      by (simp add: P_def)
    from Pt assms(5) have below: "buckets_below nt (search_space_with_buckets t)"
      by (simp add: P_def)
    from Pt assms(1) have row: "row_idx t \<noteq> i" by (simp add: P_def)
    from mld_forwardRoutingStep_ideal_cell [OF dm assms(2) len k below, of facade "row_idx t" parentCell] row
    have "cell_at (flat_index i nt j)
            (both_tables (mld_forwardRoutingStep_ideal facade (row_idx t) nt parentCell t)) =
          cell_at (flat_index i nt j) (both_tables t)"
      by simp
    with Pt mld_forwardRoutingStep_ideal_keeps [of facade "row_idx t" nt parentCell t]
    show ?thesis by (simp add: P_def)
  qed
  from mld_forward_loop_ideal_rule [of P s0 facade nt parentCell, OF start] step
  have "P (mld_forward_loop_ideal facade nt parentCell s0)"
    by blast
  then show ?thesis
    by (simp add: mld_search_source_phantom_ideal_def Let_def s0_def [symmetric] P_def both_tables_simps)
qed

lemma mld_search_source_phantom_ideal_related:
  assumes "j < nt" and "j' < nt'"
    and "buckets_below nt (search_space_with_buckets s)"
    and "buckets_below nt' (search_space_with_buckets s')"
    and "\<forall>n. column_costs j (search_space_with_buckets s) n =
             column_costs j' (search_space_with_buckets s') n"
    and "length (weights_table s) = length (durations_table s)"
    and "length (weights_table s') = length (durations_table s')"
    and "flat_index (row_idx s) nt j < length (weights_table s)"
    and "flat_index (row_idx s') nt' j' < length (weights_table s')"
    and "cell_at (flat_index (row_idx s) nt j) (both_tables s) =
         cell_at (flat_index (row_idx s') nt' j') (both_tables s')"
  shows "cell_at (flat_index (row_idx s) nt j)
       (both_tables (mld_search_source_phantom_ideal facade nt p parentCell s)) =
     cell_at (flat_index (row_idx s') nt' j')
       (both_tables (mld_search_source_phantom_ideal facade nt' p parentCell s'))"
proof -
  let ?s0 = "s\<lparr>query_heap := insertSourceInHeap mld_init (Clear (query_heap s)) p\<rparr>"
  let ?s0' = "s'\<lparr>query_heap := insertSourceInHeap mld_init (Clear (query_heap s')) p\<rparr>"
  have heaps: "query_heap ?s0 = query_heap ?s0'" by (simp add: Clear_def)
  from assms have
    "cell_at (flat_index (row_idx ?s0) nt j) (both_tables (mld_forward_loop_ideal facade nt parentCell ?s0)) =
     cell_at (flat_index (row_idx ?s0') nt' j') (both_tables (mld_forward_loop_ideal facade nt' parentCell ?s0'))"
    by (intro mld_forward_loop_ideal_related [OF heaps]) (simp_all add: both_tables_simps)
  then show ?thesis
    by (simp add: mld_search_source_phantom_ideal_def Let_def both_tables_simps)
qed

section \<open>The backward searches of an MLD call\<close>

lemma mld_backwardRoutingStep_costs:
  "column_costs j (search_space_with_buckets (mld_backwardRoutingStep facade column parentCell s)) n =
   (case DeleteMin (query_heap s) of
      None \<Rightarrow> column_costs j (search_space_with_buckets s) n
    | Some (popped, heap) \<Rightarrow>
        if n = h_node popped \<and> column = j
        then column_costs j (search_space_with_buckets s) n @
               [(h_key popped, duration (h_data popped))]
        else column_costs j (search_space_with_buckets s) n)"
  by (simp add: mld_backwardRoutingStep_def Let_def column_costs_emplace_back costs_def
      split: option.splits)

lemma mld_backwardRoutingStep_heap:
  "query_heap s = query_heap s' \<Longrightarrow>
   query_heap (mld_backwardRoutingStep facade column parentCell s) =
   query_heap (mld_backwardRoutingStep facade column' parentCell s')"
  by (simp add: mld_backwardRoutingStep_def Let_def split: option.splits)

lemma mld_backward_loop_unfold:
  "\<not> Empty (query_heap s) \<Longrightarrow>
   mld_backward_loop facade parentCell s =
   mld_backward_loop facade parentCell (mld_backwardRoutingStep facade (column_idx s) parentCell s)"
  by (subst mld_backward_loop.simps) simp

lemma mld_backward_loop_done:
  "Empty (query_heap s) \<Longrightarrow> mld_backward_loop facade parentCell s = s"
  by (subst mld_backward_loop.simps) simp

lemma mld_backward_loop_related:
  "query_heap s = query_heap s' \<Longrightarrow>
   (\<forall>n. column_costs (column_idx s) (search_space_with_buckets s) n =
        column_costs (column_idx s') (search_space_with_buckets s') n) \<Longrightarrow>
   (\<forall>n. column_costs (column_idx s)
          (search_space_with_buckets (mld_backward_loop facade parentCell s)) n =
        column_costs (column_idx s')
          (search_space_with_buckets (mld_backward_loop facade parentCell s')) n)"
proof (induction facade parentCell s arbitrary: s' rule: mld_backward_loop.induct)
  case (1 facade parentCell s)
  note heaps = "1.prems"(1) and costs = "1.prems"(2)
  show ?case
  proof (cases "Empty (query_heap s)")
    case True
    with heaps have "Empty (query_heap s')" by simp
    with True costs show ?thesis by (simp add: mld_backward_loop_done)
  next
    case False
    with heaps have False': "\<not> Empty (query_heap s')" by simp
    let ?t = "mld_backwardRoutingStep facade (column_idx s) parentCell s"
    let ?t' = "mld_backwardRoutingStep facade (column_idx s') parentCell s'"
    note keeps = mld_backwardRoutingStep_keeps [of facade "column_idx s" parentCell s]
    note keeps' = mld_backwardRoutingStep_keeps [of facade "column_idx s'" parentCell s']
    from heaps have heaps1: "query_heap ?t = query_heap ?t'"
      by (rule mld_backwardRoutingStep_heap)
    from costs heaps have
      "\<forall>n. column_costs (column_idx s) (search_space_with_buckets ?t) n =
           column_costs (column_idx s') (search_space_with_buckets ?t') n"
      by (simp add: mld_backwardRoutingStep_costs split: option.splits)
    with keeps keeps' have costs1:
      "\<forall>n. column_costs (column_idx ?t) (search_space_with_buckets ?t) n =
           column_costs (column_idx ?t') (search_space_with_buckets ?t') n"
      by simp
    from "1.IH" [OF False heaps1 costs1] keeps keeps'
    have "\<forall>n. column_costs (column_idx s)
          (search_space_with_buckets (mld_backward_loop facade parentCell ?t)) n =
        column_costs (column_idx s')
          (search_space_with_buckets (mld_backward_loop facade parentCell ?t')) n"
      by simp
    with False False' show ?thesis
      by (simp add: mld_backward_loop_unfold [of s] mld_backward_loop_unfold [of s'])
  qed
qed

lemma mld_search_target_phantom_ideal_related:
  assumes "\<forall>n. column_costs (column_idx s) (search_space_with_buckets s) n =
        column_costs (column_idx s') (search_space_with_buckets s') n"
  shows "column_costs (column_idx s)
          (search_space_with_buckets (mld_search_target_phantom_ideal facade q parentCell s)) n =
        column_costs (column_idx s')
          (search_space_with_buckets (mld_search_target_phantom_ideal facade q parentCell s')) n"
proof -
  let ?s0 = "s\<lparr>query_heap := insertTargetInHeap mld_init (Clear (query_heap s)) q\<rparr>"
  let ?s0' = "s'\<lparr>query_heap := insertTargetInHeap mld_init (Clear (query_heap s')) q\<rparr>"
  have heaps: "query_heap ?s0 = query_heap ?s0'" by (simp add: Clear_def)
  from assms have costs:
    "\<forall>n. column_costs (column_idx ?s0) (search_space_with_buckets ?s0) n =
         column_costs (column_idx ?s0') (search_space_with_buckets ?s0') n"
    by simp
  from mld_backward_loop_related [OF heaps costs, of facade parentCell]
  show ?thesis
    by (simp add: mld_search_target_phantom_ideal_def Let_def)
qed

lemma mld_search_target_phantom_ideal_other:
  assumes "j \<noteq> column_idx s"
  shows "column_costs j
          (search_space_with_buckets (mld_search_target_phantom_ideal facade q parentCell s)) n =
        column_costs j (search_space_with_buckets s) n"
proof -
  define s0 where "s0 = s\<lparr>query_heap := insertTargetInHeap mld_init (Clear (query_heap s)) q\<rparr>"
  define P where "P = (\<lambda>t :: MLDState.
    column_idx t = column_idx s \<and>
    column_costs j (search_space_with_buckets t) n =
    column_costs j (search_space_with_buckets s) n)"
  have start: "P s0"
    by (simp add: P_def s0_def)
  have step: "P (mld_backwardRoutingStep facade (column_idx t) parentCell t)" if "P t" for t
    using that assms mld_backwardRoutingStep_keeps [of facade "column_idx t" parentCell t]
    by (simp add: P_def mld_backwardRoutingStep_costs split: option.splits)
  from mld_backward_loop_rule [of P s0 facade parentCell, OF start] step
  have "P (mld_backward_loop facade parentCell s0)"
    by blast
  then show ?thesis
    by (simp add: mld_search_target_phantom_ideal_def Let_def s0_def [symmetric] P_def)
qed

lemma mld_forward_phase_ideal_other:
  "i < row_idx s \<Longrightarrow> j < nt \<Longrightarrow>
   length (weights_table s) = length (durations_table s) \<Longrightarrow>
   flat_index i nt j < length (weights_table s) \<Longrightarrow>
   buckets_below nt (search_space_with_buckets s) \<Longrightarrow>
   cell_at (flat_index i nt j) (both_tables (mld_forward_phase_ideal facade nt others sources s)) =
   cell_at (flat_index i nt j) (both_tables s)"
proof (induction sources arbitrary: s)
  case Nil
  show ?case by (simp add: mld_forward_phase_ideal_def)
next
  case (Cons p sources)
  let ?s1 = "mld_search_source_phantom_ideal facade nt p
          (parent_cell (multi_level_partition facade) p others) s"
  note props = mld_search_source_phantom_ideal_props [of facade nt p "parent_cell (multi_level_partition facade) p others" s]
  from Cons.prems(1) have ne: "row_idx s \<noteq> i" by simp
  have one: "cell_at (flat_index i nt j) (both_tables ?s1) = cell_at (flat_index i nt j) (both_tables s)"
    using ne Cons.prems(2,3,4,5) by (rule mld_search_source_phantom_ideal_other)
  from Cons.prems(1) props have a: "i < row_idx ?s1" by simp
  from Cons.prems(3) props have b: "length (weights_table ?s1) = length (durations_table ?s1)"
    by simp
  from Cons.prems(4) props have c: "flat_index i nt j < length (weights_table ?s1)" by simp
  from Cons.prems(5) props have d: "buckets_below nt (search_space_with_buckets ?s1)" by simp
  from Cons.IH [OF a Cons.prems(2) b c d] one show ?case
    by (simp add: mld_forward_phase_ideal_def)
qed

lemma mld_forward_phase_ideal_cell:
  "i < length sources \<Longrightarrow> j < nt \<Longrightarrow> j' < nt' \<Longrightarrow>
   buckets_below nt (search_space_with_buckets s) \<Longrightarrow>
   buckets_below nt' (search_space_with_buckets s') \<Longrightarrow>
   (\<forall>n. column_costs j (search_space_with_buckets s) n =
        column_costs j' (search_space_with_buckets s') n) \<Longrightarrow>
   length (weights_table s) = length (durations_table s) \<Longrightarrow>
   length (weights_table s') = length (durations_table s') \<Longrightarrow>
   flat_index (row_idx s + i) nt j < length (weights_table s) \<Longrightarrow>
   flat_index (row_idx s') nt' j' < length (weights_table s') \<Longrightarrow>
   cell_at (flat_index (row_idx s + i) nt j) (both_tables s) =
   cell_at (flat_index (row_idx s') nt' j') (both_tables s') \<Longrightarrow>
   cell_at (flat_index (row_idx s + i) nt j)
     (both_tables (mld_forward_phase_ideal facade nt others sources s)) =
   cell_at (flat_index (row_idx s') nt' j')
     (both_tables (mld_search_source_phantom_ideal facade nt' (sources ! i)
          (parent_cell (multi_level_partition facade) (sources ! i) others) s'))"
proof (induction sources arbitrary: s i)
  case Nil
  then show ?case by simp
next
  case (Cons p sources)
  let ?s1 = "mld_search_source_phantom_ideal facade nt p
          (parent_cell (multi_level_partition facade) p others) s"
  note props = mld_search_source_phantom_ideal_props [of facade nt p "parent_cell (multi_level_partition facade) p others" s]
  note j = Cons.prems(2) and j' = Cons.prems(3) and below = Cons.prems(4)
    and below' = Cons.prems(5) and costs = Cons.prems(6) and len = Cons.prems(7)
    and len' = Cons.prems(8) and k = Cons.prems(9) and k' = Cons.prems(10)
    and cell = Cons.prems(11)
  from len props have len1: "length (weights_table ?s1) = length (durations_table ?s1)"
    by simp
  from below props have below1: "buckets_below nt (search_space_with_buckets ?s1)" by simp
  have phase: "mld_forward_phase_ideal facade nt others (p # sources) s =
      mld_forward_phase_ideal facade nt others sources ?s1"
    by (simp add: mld_forward_phase_ideal_def)
  show ?case
  proof (cases i)
    case 0
    from 0 k have k0: "flat_index (row_idx s) nt j < length (weights_table s)" by simp
    from 0 cell have cell0: "cell_at (flat_index (row_idx s) nt j) (both_tables s) =
        cell_at (flat_index (row_idx s') nt' j') (both_tables s')" by simp
    have one: "cell_at (flat_index (row_idx s) nt j) (both_tables ?s1) =
        cell_at (flat_index (row_idx s') nt' j')
          (both_tables (mld_search_source_phantom_ideal facade nt' p
          (parent_cell (multi_level_partition facade) p others) s'))"
      using j j' below below' costs len len' k0 k' cell0
      by (rule mld_search_source_phantom_ideal_related)
    from props have a: "row_idx s < row_idx ?s1" by simp
    from k0 props have c: "flat_index (row_idx s) nt j < length (weights_table ?s1)" by simp
    from mld_forward_phase_ideal_other [OF a j len1 c below1, of facade others sources] one 0
    show ?thesis by (simp add: phase)
  next
    case (Suc i')
    from Suc Cons.prems(1) have i': "i' < length sources" by simp
    from props Suc have row: "row_idx ?s1 + i' = row_idx s + i" by simp
    have ne: "row_idx s \<noteq> row_idx s + i" using Suc by simp
    have one: "cell_at (flat_index (row_idx s + i) nt j) (both_tables ?s1) =
        cell_at (flat_index (row_idx s + i) nt j) (both_tables s)"
      using ne j len k below by (rule mld_search_source_phantom_ideal_other)
    from costs props have costs1:
      "\<forall>n. column_costs j (search_space_with_buckets ?s1) n =
           column_costs j' (search_space_with_buckets s') n" by simp
    have k1: "flat_index (row_idx ?s1 + i') nt j < length (weights_table ?s1)"
      unfolding row using k props by simp
    have cell1: "cell_at (flat_index (row_idx ?s1 + i') nt j) (both_tables ?s1) =
        cell_at (flat_index (row_idx s') nt' j') (both_tables s')"
      unfolding row using one cell by simp
    note ih = Cons.IH [OF i' j j' below1 below' costs1 len1 len' k1 k' cell1, unfolded row]
    from ih show ?thesis by (simp add: phase Suc)
  qed
qed

lemma mld_backward_phase_ideal_other:
  "j < column_idx s \<Longrightarrow>
   column_costs j (search_space_with_buckets (mld_backward_phase_ideal facade others targets s)) n =
   column_costs j (search_space_with_buckets s) n"
proof (induction targets arbitrary: s)
  case Nil
  show ?case by (simp add: mld_backward_phase_ideal_def)
next
  case (Cons q targets)
  let ?s1 = "mld_search_target_phantom_ideal facade q
          (parent_cell (multi_level_partition facade) q others) s"
  note props = mld_search_target_phantom_ideal_props [of facade q "parent_cell (multi_level_partition facade) q others" s]
  from Cons.prems have ne: "j \<noteq> column_idx s" by simp
  from Cons.prems props have a: "j < column_idx ?s1" by simp
  from Cons.IH [OF a] mld_search_target_phantom_ideal_other [OF ne, of facade q "parent_cell (multi_level_partition facade) q others" n]
  show ?case by (simp add: mld_backward_phase_ideal_def)
qed

lemma mld_backward_phase_ideal_costs:
  "j < length targets \<Longrightarrow>
   buckets_below (column_idx s) (search_space_with_buckets s) \<Longrightarrow>
   (\<forall>n. column_costs (column_idx s') (search_space_with_buckets s') n = []) \<Longrightarrow>
   column_costs (column_idx s + j)
     (search_space_with_buckets (mld_backward_phase_ideal facade others targets s)) n =
   column_costs (column_idx s')
     (search_space_with_buckets (mld_search_target_phantom_ideal facade (targets ! j)
          (parent_cell (multi_level_partition facade) (targets ! j) others) s')) n"
proof (induction targets arbitrary: s j)
  case Nil
  then show ?case by simp
next
  case (Cons q targets)
  let ?s1 = "mld_search_target_phantom_ideal facade q
          (parent_cell (multi_level_partition facade) q others) s"
  note props = mld_search_target_phantom_ideal_props [of facade q "parent_cell (multi_level_partition facade) q others" s]
  have phase: "mld_backward_phase_ideal facade others (q # targets) s =
      mld_backward_phase_ideal facade others targets ?s1"
    by (simp add: mld_backward_phase_ideal_def)
  from Cons.prems(2) props have below1:
    "buckets_below (column_idx ?s1) (search_space_with_buckets ?s1)" by simp
  show ?case
  proof (cases j)
    case 0
    from Cons.prems(2) have "\<forall>n. column_costs (column_idx s) (search_space_with_buckets s) n = []"
      by (simp add: column_costs_below)
    with Cons.prems(3) have rel:
      "\<forall>n. column_costs (column_idx s) (search_space_with_buckets s) n =
           column_costs (column_idx s') (search_space_with_buckets s') n" by simp
    from props have a: "column_idx s < column_idx ?s1" by simp
    from mld_backward_phase_ideal_other [OF a, of facade others targets n]
      mld_search_target_phantom_ideal_related [OF rel, of facade q "parent_cell (multi_level_partition facade) q others" n] 0
    show ?thesis by (simp add: phase)
  next
    case (Suc j')
    from Suc Cons.prems(1) have j': "j' < length targets" by simp
    from props Suc have col: "column_idx ?s1 + j' = column_idx s + j" by simp
    from Cons.IH [OF j' below1 Cons.prems(3)] col Suc
    show ?thesis by (simp add: phase)
  qed
qed

section \<open>The cells of an MLD call\<close>

lemma mld_search_cell:
  assumes i: "i < length sources" and j: "j < length targets"
  shows "cell_at (flat_index i (length targets) j)
       (both_tables (mld_forward_phase_ideal facade (length targets) others sources
                  (mld_backward_phase_ideal facade others' targets
                     (initial_state (length sources * length targets))))) =
     mld_cell_ideal facade (sources ! i) (parent_cell (multi_level_partition facade) (sources ! i) others)
       (targets ! j) (parent_cell (multi_level_partition facade) (targets ! j) others')"
proof -
  let ?n = "length sources * length targets"
  let ?init = "initial_state ?n :: MLDState"
  let ?one = "initial_state 1 :: MLDState"
  let ?sb = "mld_backward_phase_ideal facade others' targets ?init"
  let ?pc = "parent_cell (multi_level_partition facade) (targets ! j) others'"
  let ?s' = "mld_search_target_phantom_ideal facade (targets ! j) ?pc ?one"
  note init = initial_state_props [of "length sources * length targets", where 'd = MLDHeapData]
  note one = initial_state_props [of 1, where 'd = MLDHeapData]
  note bprops = mld_backward_phase_ideal_props [of facade others' targets "?init"]
  note tp = mld_search_target_phantom_ideal_props [of facade "targets ! j" "?pc" "?one"]
  from i j have k: "flat_index i (length targets) j < ?n" by (rule flat_index_bound)
  have empty: "\<forall>n. column_costs (column_idx ?one) (search_space_with_buckets ?one) n = []"
    by (simp add: initial_state_def column_costs_def bucket_list_at_def)
  from init have below0: "buckets_below (column_idx ?init) (search_space_with_buckets ?init)"
    by simp
  from mld_backward_phase_ideal_costs [OF j below0 empty, of facade others'] init one
  have costs: "\<forall>n. column_costs j (search_space_with_buckets ?sb) n =
      column_costs 0 (search_space_with_buckets ?s') n"
    by simp
  from bprops init have below: "buckets_below (length targets) (search_space_with_buckets ?sb)"
    by simp
  from tp one have below': "buckets_below 1 (search_space_with_buckets ?s')" by simp
  from bprops init have len: "length (weights_table ?sb) = length (durations_table ?sb)" by simp
  from tp one have len': "length (weights_table ?s') = length (durations_table ?s')" by simp
  from bprops init have row: "row_idx ?sb = 0" by simp
  from tp one have row': "row_idx ?s' = 0" by simp
  from bprops init k row have kb:
    "flat_index (row_idx ?sb + i) (length targets) j < length (weights_table ?sb)" by simp
  from tp one row' have kb': "flat_index (row_idx ?s') 1 0 < length (weights_table ?s')"
    by (simp add: flat_index_def)
  from bprops k have "cell_at (flat_index i (length targets) j) (both_tables ?sb) =
      (INVALID_EDGE_WEIGHT, MAXIMAL_EDGE_DURATION)"
    by (simp add: cell_at_def both_tables_def initial_state_def)
  moreover from tp have "cell_at 0 (both_tables ?s') = (INVALID_EDGE_WEIGHT, MAXIMAL_EDGE_DURATION)"
    by (simp add: cell_at_def both_tables_def initial_state_def)
  ultimately have cell: "cell_at (flat_index (row_idx ?sb + i) (length targets) j) (both_tables ?sb) =
      cell_at (flat_index (row_idx ?s') 1 0) (both_tables ?s')"
    using row row' by (simp add: flat_index_def)
  have "(0::nat) < 1" by simp
  from mld_forward_phase_ideal_cell [OF i j this below below' costs len len' kb kb' cell,
      of facade others] row row'
  show ?thesis
    by (simp add: mld_cell_ideal_def Let_def cell_at_def both_tables_def flat_index_def)
qed

lemma mld_search_table:
  "durations_table (mld_forward_phase_ideal facade (length targets) targets sources
                  (mld_backward_phase_ideal facade sources targets
                     (initial_state (length sources * length targets)))) =
   mld_table_ideal facade sources targets"
proof (rule nth_equalityI)
  let ?s = "mld_forward_phase_ideal facade (length targets) targets sources
                  (mld_backward_phase_ideal facade sources targets
                     (initial_state (length sources * length targets)))"
  let ?sb = "mld_backward_phase_ideal facade sources targets
                     (initial_state (length sources * length targets)) :: MLDState"
  let ?cell = "\<lambda>source target.
                  snd (mld_cell_ideal facade source
                         (parent_cell (multi_level_partition facade) source targets) target
                         (parent_cell (multi_level_partition facade) target sources))"
  have len: "length (durations_table ?s) = length sources * length targets"
    using mld_forward_phase_ideal_props [of facade "length targets" targets sources "?sb"]
      mld_backward_phase_ideal_props [of facade sources targets
        "initial_state (length sources * length targets)"]
      initial_state_props [of "length sources * length targets", where 'd = MLDHeapData]
    by simp
  then show "length (durations_table ?s) = length (mld_table_ideal facade sources targets)"
    by (simp add: mld_table_ideal_def length_row_major)
  fix k assume "k < length (durations_table ?s)"
  with len have k: "k < length sources * length targets" by simp
  then have nt: "0 < length targets" by (cases "length targets") simp_all
  define i where "i = k div length targets"
  define j where "j = k mod length targets"
  from nt have j: "j < length targets" by (simp add: j_def)
  from k have i: "i < length sources"
    by (simp add: i_def less_mult_imp_div_less)
  have kij: "k = flat_index i (length targets) j"
    by (simp add: i_def j_def flat_index_def)
  have "snd (cell_at (flat_index i (length targets) j) (both_tables ?s)) =
      ?cell (sources ! i) (targets ! j)"
    by (simp only: mld_search_cell [OF i j])
  then have "durations_table ?s ! k = ?cell (sources ! i) (targets ! j)"
    by (simp add: kij cell_at_def both_tables_def)
  with nth_row_major [OF i j, of ?cell]
  show "durations_table ?s ! k = mld_table_ideal facade sources targets ! k"
    by (simp add: kij mld_table_ideal_def)
qed

lemma indices_valid_all: "indices_valid phantom_nodes [0..<length phantom_nodes]"
  by (simp add: indices_valid_def)

lemma selected_all:
  "selected phantom_nodes [0..<length phantom_nodes] = selected phantom_nodes []"
  by (simp add: selected_def map_nth)

section \<open>The searches of the source compute the searches in exact arithmetic\<close>

lemma to_unsigned_small: "n < 2 ^ 32 \<Longrightarrow> to_unsigned n = n"
  by (simp add: to_unsigned_def unat_of_nat)

lemma to_size_t_small: "n < 2 ^ 32 \<Longrightarrow> to_size_t n = n"
proof -
  assume "n < 2 ^ 32"
  also have "(2 :: nat) ^ 32 < 2 ^ 64" by simp
  finally show ?thesis by (simp add: to_size_t_def unat_of_nat)
qed

lemma table_index_mod:
  "table_index row nt column = (row * nt + column) mod 2 ^ 32"
proof -
  have "(of_nat row :: 32 word) * of_nat nt + of_nat column = of_nat (row * nt + column)"
    by simp
  then show ?thesis by (simp only: table_index_def unat_of_nat) simp
qed

lemma table_index_in_range:
  assumes "row < ns" and "column < nt" and "ns * nt < 2 ^ 32"
  shows "table_index row nt column = flat_index row nt column"
proof -
  from assms(1,2) have "flat_index row nt column < ns * nt" by (rule flat_index_bound)
  with assms(3) have "row * nt + column < 2 ^ 32" by (simp add: flat_index_def)
  then show ?thesis by (simp add: table_index_mod flat_index_def)
qed

lemma ch_bucket_step_in_range:
  assumes "table_index row nt (target_id b) = flat_index row nt (target_id b)"
    and "flat_index row nt (target_id b) < length (fst tables)"
    and "flat_index row nt (target_id b) < length (snd tables)"
  shows "ch_bucket_step facade node sw sd row nt tables b =
     Inr (ch_bucket_step_ideal facade node sw sd row nt tables b)"
  using assms by (simp add: ch_bucket_step_def ch_bucket_step_ideal_def Let_def)

lemma ch_buckets_in_range:
  assumes "row < ns" and "ns * nt < 2 ^ 32"
  shows "length (fst tables) = ns * nt \<Longrightarrow> length (snd tables) = ns * nt \<Longrightarrow>
     \<forall>b \<in> set bucket_list. target_id b < nt \<Longrightarrow>
     for_each_bucket (ch_bucket_step facade node sw sd row nt) tables bucket_list =
     Inr (foldl (ch_bucket_step_ideal facade node sw sd row nt) tables bucket_list)"
proof (induction bucket_list arbitrary: tables)
  case Nil
  show ?case by simp
next
  case (Cons b bucket_list)
  from Cons.prems(3) have b: "target_id b < nt" by simp
  from assms(1) b have k: "flat_index row nt (target_id b) < ns * nt"
    by (rule flat_index_bound)
  from table_index_in_range [OF assms(1) b assms(2)]
  have eq: "table_index row nt (target_id b) = flat_index row nt (target_id b)" .
  from k Cons.prems(1,2) have
    step: "ch_bucket_step facade node sw sd row nt tables b =
      Inr (ch_bucket_step_ideal facade node sw sd row nt tables b)"
    by (intro ch_bucket_step_in_range [OF eq]) simp_all
  let ?t = "ch_bucket_step_ideal facade node sw sd row nt tables b"
  from Cons.prems(1) have l1: "length (fst ?t) = ns * nt"
    by (simp add: ch_bucket_step_ideal_def Let_def)
  from Cons.prems(2) have l2: "length (snd ?t) = ns * nt"
    by (simp add: ch_bucket_step_ideal_def Let_def)
  from Cons.prems(3) have rest: "\<forall>b \<in> set bucket_list. target_id b < nt" by simp
  from Cons.IH [OF l1 l2 rest] step show ?case by simp
qed

lemma ch_forwardRoutingStep_in_range:
  assumes "row < ns" and "ns * nt < 2 ^ 32"
    and "length (weights_table s) = ns * nt" and "length (durations_table s) = ns * nt"
    and "buckets_below nt (search_space_with_buckets s)"
  shows "ch_forwardRoutingStep stall facade row nt s =
     Inr (ch_forwardRoutingStep_ideal stall facade row nt s)"
proof (cases "DeleteMin (query_heap s)")
  case None
  then show ?thesis
    by (simp add: ch_forwardRoutingStep_def ch_forwardRoutingStep_ideal_def)
next
  case (Some popped_heap)
  obtain popped heap where ph: "popped_heap = (popped, heap)" by (cases popped_heap)
  show ?thesis
  proof (cases "search_space_with_buckets s (h_node popped)")
    case None
    with Some ph show ?thesis
      by (simp add: ch_forwardRoutingStep_def ch_forwardRoutingStep_ideal_def Let_def)
  next
    case (Some bucket_list)
    with assms(5) have "\<forall>b \<in> set bucket_list. target_id b < nt"
      by (simp add: buckets_below_def)
    with assms(3,4) have "for_each_bucket
        (ch_bucket_step facade (h_node popped) (h_key popped) (duration (h_data popped)) row nt)
        (weights_table s, durations_table s) bucket_list =
      Inr (foldl (ch_bucket_step_ideal facade (h_node popped) (h_key popped)
                    (duration (h_data popped)) row nt)
             (weights_table s, durations_table s) bucket_list)"
      by (intro ch_buckets_in_range [OF assms(1,2)]) simp_all
    with \<open>DeleteMin (query_heap s) = Some popped_heap\<close> ph Some show ?thesis
      by (simp add: ch_forwardRoutingStep_def ch_forwardRoutingStep_ideal_def Let_def)
  qed
qed

lemma ch_forward_loop_step:
  "\<not> Empty (query_heap s) \<Longrightarrow> ch_forwardRoutingStep stall facade (row_idx s) nt s = Inr t \<Longrightarrow>
   ch_forward_loop stall facade nt s = ch_forward_loop stall facade nt t"
  by (subst ch_forward_loop.simps) simp

lemma ch_forward_loop_stop:
  "Empty (query_heap s) \<Longrightarrow> ch_forward_loop stall facade nt s = Inr s"
  by (subst ch_forward_loop.simps) simp

lemma ch_forward_loop_fail:
  "\<not> Empty (query_heap s) \<Longrightarrow> ch_forwardRoutingStep stall facade (row_idx s) nt s = Inl e \<Longrightarrow>
   ch_forward_loop stall facade nt s = Inl e"
  by (subst ch_forward_loop.simps) simp

lemma ch_forward_loop_in_range:
  "row_idx s < ns \<Longrightarrow> ns * nt < 2 ^ 32 \<Longrightarrow>
   length (weights_table s) = ns * nt \<Longrightarrow> length (durations_table s) = ns * nt \<Longrightarrow>
   buckets_below nt (search_space_with_buckets s) \<Longrightarrow>
   ch_forward_loop stall facade nt s = Inr (ch_forward_loop_ideal stall facade nt s)"
proof (induction stall facade nt s rule: ch_forward_loop_ideal.induct)
  case (1 stall facade nt s)
  show ?case
  proof (cases "Empty (query_heap s)")
    case True
    then show ?thesis by (simp add: ch_forward_loop_stop ch_forward_loop_ideal_done)
  next
    case False
    let ?t = "ch_forwardRoutingStep_ideal stall facade (row_idx s) nt s"
    note keeps = ch_forwardRoutingStep_ideal_keeps [of stall facade "row_idx s" nt s]
    from "1.prems" have step: "ch_forwardRoutingStep stall facade (row_idx s) nt s = Inr ?t"
      by (intro ch_forwardRoutingStep_in_range)
    from "1.prems"(1) keeps have a: "row_idx ?t < ns" by simp
    from "1.prems"(3) keeps have c: "length (weights_table ?t) = ns * nt" by simp
    from "1.prems"(4) keeps have d: "length (durations_table ?t) = ns * nt" by simp
    from "1.prems"(5) keeps have e: "buckets_below nt (search_space_with_buckets ?t)" by simp
    from "1.IH" [OF False a "1.prems"(2) c d e] False step show ?thesis
      by (simp add: ch_forward_loop_step ch_forward_loop_ideal_unfold [of s])
  qed
qed

lemma ch_search_source_phantom_in_range:
  assumes "row_idx s < ns" and "ns < 2 ^ 32" and "nt < 2 ^ 32" and "ns * nt < 2 ^ 32"
    and "length (weights_table s) = ns * nt" and "length (durations_table s) = ns * nt"
    and "buckets_below nt (search_space_with_buckets s)"
  shows "ch_search_source_phantom stall facade nt p s =
     Inr (ch_search_source_phantom_ideal stall facade nt p s)"
proof -
  let ?s0 = "s\<lparr>query_heap := insertSourceInHeap ch_init (Clear (query_heap s)) p\<rparr>"
  let ?s1 = "ch_forward_loop_ideal stall facade nt ?s0"
  from assms(1) have a: "row_idx ?s0 < ns" by simp
  from assms(5) have b: "length (weights_table ?s0) = ns * nt" by simp
  from assms(6) have c: "length (durations_table ?s0) = ns * nt" by simp
  from assms(7) have d: "buckets_below nt (search_space_with_buckets ?s0)" by simp
  from a assms(4) b c d have loop: "ch_forward_loop stall facade nt ?s0 = Inr ?s1"
    by (rule ch_forward_loop_in_range)
  from ch_search_source_phantom_ideal_props [of stall facade nt p s]
  have r: "row_idx ?s1 = row_idx s"
    by (simp add: ch_search_source_phantom_ideal_def Let_def)
  from assms(1,2) have "row_idx s + 1 < 2 ^ 32" by linarith
  then have unsigned: "to_unsigned (row_idx ?s1 + 1) = row_idx ?s1 + 1"
    unfolding r by (rule to_unsigned_small)
  from assms(3) have nt: "to_unsigned nt = nt" by (rule to_unsigned_small)
  show ?thesis
    unfolding ch_search_source_phantom_def ch_search_source_phantom_ideal_def Let_def nt loop
      sum.case unsigned ..
qed

lemma ch_forward_phase_in_range:
  assumes "ns < 2 ^ 32" and "nt < 2 ^ 32" and "ns * nt < 2 ^ 32"
  shows "row_idx s + length sources \<le> ns \<Longrightarrow>
     length (weights_table s) = ns * nt \<Longrightarrow> length (durations_table s) = ns * nt \<Longrightarrow>
     buckets_below nt (search_space_with_buckets s) \<Longrightarrow>
     ch_forward_phase stall facade nt sources s =
     Inr (ch_forward_phase_ideal stall facade nt sources s)"
proof (induction sources arbitrary: s)
  case Nil
  show ?case by (simp add: ch_forward_phase_def ch_forward_phase_ideal_def)
next
  case (Cons p sources)
  let ?s1 = "ch_search_source_phantom_ideal stall facade nt p s"
  note props = ch_search_source_phantom_ideal_props [of stall facade nt p s]
  from Cons.prems(1) have row: "row_idx s < ns" by simp
  from row assms Cons.prems(2,3,4)
  have one: "ch_search_source_phantom stall facade nt p s = Inr ?s1"
    by (rule ch_search_source_phantom_in_range)
  from Cons.prems(1) props have a: "row_idx ?s1 + length sources \<le> ns" by simp
  from Cons.prems(2) props have b: "length (weights_table ?s1) = ns * nt" by simp
  from Cons.prems(3) props have c: "length (durations_table ?s1) = ns * nt" by simp
  from Cons.prems(4) props have d: "buckets_below nt (search_space_with_buckets ?s1)" by simp
  from Cons.IH [OF a b c d] one show ?case
    by (simp add: ch_forward_phase_def ch_forward_phase_ideal_def)
qed

lemma ch_search_target_phantom_in_range:
  assumes "column_idx s + 1 < 2 ^ 32"
  shows "ch_search_target_phantom stall facade p s =
     ch_search_target_phantom_ideal stall facade p s"
proof -
  let ?s0 = "s\<lparr>query_heap := insertTargetInHeap ch_init (Clear (query_heap s)) p\<rparr>"
  from ch_search_target_phantom_ideal_props [of stall facade p s]
  have "column_idx (ch_backward_loop stall facade ?s0) = column_idx s"
    by (simp add: ch_search_target_phantom_ideal_def Let_def)
  with assms have "to_unsigned (column_idx (ch_backward_loop stall facade ?s0) + 1) =
      column_idx (ch_backward_loop stall facade ?s0) + 1"
    by (intro to_unsigned_small) simp
  then show ?thesis
    by (simp add: ch_search_target_phantom_def ch_search_target_phantom_ideal_def Let_def)
qed

lemma ch_backward_phase_in_range:
  "column_idx s + length targets < 2 ^ 32 \<Longrightarrow>
   ch_backward_phase stall facade targets s = ch_backward_phase_ideal stall facade targets s"
proof (induction targets arbitrary: s)
  case Nil
  show ?case by (simp add: ch_backward_phase_def ch_backward_phase_ideal_def)
next
  case (Cons p targets)
  let ?s1 = "ch_search_target_phantom_ideal stall facade p s"
  note props = ch_search_target_phantom_ideal_props [of stall facade p s]
  from Cons.prems have "column_idx s + 1 < 2 ^ 32" by simp
  then have one: "ch_search_target_phantom stall facade p s = ?s1"
    by (rule ch_search_target_phantom_in_range)
  from Cons.prems props have "column_idx ?s1 + length targets < 2 ^ 32" by simp
  from Cons.IH [OF this] one show ?case
    by (simp add: ch_backward_phase_def ch_backward_phase_ideal_def)
qed

lemma ch_search_phases:
  assumes "indices_valid phantom_nodes source_indices"
    and "indices_valid phantom_nodes target_indices"
  shows "ch_search stall facade phantom_nodes source_indices target_indices =
     ch_forward_phase stall facade (length (selected phantom_nodes target_indices))
       (selected phantom_nodes source_indices)
       (ch_backward_phase stall facade (selected phantom_nodes target_indices)
          (initial_state (to_size_t (length (selected phantom_nodes source_indices) *
                                     length (selected phantom_nodes target_indices)))))"
  unfolding ch_search_def Let_def for_each_selected [OF assms(1)] for_each_selected [OF assms(2)]
  by (simp add: for_each_phantom_total ch_forward_phase_def ch_backward_phase_def
      length_selected)

lemma ch_phases_in_range:
  assumes "length sources < 2 ^ 32" and "length targets < 2 ^ 32"
    and "length sources * length targets < 2 ^ 32"
  shows "ch_backward_phase stall facade targets
       (initial_state (to_size_t (length sources * length targets))) =
     ch_backward_phase_ideal stall facade targets
       (initial_state (length sources * length targets)) \<and>
     ch_forward_phase stall facade (length targets) sources
       (ch_backward_phase stall facade targets
          (initial_state (to_size_t (length sources * length targets)))) =
     Inr (ch_forward_phase_ideal stall facade (length targets) sources
            (ch_backward_phase_ideal stall facade targets
               (initial_state (length sources * length targets))))"
proof -
  let ?n = "length sources * length targets"
  let ?init = "initial_state ?n :: CHState"
  let ?sb = "ch_backward_phase_ideal stall facade targets ?init"
  note init = initial_state_props [of "length sources * length targets",
      where 'd = ManyToManyHeapData]
  note bprops = ch_backward_phase_ideal_props [of stall facade targets "?init"]
  from assms(3) have n: "to_size_t ?n = ?n" by (rule to_size_t_small)
  from init assms(2) have "column_idx ?init + length targets < 2 ^ 32" by simp
  then have bk: "ch_backward_phase stall facade targets ?init = ?sb"
    by (rule ch_backward_phase_in_range)
  from bprops init have a: "row_idx ?sb + length sources \<le> length sources" by simp
  from bprops init have b: "length (weights_table ?sb) = ?n" by simp
  from bprops init have c: "length (durations_table ?sb) = ?n" by simp
  from bprops init have d: "buckets_below (length targets) (search_space_with_buckets ?sb)"
    by simp
  from ch_forward_phase_in_range [OF assms a b c d, of stall facade] bk n
  show ?thesis by simp
qed

lemma ch_search_valid:
  assumes "indices_valid phantom_nodes source_indices"
    and "indices_valid phantom_nodes target_indices"
    and "length (selected phantom_nodes source_indices) < 2 ^ 32"
    and "length (selected phantom_nodes target_indices) < 2 ^ 32"
    and "length (selected phantom_nodes source_indices) *
         length (selected phantom_nodes target_indices) < 2 ^ 32"
  shows "ch_search stall facade phantom_nodes source_indices target_indices =
     Inr (ch_forward_phase_ideal stall facade (length (selected phantom_nodes target_indices))
            (selected phantom_nodes source_indices)
            (ch_backward_phase_ideal stall facade (selected phantom_nodes target_indices)
               (initial_state (length (selected phantom_nodes source_indices) *
                               length (selected phantom_nodes target_indices)))))"
  unfolding ch_search_phases [OF assms(1,2)]
  by (rule ch_phases_in_range [OF assms(3,4,5), THEN conjunct2])

lemma ch_cell_in_range:
  "ch_cell stall facade source target = ch_cell_ideal stall facade source target"
proof -
  let ?one = "initial_state 1 :: CHState"
  let ?s' = "ch_search_target_phantom_ideal stall facade target ?one"
  note one = initial_state_props [of 1, where 'd = ManyToManyHeapData]
  note tp = ch_search_target_phantom_ideal_props [of stall facade target "?one"]
  from one have "column_idx ?one + 1 < 2 ^ 32" by simp
  then have bk: "ch_search_target_phantom stall facade target ?one = ?s'"
    by (rule ch_search_target_phantom_in_range)
  from tp one have a: "row_idx ?s' < 1" by simp
  from tp one have b: "length (weights_table ?s') = 1 * 1" by simp
  from tp one have c: "length (durations_table ?s') = 1 * 1" by simp
  from tp one have d: "buckets_below 1 (search_space_with_buckets ?s')" by simp
  have "ch_search_source_phantom stall facade 1 source ?s' =
      Inr (ch_search_source_phantom_ideal stall facade 1 source ?s')"
    using a _ _ _ b c d by (rule ch_search_source_phantom_in_range) simp_all
  with bk show ?thesis
    by (simp add: ch_cell_def ch_cell_ideal_def Let_def)
qed
lemma mld_bucket_step_in_range:
  assumes "table_index row nt (target_id b) = flat_index row nt (target_id b)"
    and "flat_index row nt (target_id b) < length (fst tables)"
    and "flat_index row nt (target_id b) < length (snd tables)"
  shows "mld_bucket_step sw sd row nt tables b =
     Inr (mld_bucket_step_ideal sw sd row nt tables b)"
  using assms by (simp add: mld_bucket_step_def mld_bucket_step_ideal_def Let_def)

lemma mld_buckets_in_range:
  assumes "row < ns" and "ns * nt < 2 ^ 32"
  shows "length (fst tables) = ns * nt \<Longrightarrow> length (snd tables) = ns * nt \<Longrightarrow>
     \<forall>b \<in> set bucket_list. target_id b < nt \<Longrightarrow>
     for_each_bucket (mld_bucket_step sw sd row nt) tables bucket_list =
     Inr (foldl (mld_bucket_step_ideal sw sd row nt) tables bucket_list)"
proof (induction bucket_list arbitrary: tables)
  case Nil
  show ?case by simp
next
  case (Cons b bucket_list)
  from Cons.prems(3) have b: "target_id b < nt" by simp
  from assms(1) b have k: "flat_index row nt (target_id b) < ns * nt"
    by (rule flat_index_bound)
  from table_index_in_range [OF assms(1) b assms(2)]
  have eq: "table_index row nt (target_id b) = flat_index row nt (target_id b)" .
  from k Cons.prems(1,2) have
    step: "mld_bucket_step sw sd row nt tables b =
      Inr (mld_bucket_step_ideal sw sd row nt tables b)"
    by (intro mld_bucket_step_in_range [OF eq]) simp_all
  let ?t = "mld_bucket_step_ideal sw sd row nt tables b"
  from Cons.prems(1) have l1: "length (fst ?t) = ns * nt"
    by (simp add: mld_bucket_step_ideal_def Let_def)
  from Cons.prems(2) have l2: "length (snd ?t) = ns * nt"
    by (simp add: mld_bucket_step_ideal_def Let_def)
  from Cons.prems(3) have rest: "\<forall>b \<in> set bucket_list. target_id b < nt" by simp
  from Cons.IH [OF l1 l2 rest] step show ?case by simp
qed

lemma mld_forwardRoutingStep_in_range:
  assumes "row < ns" and "ns * nt < 2 ^ 32"
    and "length (weights_table s) = ns * nt" and "length (durations_table s) = ns * nt"
    and "buckets_below nt (search_space_with_buckets s)"
  shows "mld_forwardRoutingStep facade row nt parentCell s =
     Inr (mld_forwardRoutingStep_ideal facade row nt parentCell s)"
proof (cases "DeleteMin (query_heap s)")
  case None
  then show ?thesis
    by (simp add: mld_forwardRoutingStep_def mld_forwardRoutingStep_ideal_def)
next
  case (Some popped_heap)
  obtain popped heap where ph: "popped_heap = (popped, heap)" by (cases popped_heap)
  show ?thesis
  proof (cases "search_space_with_buckets s (h_node popped)")
    case None
    with Some ph show ?thesis
      by (simp add: mld_forwardRoutingStep_def mld_forwardRoutingStep_ideal_def Let_def)
  next
    case (Some bucket_list)
    with assms(5) have "\<forall>b \<in> set bucket_list. target_id b < nt"
      by (simp add: buckets_below_def)
    with assms(3,4) have "for_each_bucket
        (mld_bucket_step (h_key popped)
          (duration (h_data popped)) row nt)
        (weights_table s, durations_table s) bucket_list =
      Inr (foldl (mld_bucket_step_ideal (h_key popped)
          (duration (h_data popped)) row nt)
             (weights_table s, durations_table s) bucket_list)"
      by (intro mld_buckets_in_range [OF assms(1,2)]) simp_all
    with \<open>DeleteMin (query_heap s) = Some popped_heap\<close> ph Some show ?thesis
      by (simp add: mld_forwardRoutingStep_def mld_forwardRoutingStep_ideal_def Let_def)
  qed
qed

lemma mld_forward_loop_step:
  "\<not> Empty (query_heap s) \<Longrightarrow> mld_forwardRoutingStep facade (row_idx s) nt parentCell s = Inr t \<Longrightarrow>
   mld_forward_loop facade nt parentCell s = mld_forward_loop facade nt parentCell t"
  by (subst mld_forward_loop.simps) simp

lemma mld_forward_loop_stop:
  "Empty (query_heap s) \<Longrightarrow> mld_forward_loop facade nt parentCell s = Inr s"
  by (subst mld_forward_loop.simps) simp

lemma mld_forward_loop_fail:
  "\<not> Empty (query_heap s) \<Longrightarrow> mld_forwardRoutingStep facade (row_idx s) nt parentCell s = Inl e \<Longrightarrow>
   mld_forward_loop facade nt parentCell s = Inl e"
  by (subst mld_forward_loop.simps) simp

lemma mld_forward_loop_in_range:
  "row_idx s < ns \<Longrightarrow> ns * nt < 2 ^ 32 \<Longrightarrow>
   length (weights_table s) = ns * nt \<Longrightarrow> length (durations_table s) = ns * nt \<Longrightarrow>
   buckets_below nt (search_space_with_buckets s) \<Longrightarrow>
   mld_forward_loop facade nt parentCell s = Inr (mld_forward_loop_ideal facade nt parentCell s)"
proof (induction facade nt parentCell s rule: mld_forward_loop_ideal.induct)
  case (1 facade nt parentCell s)
  show ?case
  proof (cases "Empty (query_heap s)")
    case True
    then show ?thesis by (simp add: mld_forward_loop_stop mld_forward_loop_ideal_done)
  next
    case False
    let ?t = "mld_forwardRoutingStep_ideal facade (row_idx s) nt parentCell s"
    note keeps = mld_forwardRoutingStep_ideal_keeps [of facade "row_idx s" nt parentCell s]
    from "1.prems" have step: "mld_forwardRoutingStep facade (row_idx s) nt parentCell s = Inr ?t"
      by (intro mld_forwardRoutingStep_in_range)
    from "1.prems"(1) keeps have a: "row_idx ?t < ns" by simp
    from "1.prems"(3) keeps have c: "length (weights_table ?t) = ns * nt" by simp
    from "1.prems"(4) keeps have d: "length (durations_table ?t) = ns * nt" by simp
    from "1.prems"(5) keeps have e: "buckets_below nt (search_space_with_buckets ?t)" by simp
    from "1.IH" [OF False a "1.prems"(2) c d e] False step show ?thesis
      by (simp add: mld_forward_loop_step mld_forward_loop_ideal_unfold [of s])
  qed
qed

lemma mld_search_source_phantom_in_range:
  assumes "row_idx s < ns" and "ns < 2 ^ 32" and "nt < 2 ^ 32" and "ns * nt < 2 ^ 32"
    and "length (weights_table s) = ns * nt" and "length (durations_table s) = ns * nt"
    and "buckets_below nt (search_space_with_buckets s)"
  shows "mld_search_source_phantom facade nt p parentCell s =
     Inr (mld_search_source_phantom_ideal facade nt p parentCell s)"
proof -
  let ?s0 = "s\<lparr>query_heap := insertSourceInHeap mld_init (Clear (query_heap s)) p\<rparr>"
  let ?s1 = "mld_forward_loop_ideal facade nt parentCell ?s0"
  from assms(1) have a: "row_idx ?s0 < ns" by simp
  from assms(5) have b: "length (weights_table ?s0) = ns * nt" by simp
  from assms(6) have c: "length (durations_table ?s0) = ns * nt" by simp
  from assms(7) have d: "buckets_below nt (search_space_with_buckets ?s0)" by simp
  from a assms(4) b c d have loop: "mld_forward_loop facade nt parentCell ?s0 = Inr ?s1"
    by (rule mld_forward_loop_in_range)
  from mld_search_source_phantom_ideal_props [of facade nt p parentCell s]
  have r: "row_idx ?s1 = row_idx s"
    by (simp add: mld_search_source_phantom_ideal_def Let_def)
  from assms(1,2) have "row_idx s + 1 < 2 ^ 32" by linarith
  then have unsigned: "to_unsigned (row_idx ?s1 + 1) = row_idx ?s1 + 1"
    unfolding r by (rule to_unsigned_small)
  from assms(3) have nt: "to_unsigned nt = nt" by (rule to_unsigned_small)
  show ?thesis
    unfolding mld_search_source_phantom_def mld_search_source_phantom_ideal_def Let_def nt loop
      sum.case unsigned ..
qed

lemma mld_search_target_phantom_in_range:
  assumes "column_idx s + 1 < 2 ^ 32"
  shows "mld_search_target_phantom facade p parentCell s =
     mld_search_target_phantom_ideal facade p parentCell s"
proof -
  let ?s0 = "s\<lparr>query_heap := insertTargetInHeap mld_init (Clear (query_heap s)) p\<rparr>"
  from mld_search_target_phantom_ideal_props [of facade p parentCell s]
  have "column_idx (mld_backward_loop facade parentCell ?s0) = column_idx s"
    by (simp add: mld_search_target_phantom_ideal_def Let_def)
  with assms have "to_unsigned (column_idx (mld_backward_loop facade parentCell ?s0) + 1) =
      column_idx (mld_backward_loop facade parentCell ?s0) + 1"
    by (intro to_unsigned_small) simp
  then show ?thesis
    by (simp add: mld_search_target_phantom_def mld_search_target_phantom_ideal_def Let_def)
qed

lemma mld_forward_phase_in_range:
  assumes "ns < 2 ^ 32" and "nt < 2 ^ 32" and "ns * nt < 2 ^ 32"
  shows "row_idx s + length sources \<le> ns \<Longrightarrow>
     length (weights_table s) = ns * nt \<Longrightarrow> length (durations_table s) = ns * nt \<Longrightarrow>
     buckets_below nt (search_space_with_buckets s) \<Longrightarrow>
     mld_forward_phase facade nt others sources s =
     Inr (mld_forward_phase_ideal facade nt others sources s)"
proof (induction sources arbitrary: s)
  case Nil
  show ?case by (simp add: mld_forward_phase_def mld_forward_phase_ideal_def)
next
  case (Cons p sources)
  let ?pc = "parent_cell (multi_level_partition facade) p others"
  let ?s1 = "mld_search_source_phantom_ideal facade nt p ?pc s"
  note props = mld_search_source_phantom_ideal_props [of facade nt p "?pc" s]
  from Cons.prems(1) have row: "row_idx s < ns" by simp
  from row assms Cons.prems(2,3,4)
  have one: "mld_search_source_phantom facade nt p ?pc s = Inr ?s1"
    by (rule mld_search_source_phantom_in_range)
  from Cons.prems(1) props have a: "row_idx ?s1 + length sources \<le> ns" by simp
  from Cons.prems(2) props have b: "length (weights_table ?s1) = ns * nt" by simp
  from Cons.prems(3) props have c: "length (durations_table ?s1) = ns * nt" by simp
  from Cons.prems(4) props have d: "buckets_below nt (search_space_with_buckets ?s1)" by simp
  from Cons.IH [OF a b c d] one show ?case
    by (simp add: mld_forward_phase_def mld_forward_phase_ideal_def)
qed

lemma mld_backward_phase_in_range:
  "column_idx s + length targets < 2 ^ 32 \<Longrightarrow>
   mld_backward_phase facade others targets s =
   mld_backward_phase_ideal facade others targets s"
proof (induction targets arbitrary: s)
  case Nil
  show ?case by (simp add: mld_backward_phase_def mld_backward_phase_ideal_def)
next
  case (Cons p targets)
  let ?pc = "parent_cell (multi_level_partition facade) p others"
  let ?s1 = "mld_search_target_phantom_ideal facade p ?pc s"
  note props = mld_search_target_phantom_ideal_props [of facade p "?pc" s]
  from Cons.prems have "column_idx s + 1 < 2 ^ 32" by simp
  then have one: "mld_search_target_phantom facade p ?pc s = ?s1"
    by (rule mld_search_target_phantom_in_range)
  from Cons.prems props have "column_idx ?s1 + length targets < 2 ^ 32" by simp
  from Cons.IH [OF this] one show ?case
    by (simp add: mld_backward_phase_def mld_backward_phase_ideal_def)
qed

lemma mld_search_phases:
  assumes "indices_valid phantom_nodes source_indices"
    and "indices_valid phantom_nodes target_indices"
  shows "mld_search facade phantom_nodes source_indices target_indices =
     mld_forward_phase facade (length (selected phantom_nodes target_indices))
       (selected phantom_nodes target_indices) (selected phantom_nodes source_indices)
       (mld_backward_phase facade (selected phantom_nodes source_indices)
          (selected phantom_nodes target_indices)
          (initial_state (to_size_t (length (selected phantom_nodes source_indices) *
                                     length (selected phantom_nodes target_indices)))))"
  unfolding mld_search_def Let_def for_each_selected [OF assms(1)] for_each_selected [OF assms(2)]
    getParentCellID_valid [OF assms(1)] getParentCellID_valid [OF assms(2)]
  by (simp add: for_each_phantom_total mld_forward_phase_def mld_backward_phase_def
      length_selected)

lemma mld_phases_in_range:
  assumes "length sources < 2 ^ 32" and "length targets < 2 ^ 32"
    and "length sources * length targets < 2 ^ 32"
  shows "mld_backward_phase facade others' targets
       (initial_state (to_size_t (length sources * length targets))) =
     mld_backward_phase_ideal facade others' targets
       (initial_state (length sources * length targets)) \<and>
     mld_forward_phase facade (length targets) others sources
       (mld_backward_phase facade others' targets
          (initial_state (to_size_t (length sources * length targets)))) =
     Inr (mld_forward_phase_ideal facade (length targets) others sources
            (mld_backward_phase_ideal facade others' targets
               (initial_state (length sources * length targets))))"
proof -
  let ?n = "length sources * length targets"
  let ?init = "initial_state ?n :: MLDState"
  let ?sb = "mld_backward_phase_ideal facade others' targets ?init"
  note init = initial_state_props [of "length sources * length targets",
      where 'd = MLDHeapData]
  note bprops = mld_backward_phase_ideal_props [of facade others' targets "?init"]
  from assms(3) have n: "to_size_t ?n = ?n" by (rule to_size_t_small)
  from init assms(2) have "column_idx ?init + length targets < 2 ^ 32" by simp
  then have bk: "mld_backward_phase facade others' targets ?init = ?sb"
    by (rule mld_backward_phase_in_range)
  from bprops init have a: "row_idx ?sb + length sources \<le> length sources" by simp
  from bprops init have b: "length (weights_table ?sb) = ?n" by simp
  from bprops init have c: "length (durations_table ?sb) = ?n" by simp
  from bprops init have d: "buckets_below (length targets) (search_space_with_buckets ?sb)"
    by simp
  from mld_forward_phase_in_range [OF assms a b c d, of facade others] bk n
  show ?thesis by simp
qed

lemma mld_search_valid:
  assumes "indices_valid phantom_nodes source_indices"
    and "indices_valid phantom_nodes target_indices"
    and "length (selected phantom_nodes source_indices) < 2 ^ 32"
    and "length (selected phantom_nodes target_indices) < 2 ^ 32"
    and "length (selected phantom_nodes source_indices) *
         length (selected phantom_nodes target_indices) < 2 ^ 32"
  shows "mld_search facade phantom_nodes source_indices target_indices =
     Inr (mld_forward_phase_ideal facade (length (selected phantom_nodes target_indices))
            (selected phantom_nodes target_indices) (selected phantom_nodes source_indices)
            (mld_backward_phase_ideal facade (selected phantom_nodes source_indices)
               (selected phantom_nodes target_indices)
               (initial_state (length (selected phantom_nodes source_indices) *
                               length (selected phantom_nodes target_indices)))))"
  unfolding mld_search_phases [OF assms(1,2)]
  by (rule mld_phases_in_range [OF assms(3,4,5), THEN conjunct2])

lemma mld_cell_in_range:
  "mld_cell facade source source_cell target target_cell =
   mld_cell_ideal facade source source_cell target target_cell"
proof -
  let ?one = "initial_state 1 :: MLDState"
  let ?s' = "mld_search_target_phantom_ideal facade target target_cell ?one"
  note one = initial_state_props [of 1, where 'd = MLDHeapData]
  note tp = mld_search_target_phantom_ideal_props [of facade target target_cell "?one"]
  from one have "column_idx ?one + 1 < 2 ^ 32" by simp
  then have bk: "mld_search_target_phantom facade target target_cell ?one = ?s'"
    by (rule mld_search_target_phantom_in_range)
  from tp one have a: "row_idx ?s' < 1" by simp
  from tp one have b: "length (weights_table ?s') = 1 * 1" by simp
  from tp one have c: "length (durations_table ?s') = 1 * 1" by simp
  from tp one have d: "buckets_below 1 (search_space_with_buckets ?s')" by simp
  have "mld_search_source_phantom facade 1 source source_cell ?s' =
      Inr (mld_search_source_phantom_ideal facade 1 source source_cell ?s')"
    using a _ _ _ b c d by (rule mld_search_source_phantom_in_range) simp_all
  with bk show ?thesis
    by (simp add: mld_cell_def mld_cell_ideal_def Let_def)
qed

lemma ch_table_in_range:
  "ch_table facade sources targets = ch_table_ideal facade sources targets"
  by (simp add: ch_table_def ch_table_ideal_def ch_cell_in_range)

lemma mld_table_in_range:
  "mld_table facade sources targets = mld_table_ideal facade sources targets"
  by (simp add: mld_table_def mld_table_ideal_def mld_cell_in_range)

section \<open>What the searches of the source leave unchanged\<close>

lemma ch_bucket_step_length:
  "ch_bucket_step facade node sw sd row nt tables b = Inr tables' \<Longrightarrow>
   length (fst tables') = length (fst tables) \<and> length (snd tables') = length (snd tables)"
  by (auto simp add: ch_bucket_step_def Let_def split: if_splits)

lemma ch_buckets_length:
  "for_each_bucket (ch_bucket_step facade node sw sd row nt) tables bucket_list = Inr tables' \<Longrightarrow>
   length (fst tables') = length (fst tables) \<and> length (snd tables') = length (snd tables)"
proof (induction bucket_list arbitrary: tables)
  case Nil
  then show ?case by simp
next
  case (Cons b bucket_list)
  from Cons.prems obtain tables1 where
    one: "ch_bucket_step facade node sw sd row nt tables b = Inr tables1"
    and rest: "for_each_bucket (ch_bucket_step facade node sw sd row nt) tables1 bucket_list =
      Inr tables'"
    by (cases "ch_bucket_step facade node sw sd row nt tables b") simp_all
  from Cons.IH [OF rest] ch_bucket_step_length [OF one] show ?case by simp
qed

lemma ch_forwardRoutingStep_keeps:
  assumes "ch_forwardRoutingStep stall facade row nt s = Inr t"
  shows "search_space_with_buckets t = search_space_with_buckets s \<and>
   column_idx t = column_idx s \<and> row_idx t = row_idx s \<and>
   length (weights_table t) = length (weights_table s) \<and>
   length (durations_table t) = length (durations_table s)"
proof (cases "DeleteMin (query_heap s)")
  case None
  with assms show ?thesis by (simp add: ch_forwardRoutingStep_def)
next
  case (Some popped_heap)
  obtain popped heap where ph: "popped_heap = (popped, heap)" by (cases popped_heap)
  show ?thesis
  proof (cases "search_space_with_buckets s (h_node popped)")
    case None
    with Some ph assms show ?thesis
      by (auto simp add: ch_forwardRoutingStep_def Let_def)
  next
    case (Some bucket_list)
    let ?run = "for_each_bucket
        (ch_bucket_step facade (h_node popped) (h_key popped) (duration (h_data popped)) row nt)
        (weights_table s, durations_table s) bucket_list"
    from assms \<open>DeleteMin (query_heap s) = Some popped_heap\<close> ph Some
    obtain tables where run: "?run = Inr tables"
      and t: "t = s\<lparr>query_heap :=
                     (if stall FORWARD_DIRECTION facade (h_node popped) (h_key popped) heap
                      then heap
                      else ch_relaxOutgoingEdges FORWARD_DIRECTION facade (h_node popped)
                             (h_key popped) (duration (h_data popped)) heap),
                   weights_table := fst tables, durations_table := snd tables\<rparr>"
      by (cases ?run) (simp_all add: ch_forwardRoutingStep_def Let_def)
    from ch_buckets_length [OF run] t show ?thesis by simp
  qed
qed

lemma ch_forward_loop_rule:
  "P s \<Longrightarrow>
   (\<And>t t'. P t \<Longrightarrow> \<not> Empty (query_heap t) \<Longrightarrow>
             ch_forwardRoutingStep stall facade (row_idx t) nt t = Inr t' \<Longrightarrow> P t') \<Longrightarrow>
   ch_forward_loop stall facade nt s = Inr s' \<Longrightarrow>
   P s' \<and> Empty (query_heap s')"
proof (induction stall facade nt s rule: ch_forward_loop.induct)
  case (1 stall facade nt s)
  show ?case
  proof (cases "Empty (query_heap s)")
    case True
    with "1.prems"(1,3) show ?thesis by (simp add: ch_forward_loop_stop)
  next
    case False
    show ?thesis
    proof (cases "ch_forwardRoutingStep stall facade (row_idx s) nt s")
      case (Inl e)
      with False "1.prems"(3) show ?thesis by (simp add: ch_forward_loop_fail)
    next
      case (Inr t)
      from "1.prems"(1) False Inr have Pt: "P t" by (rule "1.prems"(2))
      from False Inr "1.prems"(3) have "ch_forward_loop stall facade nt t = Inr s'"
        by (simp add: ch_forward_loop_step)
      with "1.IH" [OF False Inr Pt "1.prems"(2)] show ?thesis by simp
    qed
  qed
qed

lemma ch_search_source_phantom_props:
  assumes "ch_search_source_phantom stall facade nt p s = Inr t"
  shows "search_space_with_buckets t = search_space_with_buckets s \<and>
   column_idx t = column_idx s \<and> row_idx t = to_unsigned (row_idx s + 1) \<and>
   length (weights_table t) = length (weights_table s) \<and>
   length (durations_table t) = length (durations_table s) \<and>
   Empty (query_heap t)"
proof -
  define s0 where "s0 = s\<lparr>query_heap := insertSourceInHeap ch_init (Clear (query_heap s)) p\<rparr>"
  define P where "P = (\<lambda>u :: CHState.
    search_space_with_buckets u = search_space_with_buckets s \<and>
    column_idx u = column_idx s \<and> row_idx u = row_idx s \<and>
    length (weights_table u) = length (weights_table s) \<and>
    length (durations_table u) = length (durations_table s))"
  from assms obtain s1 where loop: "ch_forward_loop stall facade (to_unsigned nt) s0 = Inr s1"
    and t: "t = s1\<lparr>row_idx := to_unsigned (row_idx s1 + 1)\<rparr>"
    by (cases "ch_forward_loop stall facade (to_unsigned nt) s0")
      (simp_all add: ch_search_source_phantom_def s0_def)
  have start: "P s0" by (simp add: P_def s0_def)
  have step: "P u'" if "P u"
    and "ch_forwardRoutingStep stall facade (row_idx u) (to_unsigned nt) u = Inr u'" for u u'
    using that(1) ch_forwardRoutingStep_keeps [OF that(2)] by (simp add: P_def)
  have "P s1 \<and> Empty (query_heap s1)"
    using start _ loop by (rule ch_forward_loop_rule) (rule step)
  with t show ?thesis by (simp add: P_def)
qed

lemma ch_forward_phase_props:
  "ch_forward_phase stall facade nt sources s = Inr t \<Longrightarrow>
   search_space_with_buckets t = search_space_with_buckets s \<and>
   column_idx t = column_idx s \<and>
   length (weights_table t) = length (weights_table s) \<and>
   length (durations_table t) = length (durations_table s)"
proof (induction sources arbitrary: s)
  case Nil
  then show ?case by (simp add: ch_forward_phase_def)
next
  case (Cons p sources)
  from Cons.prems obtain s1 where
    one: "ch_search_source_phantom stall facade nt p s = Inr s1"
    and rest: "ch_forward_phase stall facade nt sources s1 = Inr t"
    by (cases "ch_search_source_phantom stall facade nt p s")
      (simp_all add: ch_forward_phase_def)
  from Cons.IH [OF rest] ch_search_source_phantom_props [OF one] show ?case by simp
qed

lemma ch_search_target_phantom_column:
  "ch_search_target_phantom stall facade p s =
   (ch_search_target_phantom_ideal stall facade p s)
     \<lparr>column_idx := to_unsigned (column_idx s + 1)\<rparr>"
proof -
  let ?s0 = "s\<lparr>query_heap := insertTargetInHeap ch_init (Clear (query_heap s)) p\<rparr>"
  from ch_search_target_phantom_ideal_props [of stall facade p s]
  have "column_idx (ch_backward_loop stall facade ?s0) = column_idx s"
    by (simp add: ch_search_target_phantom_ideal_def Let_def)
  then show ?thesis
    by (simp add: ch_search_target_phantom_def ch_search_target_phantom_ideal_def Let_def)
qed

lemma ch_search_target_phantom_props:
  "column_idx (ch_search_target_phantom stall facade p s) = to_unsigned (column_idx s + 1) \<and>
   row_idx (ch_search_target_phantom stall facade p s) = row_idx s \<and>
   weights_table (ch_search_target_phantom stall facade p s) = weights_table s \<and>
   durations_table (ch_search_target_phantom stall facade p s) = durations_table s \<and>
   Empty (query_heap (ch_search_target_phantom stall facade p s))"
  using ch_search_target_phantom_ideal_props [of stall facade p s]
  by (simp add: ch_search_target_phantom_column)

lemma ch_backward_phase_props:
  "row_idx (ch_backward_phase stall facade targets s) = row_idx s \<and>
   weights_table (ch_backward_phase stall facade targets s) = weights_table s \<and>
   durations_table (ch_backward_phase stall facade targets s) = durations_table s"
proof (induction targets arbitrary: s)
  case Nil
  show ?case by (simp add: ch_backward_phase_def)
next
  case (Cons p targets)
  from Cons [of "ch_search_target_phantom stall facade p s"]
    ch_search_target_phantom_props [of stall facade p s]
  show ?case by (simp add: ch_backward_phase_def)
qed

lemma mld_bucket_step_length:
  "mld_bucket_step sw sd row nt tables b = Inr tables' \<Longrightarrow>
   length (fst tables') = length (fst tables) \<and> length (snd tables') = length (snd tables)"
  by (auto simp add: mld_bucket_step_def Let_def split: if_splits)

lemma mld_buckets_length:
  "for_each_bucket (mld_bucket_step sw sd row nt) tables bucket_list = Inr tables' \<Longrightarrow>
   length (fst tables') = length (fst tables) \<and> length (snd tables') = length (snd tables)"
proof (induction bucket_list arbitrary: tables)
  case Nil
  then show ?case by simp
next
  case (Cons b bucket_list)
  from Cons.prems obtain tables1 where
    one: "mld_bucket_step sw sd row nt tables b = Inr tables1"
    and rest: "for_each_bucket (mld_bucket_step sw sd row nt) tables1 bucket_list =
      Inr tables'"
    by (cases "mld_bucket_step sw sd row nt tables b") simp_all
  from Cons.IH [OF rest] mld_bucket_step_length [OF one] show ?case by simp
qed

lemma mld_forwardRoutingStep_keeps:
  assumes "mld_forwardRoutingStep facade row nt parentCell s = Inr t"
  shows "search_space_with_buckets t = search_space_with_buckets s \<and>
   column_idx t = column_idx s \<and> row_idx t = row_idx s \<and>
   length (weights_table t) = length (weights_table s) \<and>
   length (durations_table t) = length (durations_table s)"
proof (cases "DeleteMin (query_heap s)")
  case None
  with assms show ?thesis by (simp add: mld_forwardRoutingStep_def)
next
  case (Some popped_heap)
  obtain popped heap where ph: "popped_heap = (popped, heap)" by (cases popped_heap)
  show ?thesis
  proof (cases "search_space_with_buckets s (h_node popped)")
    case None
    with Some ph assms show ?thesis
      by (auto simp add: mld_forwardRoutingStep_def Let_def)
  next
    case (Some bucket_list)
    let ?run = "for_each_bucket
        (mld_bucket_step (h_key popped) (duration (h_data popped)) row nt)
        (weights_table s, durations_table s) bucket_list"
    from assms \<open>DeleteMin (query_heap s) = Some popped_heap\<close> ph Some
    obtain tables where run: "?run = Inr tables"
      and t: "t = s\<lparr>query_heap :=
                     mld_relaxOutgoingEdges FORWARD_DIRECTION facade (h_node popped) (h_key popped)
                       (duration (h_data popped)) heap parentCell,
                   weights_table := fst tables, durations_table := snd tables\<rparr>"
      by (cases ?run) (simp_all add: mld_forwardRoutingStep_def Let_def)
    from mld_buckets_length [OF run] t show ?thesis by simp
  qed
qed

lemma mld_forward_loop_rule:
  "P s \<Longrightarrow>
   (\<And>t t'. P t \<Longrightarrow> \<not> Empty (query_heap t) \<Longrightarrow>
             mld_forwardRoutingStep facade (row_idx t) nt parentCell t = Inr t' \<Longrightarrow> P t') \<Longrightarrow>
   mld_forward_loop facade nt parentCell s = Inr s' \<Longrightarrow>
   P s' \<and> Empty (query_heap s')"
proof (induction facade nt parentCell s rule: mld_forward_loop.induct)
  case (1 facade nt parentCell s)
  show ?case
  proof (cases "Empty (query_heap s)")
    case True
    with "1.prems"(1,3) show ?thesis by (simp add: mld_forward_loop_stop)
  next
    case False
    show ?thesis
    proof (cases "mld_forwardRoutingStep facade (row_idx s) nt parentCell s")
      case (Inl e)
      with False "1.prems"(3) show ?thesis by (simp add: mld_forward_loop_fail)
    next
      case (Inr t)
      from "1.prems"(1) False Inr have Pt: "P t" by (rule "1.prems"(2))
      from False Inr "1.prems"(3) have "mld_forward_loop facade nt parentCell t = Inr s'"
        by (simp add: mld_forward_loop_step)
      with "1.IH" [OF False Inr Pt "1.prems"(2)] show ?thesis by simp
    qed
  qed
qed

lemma mld_search_source_phantom_props:
  assumes "mld_search_source_phantom facade nt p parentCell s = Inr t"
  shows "search_space_with_buckets t = search_space_with_buckets s \<and>
   column_idx t = column_idx s \<and> row_idx t = to_unsigned (row_idx s + 1) \<and>
   length (weights_table t) = length (weights_table s) \<and>
   length (durations_table t) = length (durations_table s) \<and>
   Empty (query_heap t)"
proof -
  define s0 where "s0 = s\<lparr>query_heap := insertSourceInHeap mld_init (Clear (query_heap s)) p\<rparr>"
  define P where "P = (\<lambda>u :: MLDState.
    search_space_with_buckets u = search_space_with_buckets s \<and>
    column_idx u = column_idx s \<and> row_idx u = row_idx s \<and>
    length (weights_table u) = length (weights_table s) \<and>
    length (durations_table u) = length (durations_table s))"
  from assms obtain s1 where loop: "mld_forward_loop facade (to_unsigned nt) parentCell s0 = Inr s1"
    and t: "t = s1\<lparr>row_idx := to_unsigned (row_idx s1 + 1)\<rparr>"
    by (cases "mld_forward_loop facade (to_unsigned nt) parentCell s0")
      (simp_all add: mld_search_source_phantom_def s0_def)
  have start: "P s0" by (simp add: P_def s0_def)
  have step: "P u'" if "P u"
    and "mld_forwardRoutingStep facade (row_idx u) (to_unsigned nt) parentCell u = Inr u'" for u u'
    using that(1) mld_forwardRoutingStep_keeps [OF that(2)] by (simp add: P_def)
  have "P s1 \<and> Empty (query_heap s1)"
    using start _ loop by (rule mld_forward_loop_rule) (rule step)
  with t show ?thesis by (simp add: P_def)
qed

lemma mld_forward_phase_props:
  "mld_forward_phase facade nt others sources s = Inr t \<Longrightarrow>
   search_space_with_buckets t = search_space_with_buckets s \<and>
   column_idx t = column_idx s \<and>
   length (weights_table t) = length (weights_table s) \<and>
   length (durations_table t) = length (durations_table s)"
proof (induction sources arbitrary: s)
  case Nil
  then show ?case by (simp add: mld_forward_phase_def)
next
  case (Cons p sources)
  from Cons.prems obtain s1 where
    one: "mld_search_source_phantom facade nt p
          (parent_cell (multi_level_partition facade) p others) s = Inr s1"
    and rest: "mld_forward_phase facade nt others sources s1 = Inr t"
    by (cases "mld_search_source_phantom facade nt p
          (parent_cell (multi_level_partition facade) p others) s")
      (simp_all add: mld_forward_phase_def)
  from Cons.IH [OF rest] mld_search_source_phantom_props [OF one] show ?case by simp
qed

lemma mld_search_target_phantom_column:
  "mld_search_target_phantom facade p parentCell s =
   (mld_search_target_phantom_ideal facade p parentCell s)
     \<lparr>column_idx := to_unsigned (column_idx s + 1)\<rparr>"
proof -
  let ?s0 = "s\<lparr>query_heap := insertTargetInHeap mld_init (Clear (query_heap s)) p\<rparr>"
  from mld_search_target_phantom_ideal_props [of facade p parentCell s]
  have "column_idx (mld_backward_loop facade parentCell ?s0) = column_idx s"
    by (simp add: mld_search_target_phantom_ideal_def Let_def)
  then show ?thesis
    by (simp add: mld_search_target_phantom_def mld_search_target_phantom_ideal_def Let_def)
qed

lemma mld_search_target_phantom_props:
  "column_idx (mld_search_target_phantom facade p parentCell s) = to_unsigned (column_idx s + 1) \<and>
   row_idx (mld_search_target_phantom facade p parentCell s) = row_idx s \<and>
   weights_table (mld_search_target_phantom facade p parentCell s) = weights_table s \<and>
   durations_table (mld_search_target_phantom facade p parentCell s) = durations_table s \<and>
   Empty (query_heap (mld_search_target_phantom facade p parentCell s))"
  using mld_search_target_phantom_ideal_props [of facade p parentCell s]
  by (simp add: mld_search_target_phantom_column)

lemma mld_backward_phase_props:
  "row_idx (mld_backward_phase facade others targets s) = row_idx s \<and>
   weights_table (mld_backward_phase facade others targets s) = weights_table s \<and>
   durations_table (mld_backward_phase facade others targets s) = durations_table s"
proof (induction targets arbitrary: s)
  case Nil
  show ?case by (simp add: mld_backward_phase_def)
next
  case (Cons p targets)
  from Cons [of "mld_search_target_phantom facade p
          (parent_cell (multi_level_partition facade) p others) s"]
    mld_search_target_phantom_props [of facade p "parent_cell (multi_level_partition facade) p others" s]
  show ?case by (simp add: mld_backward_phase_def)
qed

section \<open>Claims about a whole call\<close>

lemma ch_backwardRoutingStep_appends:
  "DeleteMin (query_heap s) = Some (popped, heap) \<Longrightarrow>
   search_space_with_buckets (ch_backwardRoutingStep stall facade column s) =
   emplace_back (search_space_with_buckets s) (h_node popped)
     \<lparr>target_id = column, target_weight = h_key popped,
      target_duration = duration (h_data popped)\<rparr>"
  by (simp add: ch_backwardRoutingStep_def Let_def)

lemma mld_backwardRoutingStep_appends:
  "DeleteMin (query_heap s) = Some (popped, heap) \<Longrightarrow>
   search_space_with_buckets (mld_backwardRoutingStep facade column parentCell s) =
   emplace_back (search_space_with_buckets s) (h_node popped)
     \<lparr>target_id = column, target_weight = h_key popped,
      target_duration = duration (h_data popped)\<rparr>"
  by (simp add: mld_backwardRoutingStep_def Let_def)

lemma ch_backward_phase_columns:
  assumes "length targets < 2 ^ 32" and "j \<le> length targets"
  shows "column_idx (ch_backward_phase stall facade (take j targets) (initial_state n)) = j"
proof -
  let ?init = "initial_state n :: CHState"
  note init = initial_state_props [of n, where 'd = ManyToManyHeapData]
  from assms have "length (take j targets) < 2 ^ 32" by simp
  with init have "column_idx ?init + length (take j targets) < 2 ^ 32" by simp
  then have "ch_backward_phase stall facade (take j targets) ?init =
      ch_backward_phase_ideal stall facade (take j targets) ?init"
    by (rule ch_backward_phase_in_range)
  with ch_backward_phase_ideal_props [of stall facade "take j targets" "?init"] init assms(2)
  show ?thesis by (simp add: min_absorb2)
qed

lemma mld_backward_phase_columns:
  assumes "length targets < 2 ^ 32" and "j \<le> length targets"
  shows "column_idx (mld_backward_phase facade others (take j targets) (initial_state n)) = j"
proof -
  let ?init = "initial_state n :: MLDState"
  note init = initial_state_props [of n, where 'd = MLDHeapData]
  from assms have "length (take j targets) < 2 ^ 32" by simp
  with init have "column_idx ?init + length (take j targets) < 2 ^ 32" by simp
  then have "mld_backward_phase facade others (take j targets) ?init =
      mld_backward_phase_ideal facade others (take j targets) ?init"
    by (rule mld_backward_phase_in_range)
  with mld_backward_phase_ideal_props [of facade others "take j targets" "?init"] init assms(2)
  show ?thesis by (simp add: min_absorb2)
qed

lemma ch_backward_phase_column_costs:
  assumes "length targets < 2 ^ 32" and "j < length targets"
  shows "column_costs j
       (search_space_with_buckets (ch_backward_phase stall facade targets (initial_state n))) node =
     column_costs 0
       (search_space_with_buckets
          (ch_search_target_phantom stall facade (targets ! j) (initial_state 1))) node"
proof -
  let ?init = "initial_state n :: CHState"
  let ?one = "initial_state 1 :: CHState"
  note init = initial_state_props [of n, where 'd = ManyToManyHeapData]
  note one = initial_state_props [of 1, where 'd = ManyToManyHeapData]
  from init assms(1) have "column_idx ?init + length targets < 2 ^ 32" by simp
  then have phase: "ch_backward_phase stall facade targets ?init =
      ch_backward_phase_ideal stall facade targets ?init"
    by (rule ch_backward_phase_in_range)
  from one have "column_idx ?one + 1 < 2 ^ 32" by simp
  then have single: "ch_search_target_phantom stall facade (targets ! j) ?one =
      ch_search_target_phantom_ideal stall facade (targets ! j) ?one"
    by (rule ch_search_target_phantom_in_range)
  have empty: "\<forall>m. column_costs (column_idx ?one) (search_space_with_buckets ?one) m = []"
    by (simp add: initial_state_def column_costs_def bucket_list_at_def)
  from init have below: "buckets_below (column_idx ?init) (search_space_with_buckets ?init)"
    by simp
  from ch_backward_phase_ideal_costs [OF assms(2) below empty, of stall facade node] init one
  show ?thesis unfolding phase single by simp
qed

lemma mld_backward_phase_column_costs:
  assumes "length targets < 2 ^ 32" and "j < length targets"
  shows "column_costs j
       (search_space_with_buckets
          (mld_backward_phase facade others targets (initial_state n))) node =
     column_costs 0
       (search_space_with_buckets
          (mld_search_target_phantom facade (targets ! j)
             (parent_cell (multi_level_partition facade) (targets ! j) others)
             (initial_state 1))) node"
proof -
  let ?init = "initial_state n :: MLDState"
  let ?one = "initial_state 1 :: MLDState"
  let ?pc = "parent_cell (multi_level_partition facade) (targets ! j) others"
  note init = initial_state_props [of n, where 'd = MLDHeapData]
  note one = initial_state_props [of 1, where 'd = MLDHeapData]
  from init assms(1) have "column_idx ?init + length targets < 2 ^ 32" by simp
  then have phase: "mld_backward_phase facade others targets ?init =
      mld_backward_phase_ideal facade others targets ?init"
    by (rule mld_backward_phase_in_range)
  from one have "column_idx ?one + 1 < 2 ^ 32" by simp
  then have single: "mld_search_target_phantom facade (targets ! j) ?pc ?one =
      mld_search_target_phantom_ideal facade (targets ! j) ?pc ?one"
    by (rule mld_search_target_phantom_in_range)
  have empty: "\<forall>m. column_costs (column_idx ?one) (search_space_with_buckets ?one) m = []"
    by (simp add: initial_state_def column_costs_def bucket_list_at_def)
  from init have below: "buckets_below (column_idx ?init) (search_space_with_buckets ?init)"
    by simp
  from mld_backward_phase_ideal_costs [OF assms(2) below empty, of facade others node] init one
  show ?thesis unfolding phase single by simp
qed

lemma ch_forward_phase_take_buckets:
  "ch_forward_phase stall facade nt (take i sources) s = Inr t \<Longrightarrow>
   search_space_with_buckets t = search_space_with_buckets s"
  by (simp add: ch_forward_phase_props)

lemma mld_forward_phase_take_buckets:
  "mld_forward_phase facade nt others (take i sources) s = Inr t \<Longrightarrow>
   search_space_with_buckets t = search_space_with_buckets s"
  by (simp add: mld_forward_phase_props)

text \<open>
  C5. In every many-to-many call (CH and MLD) with valid index lists and fewer than
  \<open>2^32\<close> targets, the call is the forward phase run on the state the backward phase
  ends in. The backward searches run one per target, in target order, the search of target
  \<open>j\<close> with \<open>column_idx = j\<close>, and each runs until the heap is empty. Every
  backward routing step appends one entry to the bucket list of the node it pops: the
  column, the key and the duration of that node. When the backward phase ends, the entries
  of column \<open>j\<close> at any node carry, in order, the weights and durations that the
  backward search of target \<open>j\<close> alone appends at that node. No forward routing step
  changes the bucket index, so after any number of forward searches it is the bucket index
  the backward phase built.
\<close>

theorem backward_phase_before_forward_phase:
  assumes "indices_valid phantom_nodes source_indices"
    and "indices_valid phantom_nodes target_indices"
    and "length (selected phantom_nodes target_indices) < 2 ^ 32"
  shows
    "(let sources = selected phantom_nodes source_indices;
          targets = selected phantom_nodes target_indices;
          start = initial_state (to_size_t (length sources * length targets));
          buckets_done = ch_backward_phase stall facade targets start
      in ch_search stall facade phantom_nodes source_indices target_indices =
           ch_forward_phase stall facade (length targets) sources buckets_done \<and>
         (\<forall>j \<le> length targets.
            column_idx (ch_backward_phase stall facade (take j targets) start) = j) \<and>
         (\<forall>j < length targets. \<forall>node.
            column_costs j (search_space_with_buckets buckets_done) node =
            column_costs 0
              (search_space_with_buckets
                 (ch_search_target_phantom stall facade (targets ! j) (initial_state 1)))
              node) \<and>
         (\<forall>i \<le> length sources. \<forall>t.
            ch_forward_phase stall facade (length targets) (take i sources) buckets_done =
              Inr t \<longrightarrow>
            search_space_with_buckets t = search_space_with_buckets buckets_done)) \<and>
     (let sources = selected phantom_nodes source_indices;
          targets = selected phantom_nodes target_indices;
          start = initial_state (to_size_t (length sources * length targets));
          buckets_done = mld_backward_phase mld_facade sources targets start
      in mld_search mld_facade phantom_nodes source_indices target_indices =
           mld_forward_phase mld_facade (length targets) targets sources buckets_done \<and>
         (\<forall>j \<le> length targets.
            column_idx (mld_backward_phase mld_facade sources (take j targets) start) = j) \<and>
         (\<forall>j < length targets. \<forall>node.
            column_costs j (search_space_with_buckets buckets_done) node =
            column_costs 0
              (search_space_with_buckets
                 (mld_search_target_phantom mld_facade (targets ! j)
                    (parent_cell (multi_level_partition mld_facade) (targets ! j) sources)
                    (initial_state 1)))
              node) \<and>
         (\<forall>i \<le> length sources. \<forall>t.
            mld_forward_phase mld_facade (length targets) targets (take i sources)
              buckets_done = Inr t \<longrightarrow>
            search_space_with_buckets t = search_space_with_buckets buckets_done)) \<and>
     (\<forall>p s. Empty (query_heap (ch_search_target_phantom stall facade p s))) \<and>
     (\<forall>p parentCell s.
        Empty (query_heap (mld_search_target_phantom mld_facade p parentCell s))) \<and>
     (\<forall>column s popped heap.
        DeleteMin (query_heap s) = Some (popped, heap) \<longrightarrow>
        search_space_with_buckets (ch_backwardRoutingStep stall facade column s) =
        emplace_back (search_space_with_buckets s) (h_node popped)
          \<lparr>target_id = column, target_weight = h_key popped,
           target_duration = duration (h_data popped)\<rparr>) \<and>
     (\<forall>column parentCell s popped heap.
        DeleteMin (query_heap s) = Some (popped, heap) \<longrightarrow>
        search_space_with_buckets (mld_backwardRoutingStep mld_facade column parentCell s) =
        emplace_back (search_space_with_buckets s) (h_node popped)
          \<lparr>target_id = column, target_weight = h_key popped,
           target_duration = duration (h_data popped)\<rparr>) \<and>
     (\<forall>row number_of_targets s t.
        ch_forwardRoutingStep stall facade row number_of_targets s = Inr t \<longrightarrow>
        search_space_with_buckets t = search_space_with_buckets s) \<and>
     (\<forall>row number_of_targets parentCell s t.
        mld_forwardRoutingStep mld_facade row number_of_targets parentCell s = Inr t \<longrightarrow>
        search_space_with_buckets t = search_space_with_buckets s)"
  unfolding Let_def
proof (intro conjI allI impI)
  show "ch_search stall facade phantom_nodes source_indices target_indices =
      ch_forward_phase stall facade (length (selected phantom_nodes target_indices))
        (selected phantom_nodes source_indices)
        (ch_backward_phase stall facade (selected phantom_nodes target_indices)
           (initial_state (to_size_t (length (selected phantom_nodes source_indices) *
                                      length (selected phantom_nodes target_indices)))))"
    using assms(1,2) by (rule ch_search_phases)
  show "mld_search mld_facade phantom_nodes source_indices target_indices =
      mld_forward_phase mld_facade (length (selected phantom_nodes target_indices))
        (selected phantom_nodes target_indices) (selected phantom_nodes source_indices)
        (mld_backward_phase mld_facade (selected phantom_nodes source_indices)
           (selected phantom_nodes target_indices)
           (initial_state (to_size_t (length (selected phantom_nodes source_indices) *
                                      length (selected phantom_nodes target_indices)))))"
    using assms(1,2) by (rule mld_search_phases)
qed (simp_all only: ch_backward_phase_columns [OF assms(3)]
    mld_backward_phase_columns [OF assms(3)]
    ch_backward_phase_column_costs [OF assms(3)]
    mld_backward_phase_column_costs [OF assms(3)]
    ch_forward_phase_take_buckets mld_forward_phase_take_buckets
    ch_search_target_phantom_props mld_search_target_phantom_props
    ch_backwardRoutingStep_appends mld_backwardRoutingStep_appends
    ch_forwardRoutingStep_keeps mld_forwardRoutingStep_keeps)


theorem backward_phase_before_forward_phase_witness:
  "indices_valid
     [phantom_at 0 True 0 False, phantom_at 4 True 4 False, phantom_at 1 True 1 False] [0] \<and>
   indices_valid
     [phantom_at 0 True 0 False, phantom_at 4 True 4 False, phantom_at 1 True 1 False]
     [1, 2] \<and>
   length (selected
     [phantom_at 0 True 0 False, phantom_at 4 True 4 False, phantom_at 1 True 1 False]
     [1, 2]) < 2 ^ 32 \<and>
   ch_search stallAtNode tie_facade
     [phantom_at 0 True 0 False, phantom_at 4 True 4 False, phantom_at 1 True 1 False]
     [0] [1, 2] =
   ch_forward_phase stallAtNode tie_facade 2 [phantom_at 0 True 0 False]
     (ch_backward_phase stallAtNode tie_facade
        [phantom_at 4 True 4 False, phantom_at 1 True 1 False] (initial_state 2)) \<and>
   column_idx (ch_backward_phase stallAtNode tie_facade [phantom_at 4 True 4 False]
                 (initial_state 2)) = 1 \<and>
   column_costs 0
     (search_space_with_buckets
        (ch_backward_phase stallAtNode tie_facade
           [phantom_at 4 True 4 False, phantom_at 1 True 1 False] (initial_state 2))) 4 =
     [(0, 0)] \<and>
   column_costs 1
     (search_space_with_buckets
        (ch_backward_phase stallAtNode tie_facade
           [phantom_at 4 True 4 False, phantom_at 1 True 1 False] (initial_state 2))) 2 =
     [(1, 1)] \<and>
   mld_search line_facade
     [phantom_at 0 True 0 False, phantom_at 3 True 3 False, phantom_at 1 True 1 False]
     [0] [1, 2] =
   mld_forward_phase line_facade 2 [phantom_at 3 True 3 False, phantom_at 1 True 1 False]
     [phantom_at 0 True 0 False]
     (mld_backward_phase line_facade [phantom_at 0 True 0 False]
        [phantom_at 3 True 3 False, phantom_at 1 True 1 False] (initial_state 2)) \<and>
   column_costs 0
     (search_space_with_buckets
        (mld_backward_phase line_facade [phantom_at 0 True 0 False]
           [phantom_at 3 True 3 False, phantom_at 1 True 1 False] (initial_state 2))) 1 =
     [(5, 5)] \<and>
   column_costs 1
     (search_space_with_buckets
        (mld_backward_phase line_facade [phantom_at 0 True 0 False]
           [phantom_at 3 True 3 False, phantom_at 1 True 1 False] (initial_state 2))) 0 =
     [(1, 1)]"
proof -
  let ?ps = "[phantom_at 0 True 0 False, phantom_at 4 True 4 False, phantom_at 1 True 1 False]"
  let ?qs = "[phantom_at 0 True 0 False, phantom_at 3 True 3 False, phantom_at 1 True 1 False]"
  have v0: "indices_valid ?ps [0]" by (simp add: indices_valid_def)
  have v1: "indices_valid ?ps [1, 2]" by (simp add: indices_valid_def)
  have s0: "selected ?ps [0] = [phantom_at 0 True 0 False]" by (simp add: selected_def)
  have s1: "selected ?ps [1, 2] = [phantom_at 4 True 4 False, phantom_at 1 True 1 False]"
    by (simp add: selected_def)
  have l: "length (selected ?ps [1, 2]) < 2 ^ 32" unfolding s1 by simp
  have w0: "indices_valid ?qs [0]" by (simp add: indices_valid_def)
  have w1: "indices_valid ?qs [1, 2]" by (simp add: indices_valid_def)
  have r0: "selected ?qs [0] = [phantom_at 0 True 0 False]" by (simp add: selected_def)
  have r1: "selected ?qs [1, 2] = [phantom_at 3 True 3 False, phantom_at 1 True 1 False]"
    by (simp add: selected_def)
  have m: "length (selected ?qs [1, 2]) < 2 ^ 32" unfolding r1 by simp
  have two: "to_size_t (length [phantom_at 0 True 0 False] *
      length [phantom_at 4 True 4 False, phantom_at 1 True 1 False]) = 2"
    "to_size_t (length [phantom_at 0 True 0 False] *
      length [phantom_at 3 True 3 False, phantom_at 1 True 1 False]) = 2"
    by (simp_all add: to_size_t_def)
  note ch = backward_phase_before_forward_phase
    [OF v0 v1 l, of stallAtNode tie_facade line_facade, unfolded Let_def s0 s1 two,
     THEN conjunct1]
  note mld = backward_phase_before_forward_phase
    [OF w0 w1 m, of stallAtNode tie_facade line_facade, unfolded Let_def r0 r1 two,
     THEN conjunct2, THEN conjunct1]
  have c0: "column_costs 0
      (search_space_with_buckets
         (ch_search_target_phantom stallAtNode tie_facade (phantom_at 4 True 4 False)
            (initial_state 1))) 4 = [(0, 0)]"
    by code_simp
  have c1: "column_costs 0
      (search_space_with_buckets
         (ch_search_target_phantom stallAtNode tie_facade (phantom_at 1 True 1 False)
            (initial_state 1))) 2 = [(1, 1)]"
    by code_simp
  have d0: "column_costs 0
      (search_space_with_buckets
         (mld_search_target_phantom line_facade (phantom_at 3 True 3 False)
            (parent_cell (multi_level_partition line_facade) (phantom_at 3 True 3 False)
               [phantom_at 0 True 0 False])
            (initial_state 1))) 1 = [(5, 5)]"
    by code_simp
  have d1: "column_costs 0
      (search_space_with_buckets
         (mld_search_target_phantom line_facade (phantom_at 1 True 1 False)
            (parent_cell (multi_level_partition line_facade) (phantom_at 1 True 1 False)
               [phantom_at 0 True 0 False])
            (initial_state 1))) 0 = [(1, 1)]"
    by code_simp
  note col = ch [THEN conjunct2, THEN conjunct1, rule_format, of 1]
  note a0 = ch [THEN conjunct2, THEN conjunct2, THEN conjunct1, rule_format, of 0 4]
  note a1 = ch [THEN conjunct2, THEN conjunct2, THEN conjunct1, rule_format, of 1 2]
  note b0 = mld [THEN conjunct2, THEN conjunct2, THEN conjunct1, rule_format, of 0 1]
  note b1 = mld [THEN conjunct2, THEN conjunct2, THEN conjunct1, rule_format, of 1 0]
  from v0 v1 l ch [THEN conjunct1] mld [THEN conjunct1] col a0 a1 b0 b1 c0 c1 d0 d1
  show ?thesis by (simp add: numeral_2_eq_2)
qed

lemma ch_backward_phase_take_below:
  assumes "length targets < 2 ^ 32" and "j \<le> length targets"
  shows "buckets_below j
     (search_space_with_buckets
        (ch_backward_phase stall facade (take j targets) (initial_state n)))"
proof -
  let ?init = "initial_state n :: CHState"
  note init = initial_state_props [of n, where 'd = ManyToManyHeapData]
  from assms have "length (take j targets) < 2 ^ 32" by simp
  with init have "column_idx ?init + length (take j targets) < 2 ^ 32" by simp
  then have "ch_backward_phase stall facade (take j targets) ?init =
      ch_backward_phase_ideal stall facade (take j targets) ?init"
    by (rule ch_backward_phase_in_range)
  with ch_backward_phase_ideal_props [of stall facade "take j targets" "?init"] init assms(2)
  show ?thesis by (simp add: min_absorb2)
qed

lemma mld_backward_phase_take_below:
  assumes "length targets < 2 ^ 32" and "j \<le> length targets"
  shows "buckets_below j
     (search_space_with_buckets
        (mld_backward_phase facade others (take j targets) (initial_state n)))"
proof -
  let ?init = "initial_state n :: MLDState"
  note init = initial_state_props [of n, where 'd = MLDHeapData]
  from assms have "length (take j targets) < 2 ^ 32" by simp
  with init have "column_idx ?init + length (take j targets) < 2 ^ 32" by simp
  then have "mld_backward_phase facade others (take j targets) ?init =
      mld_backward_phase_ideal facade others (take j targets) ?init"
    by (rule mld_backward_phase_in_range)
  with mld_backward_phase_ideal_props [of facade others "take j targets" "?init"] init assms(2)
  show ?thesis by (simp add: min_absorb2)
qed

lemma ch_forward_phase_take_in_bounds:
  assumes ns: "length sources < 2 ^ 32" and nt: "length targets < 2 ^ 32"
    and prod: "length sources * length targets < 2 ^ 32"
    and i: "i \<le> length sources"
  shows "\<exists>t. ch_forward_phase stall facade (length targets) (take i sources)
         (ch_backward_phase stall facade targets
            (initial_state (to_size_t (length sources * length targets)))) = Inr t \<and>
       row_idx t = i \<and>
       length (weights_table t) = length sources * length targets \<and>
       length (durations_table t) = length sources * length targets \<and>
       buckets_below (length targets) (search_space_with_buckets t)"
proof -
  let ?n = "length sources * length targets"
  let ?init = "initial_state (to_size_t ?n) :: CHState"
  let ?b = "ch_backward_phase_ideal stall facade targets ?init"
  let ?f = "ch_forward_phase_ideal stall facade (length targets) (take i sources) ?b"
  have size: "to_size_t ?n = ?n" using prod by (rule to_size_t_small)
  note init = initial_state_props [of "to_size_t ?n", where 'd = ManyToManyHeapData]
  from init nt have "column_idx ?init + length targets < 2 ^ 32" by (simp add: size)
  then have bw: "ch_backward_phase stall facade targets ?init = ?b"
    by (rule ch_backward_phase_in_range)
  note bprops = ch_backward_phase_ideal_props [of stall facade targets "?init"]
  from bprops init i have row: "row_idx ?b + length (take i sources) \<le> length sources"
    by (simp add: size)
  from bprops init have lw: "length (weights_table ?b) = ?n" by (simp add: size)
  from bprops init have ld: "length (durations_table ?b) = ?n" by (simp add: size)
  from bprops init have below: "buckets_below (length targets) (search_space_with_buckets ?b)"
    by (simp add: size)
  have fw: "ch_forward_phase stall facade (length targets) (take i sources) ?b = Inr ?f"
    using ns nt prod row lw ld below by (rule ch_forward_phase_in_range)
  note fprops = ch_forward_phase_ideal_props [of stall facade "length targets" "take i sources" ?b]
  from fprops bprops init i have "row_idx ?f = i" by (simp add: min_absorb2 size)
  moreover from fprops lw have "length (weights_table ?f) = ?n" by simp
  moreover from fprops ld have "length (durations_table ?f) = ?n" by simp
  moreover from fprops below
  have "buckets_below (length targets) (search_space_with_buckets ?f)" by simp
  ultimately show ?thesis unfolding bw fw by blast
qed

lemma mld_forward_phase_take_in_bounds:
  assumes ns: "length sources < 2 ^ 32" and nt: "length targets < 2 ^ 32"
    and prod: "length sources * length targets < 2 ^ 32"
    and i: "i \<le> length sources"
  shows "\<exists>t. mld_forward_phase facade (length targets) others (take i sources)
         (mld_backward_phase facade others' targets
            (initial_state (to_size_t (length sources * length targets)))) = Inr t \<and>
       row_idx t = i \<and>
       length (weights_table t) = length sources * length targets \<and>
       length (durations_table t) = length sources * length targets \<and>
       buckets_below (length targets) (search_space_with_buckets t)"
proof -
  let ?n = "length sources * length targets"
  let ?init = "initial_state (to_size_t ?n) :: MLDState"
  let ?b = "mld_backward_phase_ideal facade others' targets ?init"
  let ?f = "mld_forward_phase_ideal facade (length targets) others (take i sources) ?b"
  have size: "to_size_t ?n = ?n" using prod by (rule to_size_t_small)
  note init = initial_state_props [of "to_size_t ?n", where 'd = MLDHeapData]
  from init nt have "column_idx ?init + length targets < 2 ^ 32" by (simp add: size)
  then have bw: "mld_backward_phase facade others' targets ?init = ?b"
    by (rule mld_backward_phase_in_range)
  note bprops = mld_backward_phase_ideal_props [of facade others' targets "?init"]
  from bprops init i have row: "row_idx ?b + length (take i sources) \<le> length sources"
    by (simp add: size)
  from bprops init have lw: "length (weights_table ?b) = ?n" by (simp add: size)
  from bprops init have ld: "length (durations_table ?b) = ?n" by (simp add: size)
  from bprops init have below: "buckets_below (length targets) (search_space_with_buckets ?b)"
    by (simp add: size)
  have fw: "mld_forward_phase facade (length targets) others (take i sources) ?b = Inr ?f"
    using ns nt prod row lw ld below by (rule mld_forward_phase_in_range)
  note fprops = mld_forward_phase_ideal_props
    [of facade "length targets" others "take i sources" ?b]
  from fprops bprops init i have "row_idx ?f = i" by (simp add: min_absorb2 size)
  moreover from fprops lw have "length (weights_table ?f) = ?n" by simp
  moreover from fprops ld have "length (durations_table ?f) = ?n" by simp
  moreover from fprops below
  have "buckets_below (length targets) (search_space_with_buckets ?f)" by simp
  ultimately show ?thesis unfolding bw fw by blast
qed

lemma ch_bucket_step_at:
  assumes "row < ns" and "target_id b < nt" and "ns * nt < 2 ^ 32"
    and "length (fst tables) = ns * nt" and "length (snd tables) = ns * nt"
  shows "row * nt + target_id b < ns * nt \<and>
     table_index row nt (target_id b) = row * nt + target_id b \<and>
     ch_bucket_step facade node sw sd row nt tables b =
     Inr ((fst tables)[row * nt + target_id b :=
            fst (ch_bucket_update facade node sw sd b
                   (fst tables ! (row * nt + target_id b),
                    snd tables ! (row * nt + target_id b)))],
          (snd tables)[row * nt + target_id b :=
            snd (ch_bucket_update facade node sw sd b
                   (fst tables ! (row * nt + target_id b),
                    snd tables ! (row * nt + target_id b)))])"
proof -
  from assms(1,2) have bound: "row * nt + target_id b < ns * nt"
    using flat_index_bound [of row ns "target_id b" nt] by (simp add: flat_index_def)
  from assms(1,2,3) have idx: "table_index row nt (target_id b) = row * nt + target_id b"
    using table_index_in_range [of row ns "target_id b" nt] by (simp add: flat_index_def)
  from bound assms(4,5) show ?thesis
    unfolding ch_bucket_step_def Let_def idx by simp
qed

lemma mld_bucket_step_at:
  assumes "row < ns" and "target_id b < nt" and "ns * nt < 2 ^ 32"
    and "length (fst tables) = ns * nt" and "length (snd tables) = ns * nt"
  shows "row * nt + target_id b < ns * nt \<and>
     table_index row nt (target_id b) = row * nt + target_id b \<and>
     mld_bucket_step sw sd row nt tables b =
     Inr ((fst tables)[row * nt + target_id b :=
            fst (mld_bucket_update sw sd b
                   (fst tables ! (row * nt + target_id b),
                    snd tables ! (row * nt + target_id b)))],
          (snd tables)[row * nt + target_id b :=
            snd (mld_bucket_update sw sd b
                   (fst tables ! (row * nt + target_id b),
                    snd tables ! (row * nt + target_id b)))])"
proof -
  from assms(1,2) have bound: "row * nt + target_id b < ns * nt"
    using flat_index_bound [of row ns "target_id b" nt] by (simp add: flat_index_def)
  from assms(1,2,3) have idx: "table_index row nt (target_id b) = row * nt + target_id b"
    using table_index_in_range [of row ns "target_id b" nt] by (simp add: flat_index_def)
  from bound assms(4,5) show ?thesis
    unfolding mld_bucket_step_def Let_def idx by simp
qed

lemma ch_forwardRoutingStep_in_bounds:
  assumes "row < ns" and "ns * nt < 2 ^ 32"
    and "length (weights_table s) = ns * nt" and "length (durations_table s) = ns * nt"
    and "buckets_below nt (search_space_with_buckets s)"
  shows "\<exists>t. ch_forwardRoutingStep stall facade row nt s = Inr t \<and>
     length (weights_table t) = ns * nt \<and> length (durations_table t) = ns * nt \<and>
     search_space_with_buckets t = search_space_with_buckets s"
proof -
  let ?t = "ch_forwardRoutingStep_ideal stall facade row nt s"
  have step: "ch_forwardRoutingStep stall facade row nt s = Inr ?t"
    using assms by (rule ch_forwardRoutingStep_in_range)
  from ch_forwardRoutingStep_keeps [OF step] assms(3,4) show ?thesis
    unfolding step by simp
qed

lemma mld_forwardRoutingStep_in_bounds:
  assumes "row < ns" and "ns * nt < 2 ^ 32"
    and "length (weights_table s) = ns * nt" and "length (durations_table s) = ns * nt"
    and "buckets_below nt (search_space_with_buckets s)"
  shows "\<exists>t. mld_forwardRoutingStep facade row nt parentCell s = Inr t \<and>
     length (weights_table t) = ns * nt \<and> length (durations_table t) = ns * nt \<and>
     search_space_with_buckets t = search_space_with_buckets s"
proof -
  let ?t = "mld_forwardRoutingStep_ideal facade row nt parentCell s"
  have step: "mld_forwardRoutingStep facade row nt parentCell s = Inr ?t"
    using assms by (rule mld_forwardRoutingStep_in_range)
  from mld_forwardRoutingStep_keeps [OF step] assms(3,4) show ?thesis
    unfolding step by simp
qed

text \<open>
  C10. In every many-to-many call (CH and MLD) with valid index lists whose numbers of
  sources and targets and their product are below \<open>2^32\<close>: after the first \<open>j\<close>
  backward searches every bucket entry has a \<open>target_id\<close> below \<open>j\<close>, and a
  backward step at a column below \<open>c\<close> keeps the index below \<open>c\<close>, so every
  entry ever appended has a column below the number of targets. The forward searches of the
  first \<open>i\<close> sources return without a table access out of range, in a state with
  \<open>row_idx = i\<close>, both tables of \<open>|sources| * |targets|\<close> cells and every
  bucket entry below the number of targets; so does the whole call. In such a state a
  forward routing step for a row below \<open>|sources|\<close> returns without a table access
  out of range and keeps the table lengths and the bucket index. For a bucket entry with a
  column below \<open>|targets|\<close> the step reads and writes both tables at the index
  \<open>row * |targets| + target_id\<close> and nowhere else; the unsigned 32-bit index the
  source computes is that number, and it is below \<open>|sources| * |targets|\<close>.
\<close>

theorem table_access_in_bounds:
  assumes "indices_valid phantom_nodes source_indices"
    and "indices_valid phantom_nodes target_indices"
    and "length (selected phantom_nodes source_indices) < 2 ^ 32"
    and "length (selected phantom_nodes target_indices) < 2 ^ 32"
    and "length (selected phantom_nodes source_indices) *
         length (selected phantom_nodes target_indices) < 2 ^ 32"
  shows
    "(let sources = selected phantom_nodes source_indices;
          targets = selected phantom_nodes target_indices;
          ns = length sources;
          nt = length targets;
          start = initial_state (to_size_t (ns * nt));
          buckets_done = ch_backward_phase stall facade targets start
      in (\<forall>j \<le> nt.
            buckets_below j
              (search_space_with_buckets
                 (ch_backward_phase stall facade (take j targets) start))) \<and>
         (\<forall>i \<le> ns.
            case ch_forward_phase stall facade nt (take i sources) buckets_done of
              Inl e \<Rightarrow> False
            | Inr t \<Rightarrow>
                row_idx t = i \<and>
                length (weights_table t) = ns * nt \<and>
                length (durations_table t) = ns * nt \<and>
                buckets_below nt (search_space_with_buckets t)) \<and>
         (case ch_search stall facade phantom_nodes source_indices target_indices of
            Inl e \<Rightarrow> False
          | Inr t \<Rightarrow>
              length (weights_table t) = ns * nt \<and>
              length (durations_table t) = ns * nt) \<and>
         (\<forall>row < ns. \<forall>s.
            length (weights_table s) = ns * nt \<and>
            length (durations_table s) = ns * nt \<and>
            buckets_below nt (search_space_with_buckets s) \<longrightarrow>
            (case ch_forwardRoutingStep stall facade row nt s of
               Inl e \<Rightarrow> False
             | Inr t \<Rightarrow>
                 length (weights_table t) = ns * nt \<and>
                 length (durations_table t) = ns * nt \<and>
                 search_space_with_buckets t = search_space_with_buckets s)) \<and>
         (\<forall>row < ns. \<forall>node source_weight source_duration tables current_bucket.
            target_id current_bucket < nt \<and>
            length (fst tables) = ns * nt \<and> length (snd tables) = ns * nt \<longrightarrow>
            row * nt + target_id current_bucket < ns * nt \<and>
            table_index row nt (target_id current_bucket) =
              row * nt + target_id current_bucket \<and>
            ch_bucket_step facade node source_weight source_duration row nt tables
              current_bucket =
            Inr ((fst tables)[row * nt + target_id current_bucket :=
                   fst (ch_bucket_update facade node source_weight source_duration
                          current_bucket
                          (fst tables ! (row * nt + target_id current_bucket),
                           snd tables ! (row * nt + target_id current_bucket)))],
                 (snd tables)[row * nt + target_id current_bucket :=
                   snd (ch_bucket_update facade node source_weight source_duration
                          current_bucket
                          (fst tables ! (row * nt + target_id current_bucket),
                           snd tables ! (row * nt + target_id current_bucket)))]))) \<and>
     (let sources = selected phantom_nodes source_indices;
          targets = selected phantom_nodes target_indices;
          ns = length sources;
          nt = length targets;
          start = initial_state (to_size_t (ns * nt));
          buckets_done = mld_backward_phase mld_facade sources targets start
      in (\<forall>j \<le> nt.
            buckets_below j
              (search_space_with_buckets
                 (mld_backward_phase mld_facade sources (take j targets) start))) \<and>
         (\<forall>i \<le> ns.
            case mld_forward_phase mld_facade nt targets (take i sources) buckets_done of
              Inl e \<Rightarrow> False
            | Inr t \<Rightarrow>
                row_idx t = i \<and>
                length (weights_table t) = ns * nt \<and>
                length (durations_table t) = ns * nt \<and>
                buckets_below nt (search_space_with_buckets t)) \<and>
         (case mld_search mld_facade phantom_nodes source_indices target_indices of
            Inl e \<Rightarrow> False
          | Inr t \<Rightarrow>
              length (weights_table t) = ns * nt \<and>
              length (durations_table t) = ns * nt) \<and>
         (\<forall>row < ns. \<forall>parentCell s.
            length (weights_table s) = ns * nt \<and>
            length (durations_table s) = ns * nt \<and>
            buckets_below nt (search_space_with_buckets s) \<longrightarrow>
            (case mld_forwardRoutingStep mld_facade row nt parentCell s of
               Inl e \<Rightarrow> False
             | Inr t \<Rightarrow>
                 length (weights_table t) = ns * nt \<and>
                 length (durations_table t) = ns * nt \<and>
                 search_space_with_buckets t = search_space_with_buckets s)) \<and>
         (\<forall>row < ns. \<forall>source_weight source_duration tables current_bucket.
            target_id current_bucket < nt \<and>
            length (fst tables) = ns * nt \<and> length (snd tables) = ns * nt \<longrightarrow>
            row * nt + target_id current_bucket < ns * nt \<and>
            table_index row nt (target_id current_bucket) =
              row * nt + target_id current_bucket \<and>
            mld_bucket_step source_weight source_duration row nt tables current_bucket =
            Inr ((fst tables)[row * nt + target_id current_bucket :=
                   fst (mld_bucket_update source_weight source_duration current_bucket
                          (fst tables ! (row * nt + target_id current_bucket),
                           snd tables ! (row * nt + target_id current_bucket)))],
                 (snd tables)[row * nt + target_id current_bucket :=
                   snd (mld_bucket_update source_weight source_duration current_bucket
                          (fst tables ! (row * nt + target_id current_bucket),
                           snd tables ! (row * nt + target_id current_bucket)))]))) \<and>
     (\<forall>c column s.
        column < c \<and> buckets_below c (search_space_with_buckets s) \<longrightarrow>
        buckets_below c
          (search_space_with_buckets (ch_backwardRoutingStep stall facade column s))) \<and>
     (\<forall>c column parentCell s.
        column < c \<and> buckets_below c (search_space_with_buckets s) \<longrightarrow>
        buckets_below c
          (search_space_with_buckets
             (mld_backwardRoutingStep mld_facade column parentCell s)))"
proof -
  let ?sources = "selected phantom_nodes source_indices"
  let ?targets = "selected phantom_nodes target_indices"
  note ns = assms(3) and nt = assms(4) and prod = assms(5)
  have ch_fw: "case ch_forward_phase stall facade (length ?targets) (take i ?sources)
        (ch_backward_phase stall facade ?targets
           (initial_state (to_size_t (length ?sources * length ?targets)))) of
      Inl e \<Rightarrow> False
    | Inr t \<Rightarrow>
        row_idx t = i \<and>
        length (weights_table t) = length ?sources * length ?targets \<and>
        length (durations_table t) = length ?sources * length ?targets \<and>
        buckets_below (length ?targets) (search_space_with_buckets t)"
    if "i \<le> length ?sources" for i
    using ch_forward_phase_take_in_bounds [OF ns nt prod that, of stall facade] by auto
  have mld_fw: "case mld_forward_phase mld_facade (length ?targets) ?targets (take i ?sources)
        (mld_backward_phase mld_facade ?sources ?targets
           (initial_state (to_size_t (length ?sources * length ?targets)))) of
      Inl e \<Rightarrow> False
    | Inr t \<Rightarrow>
        row_idx t = i \<and>
        length (weights_table t) = length ?sources * length ?targets \<and>
        length (durations_table t) = length ?sources * length ?targets \<and>
        buckets_below (length ?targets) (search_space_with_buckets t)"
    if "i \<le> length ?sources" for i
    using mld_forward_phase_take_in_bounds [OF ns nt prod that, of mld_facade ?targets ?sources]
    by auto
  have ch_all: "case ch_search stall facade phantom_nodes source_indices target_indices of
      Inl e \<Rightarrow> False
    | Inr t \<Rightarrow>
        length (weights_table t) = length ?sources * length ?targets \<and>
        length (durations_table t) = length ?sources * length ?targets"
    using ch_fw [of "length ?sources"]
    unfolding ch_search_phases [OF assms(1,2)] by (auto split: sum.splits)
  have mld_all: "case mld_search mld_facade phantom_nodes source_indices target_indices of
      Inl e \<Rightarrow> False
    | Inr t \<Rightarrow>
        length (weights_table t) = length ?sources * length ?targets \<and>
        length (durations_table t) = length ?sources * length ?targets"
    using mld_fw [of "length ?sources"]
    unfolding mld_search_phases [OF assms(1,2)] by (auto split: sum.splits)
  have ch_step: "case ch_forwardRoutingStep stall facade row (length ?targets) s of
      Inl e \<Rightarrow> False
    | Inr t \<Rightarrow>
        length (weights_table t) = length ?sources * length ?targets \<and>
        length (durations_table t) = length ?sources * length ?targets \<and>
        search_space_with_buckets t = search_space_with_buckets s"
    if "row < length ?sources"
      and "length (weights_table s) = length ?sources * length ?targets \<and>
        length (durations_table s) = length ?sources * length ?targets \<and>
        buckets_below (length ?targets) (search_space_with_buckets s)" for row s
    using ch_forwardRoutingStep_in_bounds [OF that(1) prod, of s stall facade] that(2) by auto
  have mld_step: "case mld_forwardRoutingStep mld_facade row (length ?targets) parentCell s of
      Inl e \<Rightarrow> False
    | Inr t \<Rightarrow>
        length (weights_table t) = length ?sources * length ?targets \<and>
        length (durations_table t) = length ?sources * length ?targets \<and>
        search_space_with_buckets t = search_space_with_buckets s"
    if "row < length ?sources"
      and "length (weights_table s) = length ?sources * length ?targets \<and>
        length (durations_table s) = length ?sources * length ?targets \<and>
        buckets_below (length ?targets) (search_space_with_buckets s)" for row s parentCell
    using mld_forwardRoutingStep_in_bounds [OF that(1) prod, of s mld_facade parentCell] that(2)
    by auto
  have ch_at: "row * length ?targets + target_id b < length ?sources * length ?targets \<and>
      table_index row (length ?targets) (target_id b) = row * length ?targets + target_id b \<and>
      ch_bucket_step facade node sw sd row (length ?targets) tables b =
      Inr ((fst tables)[row * length ?targets + target_id b :=
             fst (ch_bucket_update facade node sw sd b
                    (fst tables ! (row * length ?targets + target_id b),
                     snd tables ! (row * length ?targets + target_id b)))],
           (snd tables)[row * length ?targets + target_id b :=
             snd (ch_bucket_update facade node sw sd b
                    (fst tables ! (row * length ?targets + target_id b),
                     snd tables ! (row * length ?targets + target_id b)))])"
    if "row < length ?sources"
      and "target_id b < length ?targets \<and>
        length (fst tables) = length ?sources * length ?targets \<and>
        length (snd tables) = length ?sources * length ?targets" for row node sw sd tables b
    using ch_bucket_step_at [OF that(1) _ prod, of b tables facade node sw sd] that(2)
    by blast
  have mld_at: "row * length ?targets + target_id b < length ?sources * length ?targets \<and>
      table_index row (length ?targets) (target_id b) = row * length ?targets + target_id b \<and>
      mld_bucket_step sw sd row (length ?targets) tables b =
      Inr ((fst tables)[row * length ?targets + target_id b :=
             fst (mld_bucket_update sw sd b
                    (fst tables ! (row * length ?targets + target_id b),
                     snd tables ! (row * length ?targets + target_id b)))],
           (snd tables)[row * length ?targets + target_id b :=
             snd (mld_bucket_update sw sd b
                    (fst tables ! (row * length ?targets + target_id b),
                     snd tables ! (row * length ?targets + target_id b)))])"
    if "row < length ?sources"
      and "target_id b < length ?targets \<and>
        length (fst tables) = length ?sources * length ?targets \<and>
        length (snd tables) = length ?sources * length ?targets" for row sw sd tables b
    using mld_bucket_step_at [OF that(1) _ prod, of b tables sw sd] that(2)
    by blast
  show ?thesis
    unfolding Let_def
  proof (intro conjI allI impI)
    show "case ch_search stall facade phantom_nodes source_indices target_indices of
        Inl e \<Rightarrow> False
      | Inr t \<Rightarrow>
          length (weights_table t) = length ?sources * length ?targets \<and>
          length (durations_table t) = length ?sources * length ?targets"
      by (rule ch_all)
    show "case mld_search mld_facade phantom_nodes source_indices target_indices of
        Inl e \<Rightarrow> False
      | Inr t \<Rightarrow>
          length (weights_table t) = length ?sources * length ?targets \<and>
          length (durations_table t) = length ?sources * length ?targets"
      by (rule mld_all)
  qed (simp_all only: ch_backward_phase_take_below [OF nt]
      mld_backward_phase_take_below [OF nt] ch_fw mld_fw ch_step mld_step
      ch_at mld_at
      ch_backwardRoutingStep_below mld_backwardRoutingStep_below,
    (rule ch_at [THEN conjunct1] ch_at [THEN conjunct2, THEN conjunct1], assumption+)+)
qed


theorem table_access_in_bounds_witness:
  "indices_valid
     [phantom_at 0 True 0 False, phantom_at 4 True 4 False, phantom_at 1 True 1 False,
      phantom_at 2 True 2 False] [0, 3] \<and>
   indices_valid
     [phantom_at 0 True 0 False, phantom_at 4 True 4 False, phantom_at 1 True 1 False,
      phantom_at 2 True 2 False] [1, 2] \<and>
   length (selected
     [phantom_at 0 True 0 False, phantom_at 4 True 4 False, phantom_at 1 True 1 False,
      phantom_at 2 True 2 False] [0, 3]) < 2 ^ 32 \<and>
   length (selected
     [phantom_at 0 True 0 False, phantom_at 4 True 4 False, phantom_at 1 True 1 False,
      phantom_at 2 True 2 False] [1, 2]) < 2 ^ 32 \<and>
   length (selected
     [phantom_at 0 True 0 False, phantom_at 4 True 4 False, phantom_at 1 True 1 False,
      phantom_at 2 True 2 False] [0, 3]) *
   length (selected
     [phantom_at 0 True 0 False, phantom_at 4 True 4 False, phantom_at 1 True 1 False,
      phantom_at 2 True 2 False] [1, 2]) < 2 ^ 32 \<and>
   (case ch_search stallAtNode tie_facade
           [phantom_at 0 True 0 False, phantom_at 4 True 4 False, phantom_at 1 True 1 False,
            phantom_at 2 True 2 False] [0, 3] [1, 2] of
      Inl e \<Rightarrow> False
    | Inr t \<Rightarrow> length (weights_table t) = 4 \<and> length (durations_table t) = 4) \<and>
   (case mld_search line_facade
           [phantom_at 0 True 0 False, phantom_at 4 True 4 False, phantom_at 1 True 1 False,
            phantom_at 2 True 2 False] [0, 3] [1, 2] of
      Inl e \<Rightarrow> False
    | Inr t \<Rightarrow> length (weights_table t) = 4 \<and> length (durations_table t) = 4) \<and>
   buckets_below 2
     (search_space_with_buckets
        (ch_backward_phase stallAtNode tie_facade
           [phantom_at 4 True 4 False, phantom_at 1 True 1 False] (initial_state 4))) \<and>
   table_index 1 2 1 = 3 \<and>
   ch_bucket_step tie_facade 2 0 0 1 2 ([5, 2, 7, 7], [5, 2, 7, 7])
     \<lparr>target_id = 1, target_weight = 1, target_duration = 1\<rparr> =
   Inr ([5, 2, 7, 1], [5, 2, 7, 1]) \<and>
   mld_bucket_step 0 0 1 2 ([5, 2, 7, 7], [5, 2, 7, 7])
     \<lparr>target_id = 1, target_weight = 1, target_duration = 1\<rparr> =
   Inr ([5, 2, 7, 1], [5, 2, 7, 1])"
proof -
  let ?ps = "[phantom_at 0 True 0 False, phantom_at 4 True 4 False, phantom_at 1 True 1 False,
      phantom_at 2 True 2 False]"
  let ?b = "\<lparr>target_id = 1, target_weight = 1, target_duration = 1\<rparr>"
  let ?tables = "([5, 2, 7, 7], [5, 2, 7, 7]) :: EdgeWeight list \<times> EdgeWeight list"
  have v0: "indices_valid ?ps [0, 3]" by (simp add: indices_valid_def)
  have v1: "indices_valid ?ps [1, 2]" by (simp add: indices_valid_def)
  have s0: "selected ?ps [0, 3] = [phantom_at 0 True 0 False, phantom_at 2 True 2 False]"
    by (simp add: selected_def)
  have s1: "selected ?ps [1, 2] = [phantom_at 4 True 4 False, phantom_at 1 True 1 False]"
    by (simp add: selected_def)
  have ls: "length (selected ?ps [0, 3]) < 2 ^ 32" unfolding s0 by simp
  have lt: "length (selected ?ps [1, 2]) < 2 ^ 32" unfolding s1 by simp
  have lp: "length (selected ?ps [0, 3]) * length (selected ?ps [1, 2]) < 2 ^ 32"
    unfolding s0 s1 by simp
  have n0: "length [phantom_at 0 True 0 False, phantom_at 2 True 2 False] = 2" by simp
  have n1: "length [phantom_at 4 True 4 False, phantom_at 1 True 1 False] = 2" by simp
  have four: "to_size_t 4 = 4" "(2 :: nat) * 2 = 4" by (simp_all add: to_size_t_def)
  have tk: "take 2 [phantom_at 4 True 4 False, phantom_at 1 True 1 False] =
      [phantom_at 4 True 4 False, phantom_at 1 True 1 False]" by simp
  have three: "(1 :: nat) * 2 + 1 = 3" by simp
  have tid: "target_id ?b = 1" by simp
  have cw: "fst (ch_bucket_update tie_facade 2 0 0 ?b (fst ?tables ! 3, snd ?tables ! 3)) = 1"
    by code_simp
  have cd: "snd (ch_bucket_update tie_facade 2 0 0 ?b (fst ?tables ! 3, snd ?tables ! 3)) = 1"
    by code_simp
  have mw: "fst (mld_bucket_update 0 0 ?b (fst ?tables ! 3, snd ?tables ! 3)) = 1"
    by code_simp
  have md: "snd (mld_bucket_update 0 0 ?b (fst ?tables ! 3, snd ?tables ! 3)) = 1"
    by code_simp
  have upd: "(fst ?tables)[3 := 1] = [5, 2, 7, 1]" "(snd ?tables)[3 := 1] = [5, 2, 7, 1]"
    by simp_all
  have pre: "target_id ?b < 2 \<and> length (fst ?tables) = 4 \<and> length (snd ?tables) = 4"
    by simp
  note t = table_access_in_bounds
    [OF v0 v1 ls lt lp, of stallAtNode tie_facade line_facade, unfolded Let_def s0 s1 n0 n1 four]
  note ch = t [THEN conjunct1]
  note mld = t [THEN conjunct2, THEN conjunct1]
  note below = ch [THEN conjunct1, rule_format, of 2, unfolded tk]
  note all = ch [THEN conjunct2, THEN conjunct2, THEN conjunct1]
  note at = ch [THEN conjunct2, THEN conjunct2, THEN conjunct2, THEN conjunct2, rule_format,
      of 1 ?b ?tables 2 0 0, OF _ pre, unfolded tid three cw cd upd]
  note mall = mld [THEN conjunct2, THEN conjunct2, THEN conjunct1]
  note mat = mld [THEN conjunct2, THEN conjunct2, THEN conjunct2, THEN conjunct2, rule_format,
      of 1 ?b ?tables 0 0, OF _ pre, unfolded tid three mw md upd]
  have one: "(1 :: nat) < 2" and two: "(2 :: nat) \<le> 2" by simp_all
  from v0 v1 ls lt lp all mall below [OF two] at [OF one] mat [OF one]
  show ?thesis by (intro conjI) (rule v0 v1 ls lt lp all mall | blast)+
qed

section \<open>The claim about the returned table\<close>

lemma ch_manyToManySearch_valid:
  assumes "indices_valid phantom_nodes source_indices"
    and "indices_valid phantom_nodes target_indices"
    and "length (selected phantom_nodes source_indices) < 2 ^ 32"
    and "length (selected phantom_nodes target_indices) < 2 ^ 32"
    and "length (selected phantom_nodes source_indices) *
         length (selected phantom_nodes target_indices) < 2 ^ 32"
  shows "ch_manyToManySearch facade phantom_nodes source_indices target_indices =
     Inr (ch_table facade (selected phantom_nodes source_indices)
            (selected phantom_nodes target_indices))"
  by (simp only: ch_manyToManySearch_def ch_search_valid [OF assms] sum.case ch_search_table
      ch_table_in_range ch_table_ideal_def)

lemma mld_manyToManySearch_valid:
  assumes "indices_valid phantom_nodes source_indices"
    and "indices_valid phantom_nodes target_indices"
    and "length (selected phantom_nodes source_indices) < 2 ^ 32"
    and "length (selected phantom_nodes target_indices) < 2 ^ 32"
    and "length (selected phantom_nodes source_indices) *
         length (selected phantom_nodes target_indices) < 2 ^ 32"
  shows "mld_manyToManySearch facade phantom_nodes source_indices target_indices =
     Inr (mld_table facade (selected phantom_nodes source_indices)
            (selected phantom_nodes target_indices))"
  by (simp only: mld_manyToManySearch_def mld_search_valid [OF assms] sum.case mld_search_table
      mld_table_in_range)

lemma selected_none: "selected phantom_nodes [] = phantom_nodes"
  by (simp add: selected_def)

text \<open>
  C6. A many-to-many call (CH and MLD) with valid index lists, whose numbers of selected
  sources and targets and their product are below \<open>2^32\<close>, returns the table of
  \<open>|sources| * |targets|\<close> durations that lists, row by row, one row per selected
  source in order and in each row one cell per selected target in order: the cell at
  \<open>i * |targets| + j\<close> is the duration that the forward search of source
  \<open>i\<close> alone computes from the buckets of the backward search of target
  \<open>j\<close> alone, on a table of one unset cell (in MLD with the parent cells of the
  whole call). So a phantom selected twice gives two equal rows or columns. The selected
  phantoms are those the index list names, in the order of the list, and an empty index list
  selects all phantoms in order: under the same bounds on the numbers of phantoms it gives
  the same table as the list \<open>0, ..., |phantoms| - 1\<close> of all indices.
\<close>

theorem table_is_row_major:
  assumes "indices_valid phantom_nodes source_indices"
    and "indices_valid phantom_nodes target_indices"
    and "length (selected phantom_nodes source_indices) < 2 ^ 32"
    and "length (selected phantom_nodes target_indices) < 2 ^ 32"
    and "length (selected phantom_nodes source_indices) *
         length (selected phantom_nodes target_indices) < 2 ^ 32"
  shows
    "(let sources = selected phantom_nodes source_indices;
          targets = selected phantom_nodes target_indices
      in ch_manyToManySearch facade phantom_nodes source_indices target_indices =
           Inr (ch_table facade sources targets) \<and>
         mld_manyToManySearch mld_facade phantom_nodes source_indices target_indices =
           Inr (mld_table mld_facade sources targets) \<and>
         length (ch_table facade sources targets) = length sources * length targets \<and>
         length (mld_table mld_facade sources targets) = length sources * length targets \<and>
         (\<forall>i < length sources. \<forall>j < length targets.
            i * length targets + j < length sources * length targets \<and>
            ch_table facade sources targets ! (i * length targets + j) =
              snd (ch_cell stallAtNode facade (sources ! i) (targets ! j)) \<and>
            mld_table mld_facade sources targets ! (i * length targets + j) =
              snd (mld_cell mld_facade (sources ! i)
                     (parent_cell (multi_level_partition mld_facade) (sources ! i) targets)
                     (targets ! j)
                     (parent_cell (multi_level_partition mld_facade) (targets ! j) sources)))) \<and>
     selected phantom_nodes [] = phantom_nodes \<and>
     (source_indices \<noteq> [] \<longrightarrow>
      selected phantom_nodes source_indices = map (\<lambda>i. phantom_nodes ! i) source_indices) \<and>
     (target_indices \<noteq> [] \<longrightarrow>
      selected phantom_nodes target_indices = map (\<lambda>i. phantom_nodes ! i) target_indices) \<and>
     (length phantom_nodes < 2 ^ 32 \<and>
      length phantom_nodes * length (selected phantom_nodes target_indices) < 2 ^ 32 \<longrightarrow>
      ch_manyToManySearch facade phantom_nodes [] target_indices =
        ch_manyToManySearch facade phantom_nodes [0..<length phantom_nodes] target_indices \<and>
      mld_manyToManySearch mld_facade phantom_nodes [] target_indices =
        mld_manyToManySearch mld_facade phantom_nodes [0..<length phantom_nodes]
          target_indices) \<and>
     (length phantom_nodes < 2 ^ 32 \<and>
      length (selected phantom_nodes source_indices) * length phantom_nodes < 2 ^ 32 \<longrightarrow>
      ch_manyToManySearch facade phantom_nodes source_indices [] =
        ch_manyToManySearch facade phantom_nodes source_indices [0..<length phantom_nodes] \<and>
      mld_manyToManySearch mld_facade phantom_nodes source_indices [] =
        mld_manyToManySearch mld_facade phantom_nodes source_indices
          [0..<length phantom_nodes])"
proof -
  let ?ss = "selected phantom_nodes source_indices"
  let ?ts = "selected phantom_nodes target_indices"
  have none: "indices_valid phantom_nodes []" by (simp add: indices_valid_def)
  note all = indices_valid_all [of phantom_nodes]
  note sel = selected_none [of phantom_nodes]
  have a: "ch_manyToManySearch facade phantom_nodes source_indices target_indices =
      Inr (ch_table facade ?ss ?ts)"
    using assms by (rule ch_manyToManySearch_valid)
  have b: "mld_manyToManySearch mld_facade phantom_nodes source_indices target_indices =
      Inr (mld_table mld_facade ?ss ?ts)"
    using assms by (rule mld_manyToManySearch_valid)
  have c: "length (ch_table facade ?ss ?ts) = length ?ss * length ?ts"
    by (simp only: ch_table_def length_row_major)
  have d: "length (mld_table mld_facade ?ss ?ts) = length ?ss * length ?ts"
    by (simp only: mld_table_def length_row_major)
  have e0: "i * length ?ts + j < length ?ss * length ?ts"
    if "i < length ?ss" and "j < length ?ts" for i j
    using flat_index_bound [OF that] by (simp only: flat_index_def)
  have e: "ch_table facade ?ss ?ts ! (i * length ?ts + j) =
      snd (ch_cell stallAtNode facade (?ss ! i) (?ts ! j))"
    if "i < length ?ss" and "j < length ?ts" for i j
    using nth_row_major [OF that, of "\<lambda>source target. snd (ch_cell stallAtNode facade source target)"]
    by (simp only: ch_table_def flat_index_def)
  have f: "mld_table mld_facade ?ss ?ts ! (i * length ?ts + j) =
      snd (mld_cell mld_facade (?ss ! i)
             (parent_cell (multi_level_partition mld_facade) (?ss ! i) ?ts) (?ts ! j)
             (parent_cell (multi_level_partition mld_facade) (?ts ! j) ?ss))"
    if "i < length ?ss" and "j < length ?ts" for i j
    using nth_row_major [OF that, of "\<lambda>source target.
        snd (mld_cell mld_facade source
               (parent_cell (multi_level_partition mld_facade) source ?ts) target
               (parent_cell (multi_level_partition mld_facade) target ?ss))"]
    by (simp only: mld_table_def flat_index_def)
  have s: "selected phantom_nodes indices = map (\<lambda>i. phantom_nodes ! i) indices"
    if "indices \<noteq> []" for indices
    using that by (simp add: selected_def)
  have g: "ch_manyToManySearch facade phantom_nodes [] target_indices =
      ch_manyToManySearch facade phantom_nodes [0..<length phantom_nodes] target_indices \<and>
      mld_manyToManySearch mld_facade phantom_nodes [] target_indices =
      mld_manyToManySearch mld_facade phantom_nodes [0..<length phantom_nodes] target_indices"
    if "length phantom_nodes < 2 ^ 32 \<and> length phantom_nodes * length ?ts < 2 ^ 32"
  proof -
    from that have n: "length (selected phantom_nodes []) < 2 ^ 32"
      and p: "length (selected phantom_nodes []) * length ?ts < 2 ^ 32"
      by (simp_all only: sel)
    from n have n': "length (selected phantom_nodes [0..<length phantom_nodes]) < 2 ^ 32"
      by (simp only: selected_all)
    from p have p': "length (selected phantom_nodes [0..<length phantom_nodes]) *
        length ?ts < 2 ^ 32"
      by (simp only: selected_all)
    show ?thesis
      by (simp only: ch_manyToManySearch_valid [OF none assms(2) n assms(4) p]
          ch_manyToManySearch_valid [OF all assms(2) n' assms(4) p']
          mld_manyToManySearch_valid [OF none assms(2) n assms(4) p]
          mld_manyToManySearch_valid [OF all assms(2) n' assms(4) p'] selected_all simp_thms)
  qed
  have h: "ch_manyToManySearch facade phantom_nodes source_indices [] =
      ch_manyToManySearch facade phantom_nodes source_indices [0..<length phantom_nodes] \<and>
      mld_manyToManySearch mld_facade phantom_nodes source_indices [] =
      mld_manyToManySearch mld_facade phantom_nodes source_indices [0..<length phantom_nodes]"
    if "length phantom_nodes < 2 ^ 32 \<and> length ?ss * length phantom_nodes < 2 ^ 32"
  proof -
    from that have n: "length (selected phantom_nodes []) < 2 ^ 32"
      and p: "length ?ss * length (selected phantom_nodes []) < 2 ^ 32"
      by (simp_all only: sel)
    from n have n': "length (selected phantom_nodes [0..<length phantom_nodes]) < 2 ^ 32"
      by (simp only: selected_all)
    from p have p': "length ?ss *
        length (selected phantom_nodes [0..<length phantom_nodes]) < 2 ^ 32"
      by (simp only: selected_all)
    show ?thesis
      by (simp only: ch_manyToManySearch_valid [OF assms(1) none assms(3) n p]
          ch_manyToManySearch_valid [OF assms(1) all assms(3) n' p']
          mld_manyToManySearch_valid [OF assms(1) none assms(3) n p]
          mld_manyToManySearch_valid [OF assms(1) all assms(3) n' p'] selected_all simp_thms)
  qed
  from a b c d e0 e f sel s [of source_indices] s [of target_indices]
    g [THEN conjunct1] g [THEN conjunct2] h [THEN conjunct1] h [THEN conjunct2]
  show ?thesis
    unfolding Let_def by (intro conjI allI impI)
qed


theorem table_is_row_major_witness:
  "indices_valid
     [phantom_at 0 True 0 False, phantom_at 1 True 1 False, phantom_at 4 True 4 False,
      phantom_at 2 True 2 False] [0, 1] \<and>
   indices_valid
     [phantom_at 0 True 0 False, phantom_at 1 True 1 False, phantom_at 4 True 4 False,
      phantom_at 2 True 2 False] [2, 3] \<and>
   length (selected
     [phantom_at 0 True 0 False, phantom_at 1 True 1 False, phantom_at 4 True 4 False,
      phantom_at 2 True 2 False] [0, 1]) < 2 ^ 32 \<and>
   length (selected
     [phantom_at 0 True 0 False, phantom_at 1 True 1 False, phantom_at 4 True 4 False,
      phantom_at 2 True 2 False] [2, 3]) < 2 ^ 32 \<and>
   length (selected
     [phantom_at 0 True 0 False, phantom_at 1 True 1 False, phantom_at 4 True 4 False,
      phantom_at 2 True 2 False] [0, 1]) *
   length (selected
     [phantom_at 0 True 0 False, phantom_at 1 True 1 False, phantom_at 4 True 4 False,
      phantom_at 2 True 2 False] [2, 3]) < 2 ^ 32 \<and>
   ch_manyToManySearch tie_facade
     [phantom_at 0 True 0 False, phantom_at 1 True 1 False, phantom_at 4 True 4 False,
      phantom_at 2 True 2 False] [0, 1] [2, 3] = Inr [5, 1, 3, MAXIMAL_EDGE_DURATION] \<and>
   mld_manyToManySearch line_facade
     [phantom_at 0 True 0 False, phantom_at 1 True 1 False, phantom_at 4 True 4 False,
      phantom_at 2 True 2 False] [0, 1] [2, 3] =
     Inr [MAXIMAL_EDGE_DURATION, 3, MAXIMAL_EDGE_DURATION, 2] \<and>
   (1::nat) < length [phantom_at 0 True 0 False, phantom_at 1 True 1 False] \<and>
   (0::nat) < length [phantom_at 4 True 4 False, phantom_at 2 True 2 False] \<and>
   [5, 1, 3, MAXIMAL_EDGE_DURATION] ! (1 * 2 + 0) =
     snd (ch_cell stallAtNode tie_facade (phantom_at 1 True 1 False)
            (phantom_at 4 True 4 False))"
proof -
  let ?p0 = "phantom_at 0 True 0 False"
  let ?p1 = "phantom_at 1 True 1 False"
  let ?p4 = "phantom_at 4 True 4 False"
  let ?p2 = "phantom_at 2 True 2 False"
  let ?ps = "[?p0, ?p1, ?p4, ?p2]"
  have v0: "indices_valid ?ps [0, 1]" by (simp add: indices_valid_def)
  have v1: "indices_valid ?ps [2, 3]" by (simp add: indices_valid_def)
  have s0: "selected ?ps [0, 1] = [?p0, ?p1]" by (simp add: selected_def)
  have s1: "selected ?ps [2, 3] = [?p4, ?p2]" by (simp add: selected_def)
  have ls: "length (selected ?ps [0, 1]) < 2 ^ 32" unfolding s0 by simp
  have lt: "length (selected ?ps [2, 3]) < 2 ^ 32" unfolding s1 by simp
  have lp: "length (selected ?ps [0, 1]) * length (selected ?ps [2, 3]) < 2 ^ 32"
    unfolding s0 s1 by simp
  note t = table_is_row_major [OF v0 v1 ls lt lp, of tie_facade line_facade,
      unfolded Let_def s0 s1]
  have ch: "ch_table tie_facade [?p0, ?p1] [?p4, ?p2] = [5, 1, 3, MAXIMAL_EDGE_DURATION]"
    by code_simp
  have mld: "mld_table line_facade [?p0, ?p1] [?p4, ?p2] =
      [MAXIMAL_EDGE_DURATION, 3, MAXIMAL_EDGE_DURATION, 2]"
    by code_simp
  from t [THEN conjunct1, THEN conjunct1] ch
  have a: "ch_manyToManySearch tie_facade ?ps [0, 1] [2, 3] =
      Inr [5, 1, 3, MAXIMAL_EDGE_DURATION]"
    by simp
  from t [THEN conjunct1, THEN conjunct2, THEN conjunct1] mld
  have b: "mld_manyToManySearch line_facade ?ps [0, 1] [2, 3] =
      Inr [MAXIMAL_EDGE_DURATION, 3, MAXIMAL_EDGE_DURATION, 2]"
    by simp
  have i: "(1::nat) < length [?p0, ?p1]" by simp
  have j: "(0::nat) < length [?p4, ?p2]" by simp
  have l: "length [?p4, ?p2] = 2" by simp
  have n0: "[?p0, ?p1] ! 1 = ?p1" by simp
  have n1: "[?p4, ?p2] ! 0 = ?p4" by simp
  note c = t [THEN conjunct1, THEN conjunct2, THEN conjunct2, THEN conjunct2, THEN conjunct2,
      rule_format, OF i j, THEN conjunct2, THEN conjunct1, unfolded ch l n0 n1]
  from v0 v1 ls lt lp a b i j c show ?thesis by (intro conjI)
qed

section \<open>The claim about stall-on-demand\<close>




section \<open>The claim about the two sentinels\<close>












end
